(* ===== verification/Prelude.thy ===== *)
theory Prelude
  imports Main "HOL-Library.Word" "HOL-Library.Char_ord" "HOL-Library.List_Lexorder"
begin

text \<open>
  What every other theory shares: the Go values of the repository (strings and byte slices as
  byte lists, instants and durations as nanosecond counts, UUIDs as 128-bit words), Go errors
  with \<open>fmt.Errorf\<close> wrapping and \<open>errors.Is\<close> / \<open>errors.As\<close>, the pieces of the Go standard
  library the code calls (\<open>strings\<close>, \<open>strconv\<close>, \<open>encoding/hex\<close>, \<open>encoding/binary\<close>), and the
  generic lemmas and theorem collections the component theories use.
\<close>

section \<open>Go values\<close>

text \<open>A Go \<open>string\<close> and a \<open>[]byte\<close> are byte sequences; HOL's \<^typ>\<open>char\<close> is one byte.\<close>

type_synonym bytes = "char list"

text \<open>A \<open>time.Time\<close> is its distance from the Unix epoch in nanoseconds (UTC), a
  \<open>time.Duration\<close> a number of nanoseconds.\<close>

type_synonym instant = int
type_synonym duration = int

type_synonym UUID = "128 word"

abbreviation uuid_Nil :: UUID where "uuid_Nil \<equiv> 0"

definition Millisecond :: duration where "Millisecond = 1000000"
definition Second :: duration where "Second = 1000000000"
definition Minute :: duration where "Minute = 60 * Second"
definition Hour :: duration where "Hour = 60 * Minute"

lemmas duration_units = Millisecond_def Second_def Minute_def Hour_def

text \<open>Conversion to \<open>int64\<close>, and \<open>Time.UnixNano\<close>, which wraps outside the int64 range.\<close>

definition to_int64 :: "int \<Rightarrow> int" where
  "to_int64 n = sint (word_of_int n :: 64 word)"

definition in_int64 :: "int \<Rightarrow> bool" where
  "in_int64 n \<longleftrightarrow> - (2 ^ 63) \<le> n \<and> n < 2 ^ 63"

definition UnixNano :: "instant \<Rightarrow> int" where
  "UnixNano t = to_int64 t"

section \<open>Go errors\<close>

text \<open>
  The sentinel errors the service compares with \<open>errors.Is\<close>: those of
  \<open>internal/domain/errors.go\<close>, then the sentinels of \<open>internal/repository\<close> and
  \<open>internal/audit\<close>, then those of the packages it calls (\<open>context\<close>, pgx, go-redis).
\<close>

datatype sentinel =
    ErrInvalidCurrency | ErrInvalidAccountStatus | ErrInvalidTxStatus | ErrInvalidOutboxStatus
  | ErrAccountClosed | ErrAccountFrozen | ErrCurrencyMismatch
  | ErrUnbalancedTransaction
  | ErrDuplicateIdempotencyKey | ErrAccountNotFound | ErrTransactionNotFound
  | ErrTenantRequired | ErrAccountTenantMismatch | ErrRequestFingerprintMismatch
  | ErrTransferInFlight | ErrIdempotencyKeyFailed
  | ErrRetryCapReached | ErrCircuitOpen | ErrAcquireTimeout
  | ErrEnvelopeIncomplete
  | ContextCanceled | ContextDeadlineExceeded
  | PgxErrNoRows | PgxErrTxClosed
  | RedisNil

text \<open>
  An error value. \<open>Errorf\<close> is a \<open>fmt.Errorf\<close> call with its format written out: literal text,
  wrapped errors (verb w), and the arguments of the other verbs, which do not unwrap.
  \<open>Joined\<close> is \<open>errors.Join\<close>; \<open>PgError\<close> carries the SQLSTATE of a \<open>*pgconn.PgError\<close>;
  \<open>Foreign\<close> is any other error of a third-party package.
\<close>

datatype go_error =
    Sentinel sentinel
  | PgError string
  | Errorf "fmt_part list"
  | Joined "go_error list"
  | Foreign string
and fmt_part =
    Lit string
  | W go_error
  | V go_error
  | Q string
  | D int
  | Dur duration

text \<open>\<open>errors.Is\<close> against a sentinel, walking every wrapped error.\<close>

primrec errors_Is :: "go_error \<Rightarrow> sentinel \<Rightarrow> bool"
  and part_Is :: "fmt_part \<Rightarrow> sentinel \<Rightarrow> bool" where
  "errors_Is (Sentinel s) = (\<lambda>t. s = t)"
| "errors_Is (PgError c) = (\<lambda>t. False)"
| "errors_Is (Errorf ps) = (\<lambda>t. list_ex (\<lambda>f. f t) (map part_Is ps))"
| "errors_Is (Joined es) = (\<lambda>t. list_ex (\<lambda>f. f t) (map errors_Is es))"
| "errors_Is (Foreign m) = (\<lambda>t. False)"
| "part_Is (Lit s) = (\<lambda>t. False)"
| "part_Is (W e) = errors_Is e"
| "part_Is (V e) = (\<lambda>t. False)"
| "part_Is (Q s) = (\<lambda>t. False)"
| "part_Is (D n) = (\<lambda>t. False)"
| "part_Is (Dur d) = (\<lambda>t. False)"

text \<open>\<open>errors.As\<close> into a \<open>*pgconn.PgError\<close>: the SQLSTATE of the first one of the chain.\<close>

fun first_some :: "'a option list \<Rightarrow> 'a option" where
  "first_some [] = None"
| "first_some (None # xs) = first_some xs"
| "first_some (Some x # xs) = Some x"

primrec errors_As_PgError :: "go_error \<Rightarrow> string option"
  and part_As_PgError :: "fmt_part \<Rightarrow> string option" where
  "errors_As_PgError (Sentinel s) = None"
| "errors_As_PgError (PgError c) = Some c"
| "errors_As_PgError (Errorf ps) = first_some (map part_As_PgError ps)"
| "errors_As_PgError (Joined es) = first_some (map errors_As_PgError es)"
| "errors_As_PgError (Foreign m) = None"
| "part_As_PgError (Lit s) = None"
| "part_As_PgError (W e) = errors_As_PgError e"
| "part_As_PgError (V e) = None"
| "part_As_PgError (Q s) = None"
| "part_As_PgError (D n) = None"
| "part_As_PgError (Dur d) = None"

text \<open>A call that returns \<open>(value, error)\<close>: \<open>Inl\<close> the error, \<open>Inr\<close> the value. A call that
  returns only an error gives \<^const>\<open>None\<close> for nil.\<close>

type_synonym 'a result = "go_error + 'a"

abbreviation Err :: "sentinel \<Rightarrow> 'a result" where "Err s \<equiv> Inl (Sentinel s)"

section \<open>The Go standard library, as far as it is used\<close>

text \<open>\<open>strings.Cut\<close> and \<open>strings.IndexByte\<close> for a one-byte separator.\<close>

fun strings_Cut :: "string \<Rightarrow> char \<Rightarrow> string \<times> string \<times> bool" where
  "strings_Cut [] c = ([], [], False)"
| "strings_Cut (x # xs) c =
     (if x = c then ([], xs, True)
      else case strings_Cut xs c of (b, a, ok) \<Rightarrow> (x # b, a, ok))"

fun strings_IndexByte :: "string \<Rightarrow> char \<Rightarrow> int" where
  "strings_IndexByte [] c = -1"
| "strings_IndexByte (x # xs) c =
     (if x = c then 0
      else let i = strings_IndexByte xs c in if i = -1 then -1 else i + 1)"

text \<open>\<open>strings.Split\<close> / \<open>strings.SplitSeq\<close> for a one-byte separator: never the empty list.\<close>

fun strings_Split :: "string \<Rightarrow> char \<Rightarrow> string list" where
  "strings_Split [] c = [[]]"
| "strings_Split (x # xs) c =
     (if x = c then [] # strings_Split xs c
      else case strings_Split xs c of [] \<Rightarrow> [[x]] | y # ys \<Rightarrow> (x # y) # ys)"

text \<open>\<open>strings.TrimSpace\<close> on ASCII text.\<close>

definition is_space :: "char \<Rightarrow> bool" where
  "is_space c \<longleftrightarrow> of_char c \<in> {9, 10, 11, 12, 13, 32 :: nat}"

definition strings_TrimSpace :: "string \<Rightarrow> string" where
  "strings_TrimSpace s = rev (dropWhile is_space (rev (dropWhile is_space s)))"

text \<open>Decimal digits, and \<open>strconv.FormatInt(n, 10)\<close>.\<close>

definition digit_char :: "nat \<Rightarrow> char" where
  "digit_char d = char_of (48 + d)"

fun nat_digits :: "nat \<Rightarrow> string" where
  "nat_digits n = (if n < 10 then [digit_char n]
                   else nat_digits (n div 10) @ [digit_char (n mod 10)])"

declare nat_digits.simps [simp del]

definition FormatInt :: "int \<Rightarrow> string" where
  "FormatInt n = (if n < 0 then CHR ''-'' # nat_digits (nat (- n)) else nat_digits (nat n))"

text \<open>\<open>hex.EncodeToString\<close>.\<close>

definition hex_digit :: "nat \<Rightarrow> char" where
  "hex_digit d = (if d < 10 then char_of (48 + d) else char_of (87 + d))"

definition hex_byte :: "char \<Rightarrow> string" where
  "hex_byte c = [hex_digit (of_char c div 16), hex_digit (of_char c mod 16)]"

definition hex_EncodeToString :: "bytes \<Rightarrow> string" where
  "hex_EncodeToString bs = concat (map hex_byte bs)"

text \<open>\<open>binary.BigEndian.AppendUint32(buf, uint32(n))\<close>: the conversion truncates modulo
  \<open>2 ^ 32\<close>.\<close>

definition be32 :: "nat \<Rightarrow> bytes" where
  "be32 n = map (\<lambda>i. char_of (n div 256 ^ i mod 256 :: nat)) [3, 2, 1, 0]"

definition AppendUint32 :: "bytes \<Rightarrow> nat \<Rightarrow> bytes" where
  "AppendUint32 buf n = buf @ be32 (n mod 2 ^ 32)"

section \<open>Theorem collections and generic lemmas\<close>

named_theorems go_simps \<open>evaluation of Go library calls and error tests\<close>
named_theorems inv_intros \<open>preservation of the state invariants\<close>

lemma to_int64_id: "in_int64 n \<Longrightarrow> to_int64 n = n"
  unfolding to_int64_def in_int64_def
  by (simp add: signed_of_int signed_take_bit_int_eq_self)

lemma errors_Is_Errorf [simp]: "errors_Is (Errorf ps) t = list_ex (\<lambda>p. part_Is p t) ps"
  by (induction ps) auto

lemma errors_Is_Joined [simp]: "errors_Is (Joined es) t = list_ex (\<lambda>e. errors_Is e t) es"
  by (induction es) auto

declare errors_Is.simps(3,4) [simp del]

text \<open>Splitting \<open>prefix + sep + rest\<close> at the first separator gives the two parts back.\<close>

lemma strings_Cut_append [go_simps]:
  "c \<notin> set a \<Longrightarrow> strings_Cut (a @ c # b) c = (a, b, True)"
  by (induction a) auto

lemma strings_Cut_none: "c \<notin> set a \<Longrightarrow> strings_Cut a c = (a, [], False)"
  by (induction a) auto

lemma separated_inj:
  fixes c :: char
  assumes "a @ c # b = a' @ c # b'" "c \<notin> set a" "c \<notin> set a'"
  shows "a = a' \<and> b = b'"
proof -
  have "strings_Cut (a @ c # b) c = strings_Cut (a' @ c # b') c" using assms(1) by simp
  with assms(2,3) show ?thesis by (simp add: strings_Cut_append)
qed

text \<open>The same from the right: the last fields have no separator.\<close>

lemma separated_inj_right:
  fixes c :: char
  assumes "a @ c # b = a' @ c # b'" "c \<notin> set b" "c \<notin> set b'"
  shows "a = a' \<and> b = b'"
proof -
  have "rev b @ c # rev a = rev b' @ c # rev a'"
    using arg_cong [OF assms(1), of rev] by simp
  with assms(2,3) have "rev b = rev b' \<and> rev a = rev a'"
    by (intro separated_inj) auto
  then show ?thesis by simp
qed

lemma char_of_nat_inj: "a < 256 \<Longrightarrow> b < 256 \<Longrightarrow> char_of (a :: nat) = char_of b \<Longrightarrow> a = b"
  by (metis of_char_of mod_less)

text \<open>The four-byte length prefix determines its number below \<open>2 ^ 32\<close>.\<close>

lemma length_be32 [simp]: "length (be32 n) = 4"
  by (simp add: be32_def)

lemma nat_split_bytes:
  fixes k :: nat
  assumes "k < 2 ^ 32"
  shows "k = k div 256 ^ 3 mod 256 * 16777216 + k div 256 ^ 2 mod 256 * 65536
           + k div 256 ^ 1 mod 256 * 256 + k div 256 ^ 0 mod 256"
proof -
  have nest: "k div 256 ^ 2 = k div 256 div 256" "k div 256 ^ 3 = k div 256 div 256 div 256"
    by (simp_all add: div_mult2_eq [symmetric])
  have "k div 256 div 256 div 256 < 256" using assms by (simp add: div_mult2_eq [symmetric])
  then have "k div 256 div 256 div 256 mod 256 = k div 256 div 256 div 256" by simp
  moreover have "k = k div 256 * 256 + k mod 256" "k div 256 = k div 256 div 256 * 256 + k div 256 mod 256"
    "k div 256 div 256 = k div 256 div 256 div 256 * 256 + k div 256 div 256 mod 256"
    by (rule div_mult_mod_eq [symmetric])+
  ultimately show ?thesis unfolding nest power_one_right power_0 div_by_1 by linarith
qed

lemma be32_inj:
  assumes "be32 m = be32 n" "m < 2 ^ 32" "n < 2 ^ 32"
  shows "m = n"
proof -
  have byte: "char_of (a mod 256 :: nat) = char_of (b mod 256) \<Longrightarrow> a mod 256 = b mod 256" for a b
    by (rule char_of_nat_inj) simp_all
  have "m div 256 ^ 3 mod 256 = n div 256 ^ 3 mod 256"
    and "m div 256 ^ 2 mod 256 = n div 256 ^ 2 mod 256"
    and "m div 256 ^ 1 mod 256 = n div 256 ^ 1 mod 256"
    and "m div 256 ^ 0 mod 256 = n div 256 ^ 0 mod 256"
    using assms(1) unfolding be32_def list.map list.inject by (blast intro: byte)+
  then show ?thesis
    using nat_split_bytes [OF assms(2)] nat_split_bytes [OF assms(3)] by metis
qed

lemma prefixed_inj:
  assumes "be32 (length a) @ a @ x = be32 (length b) @ b @ y"
    and "length a < 2 ^ 32" "length b < 2 ^ 32"
  shows "a = b \<and> x = y"
proof -
  have "be32 (length a) = be32 (length b)" and rest: "a @ x = b @ y"
    using assms(1) by (simp_all add: append_eq_append_conv)
  then have "length a = length b" using assms(2,3) by (blast intro: be32_inj)
  with rest show ?thesis by simp
qed

lemma hex_digit_inj: "a < 16 \<Longrightarrow> b < 16 \<Longrightarrow> hex_digit a = hex_digit b \<Longrightarrow> a = b"
  by (auto simp: hex_digit_def split: if_splits dest!: char_of_nat_inj [rotated -1])

lemma hex_byte_inj: "hex_byte c = hex_byte d \<Longrightarrow> c = d"
proof -
  assume "hex_byte c = hex_byte d"
  then have "(of_char c :: nat) div 16 = of_char d div 16"
    and "(of_char c :: nat) mod 16 = of_char d mod 16"
    by (auto simp: hex_byte_def dest!: hex_digit_inj [rotated -1] intro: less_mult_imp_div_less)
  then have "(of_char c :: nat) = of_char d"
    by (metis div_mod_decomp)
  then show "c = d" by simp
qed

lemma hex_EncodeToString_inj: "hex_EncodeToString a = hex_EncodeToString b \<Longrightarrow> a = b"
proof (induction a arbitrary: b)
  case Nil
  then show ?case by (cases b) (auto simp: hex_EncodeToString_def hex_byte_def)
next
  case (Cons x xs)
  then obtain y ys where "b = y # ys"
    by (cases b) (auto simp: hex_EncodeToString_def hex_byte_def)
  with Cons show ?case
    by (auto simp: hex_EncodeToString_def hex_byte_def dest!: hex_byte_inj [unfolded hex_byte_def, simplified])
qed

lemma length_hex_EncodeToString [simp]: "length (hex_EncodeToString a) = 2 * length a"
  by (induction a) (auto simp: hex_EncodeToString_def hex_byte_def)

end
