(* ===== verification/Money.thy ===== *)
theory Money
  imports Prelude
begin

text \<open>
  \<open>internal/domain/money.go\<close>: currencies and amounts. An \<open>Amount\<close> wraps an \<open>apd.Decimal\<close>;
  the decimal package is third-party code, so its operations are the fields of the record
  \<open>apd\<close>, an argument of every definition that calls it, and its documented behaviour is the
  locale \<open>apd_lib\<close>. \<open>apd_ref\<close>, decimal arithmetic at the precision of \<open>ledgerCtx\<close>, is an
  instance of it.
\<close>

section \<open>Data\<close>

type_synonym Currency = string

text \<open>The fields of \<open>apd.Decimal\<close>; \<open>Coeff\<close> is the magnitude.\<close>

datatype form = Finite | Infinite | NaNSignaling | NaN

record decimal =
  Form :: form
  Negative :: bool
  Exponent :: int
  Coeff :: nat

type_synonym Amount = decimal

datatype rounding = RoundHalfEven

record apd_Context =
  Precision :: nat
  Rounding :: rounding
  MaxExponent :: int
  MinExponent :: int

text \<open>What the service calls of \<open>github.com/cockroachdb/apd/v3\<close>. An operation with a target
  pointer returns the value it stores there.\<close>

record apd =
  apd_SetString :: "string \<Rightarrow> decimal result"
  apd_SetInt64 :: "int \<Rightarrow> decimal"
  apd_Quantize :: "apd_Context \<Rightarrow> decimal \<Rightarrow> int \<Rightarrow> decimal \<times> go_error option"
  apd_Add :: "apd_Context \<Rightarrow> decimal \<Rightarrow> decimal \<Rightarrow> decimal \<times> go_error option"
  apd_Neg :: "decimal \<Rightarrow> decimal"
  apd_Sign :: "decimal \<Rightarrow> int"
  apd_IsZero :: "decimal \<Rightarrow> bool"
  apd_String :: "decimal \<Rightarrow> string"

section \<open>Operations\<close>

definition Currency_Valid :: "Currency \<Rightarrow> bool" where
  "Currency_Valid c =
     (if length c \<noteq> 3 then False
      else list_all (\<lambda>i. let ch = c ! i in \<not> (ch < CHR ''A'' \<or> ch > CHR ''Z'')) [0..<3])"

definition ledgerCtx :: apd_Context where
  "ledgerCtx = \<lparr>Precision = 22, Rounding = RoundHalfEven, MaxExponent = 1000, MinExponent = -1000\<rparr>"

definition ZeroAmount :: Amount where
  "ZeroAmount = \<lparr>Form = Finite, Negative = False, Exponent = 0, Coeff = 0\<rparr>"

definition LedgerScale :: int where
  "LedgerScale = -4"

definition NewAmount :: "apd \<Rightarrow> string \<Rightarrow> Amount result" where
  "NewAmount A s =
     (case apd_SetString A s of
        Inl err \<Rightarrow> Inl (Errorf [Lit ''amount: parse '', Q s, Lit '': '', W err])
      | Inr d \<Rightarrow>
          if Form d \<noteq> Finite then
            Inl (Errorf [Lit ''amount: '', Q s, Lit '' is not a finite number''])
          else if Exponent d < LedgerScale then
            Inl (Errorf [Lit ''amount: '', Q s, Lit '' has more than 4 fractional digits''])
          else case apd_Quantize A ledgerCtx d LedgerScale of
            (d', Some err) \<Rightarrow> Inl (Errorf [Lit ''amount: quantize '', Q s, Lit '': '', W err])
          | (d', None) \<Rightarrow> Inr d')"

definition NewAmountFromInt :: "apd \<Rightarrow> int \<Rightarrow> Amount" where
  "NewAmountFromInt A n = fst (apd_Quantize A ledgerCtx (apd_SetInt64 A n) LedgerScale)"

definition Amount_IsZero :: "apd \<Rightarrow> Amount \<Rightarrow> bool" where
  "Amount_IsZero A a = apd_IsZero A a"

definition Amount_IsNegative :: "apd \<Rightarrow> Amount \<Rightarrow> bool" where
  "Amount_IsNegative A a = (apd_Sign A a < 0)"

definition Amount_IsPositive :: "apd \<Rightarrow> Amount \<Rightarrow> bool" where
  "Amount_IsPositive A a = (apd_Sign A a > 0)"

definition Amount_String :: "apd \<Rightarrow> Amount \<Rightarrow> string" where
  "Amount_String A a = apd_String A a"

definition Amount_Neg :: "apd \<Rightarrow> Amount \<Rightarrow> Amount" where
  "Amount_Neg A a = apd_Neg A a"

definition Amount_Add :: "apd \<Rightarrow> Amount \<Rightarrow> Amount \<Rightarrow> Amount" where
  "Amount_Add A a b =
     (let out = fst (apd_Add A ledgerCtx a b)
      in fst (apd_Quantize A ledgerCtx out LedgerScale))"

definition Amount_Value :: "apd \<Rightarrow> Amount \<Rightarrow> string" where
  "Amount_Value A a = apd_String A a"

text \<open>The dynamic type of the value the SQL driver hands to \<open>Scan\<close>; \<open>SrcOther\<close> carries the
  name of any other type.\<close>

datatype scan_src = SrcNil | SrcString string | SrcBytes bytes | SrcOther string

definition Amount_Scan :: "apd \<Rightarrow> scan_src \<Rightarrow> Amount result" where
  "Amount_Scan A src =
     (let scan = (\<lambda>s. case apd_SetString A s of
                        Inl err \<Rightarrow> Inl (Errorf [Lit ''amount: scan '', Q s, Lit '': '', W err])
                      | Inr d \<Rightarrow> Inr d)
      in case src of
           SrcNil \<Rightarrow> Inr ZeroAmount
         | SrcString s \<Rightarrow> scan s
         | SrcBytes s \<Rightarrow> scan s
         | SrcOther t \<Rightarrow> Inl (Errorf [Lit ''amount: cannot scan from '', Lit t]))"

definition SumAmounts :: "apd \<Rightarrow> Amount list \<Rightarrow> Amount" where
  "SumAmounts A amounts = foldl (\<lambda>total a. fst (apd_Add A ledgerCtx total a)) ZeroAmount amounts"

section \<open>Numerals and values\<close>

definition is_digit :: "char \<Rightarrow> bool" where
  "is_digit c \<longleftrightarrow> 48 \<le> (of_char c :: nat) \<and> (of_char c :: nat) \<le> 57"

definition digits_val :: "string \<Rightarrow> nat" where
  "digits_val ds = foldl (\<lambda>a c. 10 * a + (of_char c - 48)) 0 ds"

text \<open>\<open>[-]ip[.fp]\<close>, the decimal-as-string of the wire format.\<close>

definition numeral_text :: "bool \<Rightarrow> string \<Rightarrow> string \<Rightarrow> string" where
  "numeral_text neg ip fp =
     (if neg then ''-'' else []) @ ip @ (if fp = [] then [] else CHR ''.'' # fp)"

definition is_numeral :: "string \<Rightarrow> string \<Rightarrow> bool" where
  "is_numeral ip fp \<longleftrightarrow> ip \<noteq> [] \<and> list_all is_digit ip \<and> list_all is_digit fp"

text \<open>Four digits, and the plain notation of a coefficient at exponent \<open>-4\<close>.\<close>

definition digits4 :: "nat \<Rightarrow> string" where
  "digits4 n = [digit_char (n div 1000 mod 10), digit_char (n div 100 mod 10),
                digit_char (n div 10 mod 10), digit_char (n mod 10)]"

definition dec4_text :: "bool \<Rightarrow> nat \<Rightarrow> string" where
  "dec4_text neg n = numeral_text neg (nat_digits (n div 10000)) (digits4 (n mod 10000))"

definition dval :: "decimal \<Rightarrow> int" where
  "dval d = (if Negative d then - int (Coeff d) else int (Coeff d))"

text \<open>An amount at the ledger's scale, and its value in units of \<open>10 ^ -4\<close>.\<close>

definition at_scale :: "Amount \<Rightarrow> bool" where
  "at_scale a \<longleftrightarrow> Form a = Finite \<and> Exponent a = LedgerScale \<and> Coeff a < 10 ^ 22"

definition units :: "Amount \<Rightarrow> int" where
  "units a = dval a * 10 ^ nat (Exponent a - LedgerScale)"

section \<open>The contract of the decimal package\<close>

text \<open>
  Documented behaviour of apd for the calls above: plain numerals parse exactly; the value, sign
  and text of a finite decimal; \<open>Quantize\<close> rescales exactly, or is an invalid operation (a NaN,
  and no error because \<open>ledgerCtx\<close> traps nothing) when the coefficient exceeds the precision;
  \<open>Add\<close> is exact up to the precision and otherwise rounds to 22 digits, which raises the
  exponent; NaN and infinities propagate.
\<close>

locale apd_lib =
  fixes A :: apd
  assumes SetString_numeral:
    "is_numeral ip fp \<Longrightarrow> apd_SetString A (numeral_text neg ip fp) =
       Inr \<lparr>Form = Finite, Negative = neg, Exponent = - int (length fp), Coeff = digits_val (ip @ fp)\<rparr>"
  and SetInt64: "apd_SetInt64 A n =
       \<lparr>Form = Finite, Negative = n < 0, Exponent = 0, Coeff = nat \<bar>n\<bar>\<rparr>"
  and Quantize_exact:
    "Form d = Finite \<Longrightarrow> LedgerScale \<le> Exponent d \<Longrightarrow>
     Coeff d * 10 ^ nat (Exponent d - LedgerScale) < 10 ^ Precision ledgerCtx \<Longrightarrow>
     apd_Quantize A ledgerCtx d LedgerScale =
       (\<lparr>Form = Finite, Negative = Negative d, Exponent = LedgerScale,
         Coeff = Coeff d * 10 ^ nat (Exponent d - LedgerScale)\<rparr>, None)"
  and Quantize_invalid:
    "Form d = Finite \<Longrightarrow> LedgerScale \<le> Exponent d \<Longrightarrow>
     10 ^ Precision ledgerCtx \<le> Coeff d * 10 ^ nat (Exponent d - LedgerScale) \<Longrightarrow>
     \<exists>d'. apd_Quantize A ledgerCtx d LedgerScale = (d', None) \<and> Form d' = NaN"
  and Quantize_special:
    "Form d \<noteq> Finite \<Longrightarrow> Form (fst (apd_Quantize A ledgerCtx d LedgerScale)) \<noteq> Finite"
  and Add_exact:
    "Form a = Finite \<Longrightarrow> Form b = Finite \<Longrightarrow> Exponent a \<in> {LedgerScale..0} \<Longrightarrow>
     Exponent b \<in> {LedgerScale..0} \<Longrightarrow> e = min (Exponent a) (Exponent b) \<Longrightarrow>
     s = dval a * 10 ^ nat (Exponent a - e) + dval b * 10 ^ nat (Exponent b - e) \<Longrightarrow>
     \<bar>s\<bar> < 10 ^ Precision ledgerCtx \<Longrightarrow>
     \<exists>d. apd_Add A ledgerCtx a b = (d, None) \<and> Form d = Finite \<and> Exponent d = e \<and> dval d = s"
  and Add_rounds:
    "Form a = Finite \<Longrightarrow> Form b = Finite \<Longrightarrow> Exponent a \<in> {LedgerScale..0} \<Longrightarrow>
     Exponent b \<in> {LedgerScale..0} \<Longrightarrow> e = min (Exponent a) (Exponent b) \<Longrightarrow>
     s = dval a * 10 ^ nat (Exponent a - e) + dval b * 10 ^ nat (Exponent b - e) \<Longrightarrow>
     10 ^ Precision ledgerCtx \<le> \<bar>s\<bar> \<Longrightarrow>
     \<exists>d. apd_Add A ledgerCtx a b = (d, None) \<and> Form d = Finite \<and> e < Exponent d
       \<and> 10 ^ (Precision ledgerCtx - 1) \<le> Coeff d"
  and Add_special:
    "Form a \<noteq> Finite \<or> Form b \<noteq> Finite \<Longrightarrow> Form (fst (apd_Add A ledgerCtx a b)) \<noteq> Finite"
  and Neg_fields: "Form (apd_Neg A a) = Form a" "Exponent (apd_Neg A a) = Exponent a"
    "Coeff (apd_Neg A a) = Coeff a"
  and Neg_value: "Form a = Finite \<Longrightarrow> dval (apd_Neg A a) = - dval a"
  and Sign_finite: "Form a = Finite \<Longrightarrow> apd_Sign A a = sgn (dval a)"
  and Sign_special: "Form a \<noteq> Finite \<Longrightarrow> apd_Sign A a = (if Negative a then -1 else 1)"
  and IsZero_Sign: "apd_IsZero A a \<longleftrightarrow> apd_Sign A a = 0"
  and String_scale: "Form a = Finite \<Longrightarrow> Exponent a = LedgerScale \<Longrightarrow>
     apd_String A a = dec4_text (Negative a) (Coeff a)"

section \<open>Lemmas on numerals\<close>

lemma of_char_digit_char: "d < 10 \<Longrightarrow> (of_char (digit_char d) :: nat) = 48 + d"
  by (simp add: digit_char_def)

lemma is_digit_digit_char [simp]: "d < 10 \<Longrightarrow> is_digit (digit_char d)"
  by (simp add: is_digit_def of_char_digit_char)

lemma digits_val_Nil [simp]: "digits_val [] = 0"
  by (simp add: digits_val_def)

lemma digits_val_snoc [simp]: "digits_val (ds @ [c]) = 10 * digits_val ds + (of_char c - 48)"
  by (simp add: digits_val_def)

lemma digits_val_append: "digits_val (a @ b) = digits_val a * 10 ^ length b + digits_val b"
proof (induction b rule: rev_induct)
  case (snoc x xs)
  then show ?case using digits_val_snoc [of "a @ xs" x] by (simp add: algebra_simps)
qed simp

lemma digits_val_nat_digits [simp]: "digits_val (nat_digits n) = n"
proof (induction n rule: nat_digits.induct)
  case (1 n)
  show ?case
  proof (cases "n < 10")
    case True
    then show ?thesis
      using digits_val_snoc [of "[]"] by (subst nat_digits.simps) (simp add: of_char_digit_char)
  next
    case False
    with 1 show ?thesis by (subst nat_digits.simps) (simp add: of_char_digit_char)
  qed
qed

lemma nat_digits_digits [simp]: "list_all is_digit (nat_digits n)"
proof (induction n rule: nat_digits.induct)
  case (1 n)
  then show ?case by (subst nat_digits.simps) auto
qed

lemma nat_digits_nonempty [simp]: "nat_digits n \<noteq> []"
  by (subst nat_digits.simps) simp

lemma length_digits4 [simp]: "length (digits4 n) = 4"
  by (simp add: digits4_def)

lemma digits4_digits [simp]: "list_all is_digit (digits4 n)"
  by (simp add: digits4_def)

lemma digits4_nonempty [simp]: "digits4 n \<noteq> []"
  by (simp add: digits4_def)

lemma digits_val_digits4: "n < 10000 \<Longrightarrow> digits_val (digits4 n) = n"
proof -
  assume n: "n < 10000"
  have horner: "x = a * 10 + r0 \<Longrightarrow> a = b * 10 + r1 \<Longrightarrow> b = c * 10 + r2 \<Longrightarrow>
      1000 * c + 100 * r2 + 10 * r1 + r0 = x" for x a b c r0 r1 r2 :: nat
    by simp
  have nest: "n div 10 div 10 = n div 100" "n div 100 div 10 = n div 1000"
    by (simp_all only: div_mult2_eq [symmetric]) simp_all
  have "1000 * (n div 1000) + 100 * (n div 100 mod 10) + 10 * (n div 10 mod 10) + n mod 10 = n"
    by (rule horner [of _ "n div 10" _ "n div 100"]; metis nest div_mult_mod_eq)
  moreover have "n div 1000 mod 10 = n div 1000" "n div 1000 < 10" using n by simp_all
  ultimately show ?thesis
    unfolding digits4_def digits_val_def by (simp add: of_char_digit_char)
qed

lemma digits_val_dec4 [simp]:
  "digits_val (nat_digits (n div 10000) @ digits4 (n mod 10000)) = n"
  by (simp add: digits_val_append digits_val_digits4)

lemma is_numeral_dec4 [simp]: "is_numeral (nat_digits (n div 10000)) (digits4 (n mod 10000))"
  by (simp add: is_numeral_def)

section \<open>Amounts over the decimal package\<close>

definition scaled :: "Amount \<Rightarrow> bool" where
  "scaled a \<longleftrightarrow> Form a = Finite \<and> LedgerScale \<le> Exponent a \<and> Exponent a \<le> 0"

lemma at_scale_scaled: "at_scale a \<Longrightarrow> scaled a"
  by (simp add: at_scale_def scaled_def LedgerScale_def)

lemma ZeroAmount_scaled [simp]: "scaled ZeroAmount" "units ZeroAmount = 0"
  by (simp_all add: scaled_def ZeroAmount_def LedgerScale_def units_def dval_def)

lemma units_at_scale: "at_scale a \<Longrightarrow> units a = dval a"
  by (simp add: at_scale_def units_def)

lemma abs_dval: "\<bar>dval d\<bar> = int (Coeff d)"
  by (simp add: dval_def)

lemma Precision_ledgerCtx [simp]: "Precision ledgerCtx = 22"
  by (simp add: ledgerCtx_def)

context apd_lib
begin

text \<open>The sum of two amounts brought to the smaller exponent.\<close>

lemma aligned_sum:
  fixes e :: int
  assumes "e \<le> Exponent a" "e \<le> Exponent b" "LedgerScale \<le> e"
  shows "(dval a * 10 ^ nat (Exponent a - e) + dval b * 10 ^ nat (Exponent b - e))
           * 10 ^ nat (e - LedgerScale) = units a + units b"
proof -
  have "nat (x - e) + nat (e - LedgerScale) = nat (x - LedgerScale)" if "e \<le> x" for x
    using that assms(3) by simp
  then show ?thesis
    using assms(1,2) by (simp add: units_def distrib_right mult.assoc power_add [symmetric])
qed

lemma abs_scaled_coeff:
  "int (Coeff d * 10 ^ nat k) = \<bar>dval d * 10 ^ nat k\<bar>"
  by (simp add: abs_mult abs_dval)

lemma Amount_Add_exact:
  assumes "scaled a" "scaled b" and lim: "\<bar>units a + units b\<bar> < 10 ^ 22"
  shows "at_scale (Amount_Add A a b) \<and> units (Amount_Add A a b) = units a + units b"
proof -
  define e where "e = min (Exponent a) (Exponent b)"
  define s where "s = dval a * 10 ^ nat (Exponent a - e) + dval b * 10 ^ nat (Exponent b - e)"
  have e: "e \<le> Exponent a" "e \<le> Exponent b" "LedgerScale \<le> e"
    using assms(1,2) by (auto simp: e_def scaled_def)
  have su: "s * 10 ^ nat (e - LedgerScale) = units a + units b"
    unfolding s_def using e by (rule aligned_sum)
  have "\<bar>s\<bar> * 1 \<le> \<bar>s\<bar> * 10 ^ nat (e - LedgerScale)" by (intro mult_left_mono) auto
  also have "\<dots> = \<bar>units a + units b\<bar>" by (simp add: su [symmetric] abs_mult)
  finally have "\<bar>s\<bar> < 10 ^ Precision ledgerCtx" using lim by simp
  from Add_exact [OF _ _ _ _ e_def s_def this] assms(1,2)
  obtain d where d: "apd_Add A ledgerCtx a b = (d, None)" "Form d = Finite" "Exponent d = e" "dval d = s"
    by (auto simp: scaled_def)
  have c: "int (Coeff d * 10 ^ nat (e - LedgerScale)) = \<bar>units a + units b\<bar>"
    by (simp only: abs_scaled_coeff d(4) su)
  have "int (Coeff d * 10 ^ nat (e - LedgerScale)) < int (10 ^ 22)" using c lim by simp
  then have small: "Coeff d * 10 ^ nat (Exponent d - LedgerScale) < 10 ^ Precision ledgerCtx"
    unfolding d(3) of_nat_less_iff by simp
  from Quantize_exact [OF d(2) _ small] e d
  have r: "Amount_Add A a b = \<lparr>Form = Finite, Negative = Negative d, Exponent = LedgerScale,
      Coeff = Coeff d * 10 ^ nat (e - LedgerScale)\<rparr>"
    by (simp add: Amount_Add_def)
  have "at_scale (Amount_Add A a b)" using small by (simp add: r at_scale_def d(3))
  moreover have "units (Amount_Add A a b) = dval d * 10 ^ nat (e - LedgerScale)"
    by (simp add: r units_def) (simp add: dval_def)
  ultimately show ?thesis by (simp add: d(4) su)
qed

lemma Amount_Add_overflow:
  assumes "scaled a" "scaled b" and lim: "10 ^ 22 \<le> \<bar>units a + units b\<bar>"
  shows "Form (Amount_Add A a b) \<noteq> Finite"
proof -
  define e where "e = min (Exponent a) (Exponent b)"
  define s where "s = dval a * 10 ^ nat (Exponent a - e) + dval b * 10 ^ nat (Exponent b - e)"
  have e: "e \<le> Exponent a" "e \<le> Exponent b" "LedgerScale \<le> e"
    using assms(1,2) by (auto simp: e_def scaled_def)
  have su: "s * 10 ^ nat (e - LedgerScale) = units a + units b"
    unfolding s_def using e by (rule aligned_sum)
  have "\<exists>d. apd_Add A ledgerCtx a b = (d, None) \<and> Form d = Finite \<and> LedgerScale \<le> Exponent d
    \<and> 10 ^ 22 \<le> Coeff d * 10 ^ nat (Exponent d - LedgerScale)"
  proof (cases "\<bar>s\<bar> < 10 ^ Precision ledgerCtx")
    case True
    from Add_exact [OF _ _ _ _ e_def s_def this] assms(1,2)
    obtain d where d: "apd_Add A ledgerCtx a b = (d, None)" "Form d = Finite" "Exponent d = e" "dval d = s"
      by (auto simp: scaled_def)
    have "int (Coeff d * 10 ^ nat (e - LedgerScale)) = \<bar>units a + units b\<bar>"
      by (simp only: abs_scaled_coeff d(4) su)
    with lim have "int (10 ^ 22) \<le> int (Coeff d * 10 ^ nat (e - LedgerScale))" by simp
    with d e(3) show ?thesis unfolding of_nat_le_iff by auto
  next
    case False
    then have "10 ^ Precision ledgerCtx \<le> \<bar>s\<bar>" by simp
    from Add_rounds [OF _ _ _ _ e_def s_def this] assms(1,2)
    obtain d where d: "apd_Add A ledgerCtx a b = (d, None)" "Form d = Finite" "e < Exponent d"
        "10 ^ 21 \<le> Coeff d"
      by (auto simp: scaled_def)
    have "(10::nat) ^ 21 * 10 ^ 1 \<le> Coeff d * 10 ^ nat (Exponent d - LedgerScale)"
      using d(3,4) e(3) by (intro mult_le_mono power_increasing) auto
    with d e(3) show ?thesis by auto
  qed
  then obtain d where d: "apd_Add A ledgerCtx a b = (d, None)" "Form d = Finite"
    "LedgerScale \<le> Exponent d" "10 ^ 22 \<le> Coeff d * 10 ^ nat (Exponent d - LedgerScale)"
    by blast
  then obtain d' where "apd_Quantize A ledgerCtx d LedgerScale = (d', None)" "Form d' = NaN"
    using Quantize_invalid [of d] by auto
  with d show ?thesis by (simp add: Amount_Add_def)
qed

lemma Amount_Add_special:
  "Form a \<noteq> Finite \<or> Form b \<noteq> Finite \<Longrightarrow> Form (Amount_Add A a b) \<noteq> Finite"
  by (simp add: Amount_Add_def Quantize_special Add_special)

text \<open>Summing from zero with \<open>Amount.Add\<close>: a finite result is the exact sum, and the sum is
  finite while the magnitudes stay below \<open>10 ^ 22\<close> units.\<close>

lemma foldl_Add_special:
  "Form t \<noteq> Finite \<Longrightarrow> Form (foldl (Amount_Add A) t as) \<noteq> Finite"
  by (induction as arbitrary: t) (auto simp: Amount_Add_special)

lemma foldl_Add_exact:
  "scaled t \<Longrightarrow> list_all at_scale as \<Longrightarrow> Form (foldl (Amount_Add A) t as) = Finite \<Longrightarrow>
   scaled (foldl (Amount_Add A) t as)
     \<and> units (foldl (Amount_Add A) t as) = units t + sum_list (map units as)"
proof (induction as arbitrary: t)
  case (Cons a as)
  let ?t = "Amount_Add A t a"
  have sa: "scaled a" using Cons.prems(2) by (simp add: at_scale_scaled)
  have "Form ?t = Finite" using Cons.prems(3) foldl_Add_special [of ?t as] by auto
  then have "\<bar>units t + units a\<bar> < 10 ^ 22"
    using Amount_Add_overflow [OF Cons.prems(1) sa] by linarith
  from Amount_Add_exact [OF Cons.prems(1) sa this]
  have "scaled ?t" "units ?t = units t + units a" by (simp_all add: at_scale_scaled)
  with Cons.IH [of ?t] Cons.prems show ?case by simp
qed simp

lemma foldl_Add_finite:
  "scaled t \<Longrightarrow> list_all at_scale as \<Longrightarrow>
   \<bar>units t\<bar> + sum_list (map (\<lambda>a. \<bar>units a\<bar>) as) < 10 ^ 22 \<Longrightarrow>
   Form (foldl (Amount_Add A) t as) = Finite"
proof (induction as arbitrary: t)
  case (Cons a as)
  let ?t = "Amount_Add A t a"
  have "0 \<le> sum_list (map (\<lambda>a. \<bar>units a\<bar>) as)" by (rule sum_list_nonneg) auto
  with Cons.prems(3) have "\<bar>units t + units a\<bar> < 10 ^ 22" by simp
  from Amount_Add_exact [OF Cons.prems(1) _ this] Cons.prems(2)
  have "scaled ?t" "units ?t = units t + units a" by (simp_all add: at_scale_scaled)
  with Cons.IH [of ?t] Cons.prems show ?case by simp
qed (simp add: scaled_def)

lemma Neg_at_scale: "at_scale a \<Longrightarrow> at_scale (Amount_Neg A a)"
  by (simp add: Amount_Neg_def at_scale_def Neg_fields)

lemma units_Neg: "at_scale a \<Longrightarrow> units (Amount_Neg A a) = - units a"
  by (simp add: Amount_Neg_def at_scale_def units_def Neg_fields Neg_value)

lemma IsZero_units: "scaled a \<Longrightarrow> Amount_IsZero A a \<longleftrightarrow> units a = 0"
  by (simp add: Amount_IsZero_def IsZero_Sign Sign_finite scaled_def units_def sgn_0_0)

lemma IsZero_special: "Form a \<noteq> Finite \<Longrightarrow> \<not> Amount_IsZero A a"
  by (simp add: Amount_IsZero_def IsZero_Sign Sign_special)

lemma IsNegative_units: "at_scale a \<Longrightarrow> Amount_IsNegative A a \<longleftrightarrow> units a < 0"
  by (auto simp: Amount_IsNegative_def Sign_finite at_scale_def units_def sgn_if)

lemma String_at_scale: "at_scale a \<Longrightarrow> Amount_String A a = dec4_text (Negative a) (Coeff a)"
  by (simp add: Amount_String_def String_scale at_scale_def)

lemma SetString_dec4:
  "apd_SetString A (dec4_text neg n) =
     Inr \<lparr>Form = Finite, Negative = neg, Exponent = LedgerScale, Coeff = n\<rparr>"
  unfolding dec4_text_def by (simp add: SetString_numeral LedgerScale_def)

lemma Scan_Value: "at_scale a \<Longrightarrow> Amount_Scan A (SrcString (Amount_Value A a)) = Inr a"
  by (simp add: Amount_Scan_def Amount_Value_def String_scale SetString_dec4 at_scale_def)

lemma NewAmount_numeral:
  assumes "is_numeral ip fp" "length fp \<le> 4" "digits_val (ip @ fp) * 10 ^ (4 - length fp) < 10 ^ 22"
  shows "NewAmount A (numeral_text neg ip fp) =
    Inr \<lparr>Form = Finite, Negative = neg, Exponent = LedgerScale,
         Coeff = digits_val (ip @ fp) * 10 ^ (4 - length fp)\<rparr>"
proof -
  let ?d = "\<lparr>Form = Finite, Negative = neg, Exponent = - int (length fp), Coeff = digits_val (ip @ fp)\<rparr>"
  have e: "nat (- int (length fp) - LedgerScale) = 4 - length fp" "LedgerScale \<le> - int (length fp)"
    using assms(2) by (simp_all add: LedgerScale_def)
  with assms(3) have "apd_Quantize A ledgerCtx ?d LedgerScale =
      (\<lparr>Form = Finite, Negative = neg, Exponent = LedgerScale,
        Coeff = digits_val (ip @ fp) * 10 ^ (4 - length fp)\<rparr>, None)"
    using Quantize_exact [of ?d] by simp
  with assms(1) e show ?thesis by (simp add: NewAmount_def SetString_numeral)
qed

lemma NewAmount_dec4:
  assumes "n < 10 ^ 22"
  shows "NewAmount A (dec4_text neg n) =
    Inr \<lparr>Form = Finite, Negative = neg, Exponent = LedgerScale, Coeff = n\<rparr>"
  using NewAmount_numeral [OF is_numeral_dec4, of n neg] assms by (simp add: dec4_text_def)

lemma NewAmount_too_large:
  assumes "is_numeral ip fp" "length fp \<le> 4" "10 ^ 22 \<le> digits_val (ip @ fp) * 10 ^ (4 - length fp)"
  shows "\<exists>a. NewAmount A (numeral_text neg ip fp) = Inr a \<and> Form a = NaN"
proof -
  let ?d = "\<lparr>Form = Finite, Negative = neg, Exponent = - int (length fp), Coeff = digits_val (ip @ fp)\<rparr>"
  have "nat (- int (length fp) - LedgerScale) = 4 - length fp" by (simp add: LedgerScale_def)
  with assms obtain d' where "apd_Quantize A ledgerCtx ?d LedgerScale = (d', None)" "Form d' = NaN"
    using Quantize_invalid [of ?d] by (auto simp: LedgerScale_def)
  with assms show ?thesis by (simp add: NewAmount_def SetString_numeral LedgerScale_def)
qed

lemma NewAmount_precision:
  assumes "is_numeral ip fp" "4 < length fp"
  shows "\<exists>e. NewAmount A (numeral_text neg ip fp) = Inl e"
  using assms by (simp add: NewAmount_def SetString_numeral LedgerScale_def)

end

section \<open>A reference implementation of the decimal package\<close>

definition half_even :: "nat \<Rightarrow> nat \<Rightarrow> nat" where
  "half_even c m = (let q = c div m; r = c mod m
                    in if 2 * r < m \<or> (2 * r = m \<and> even q) then q else q + 1)"

definition ref_SetString :: "string \<Rightarrow> decimal result" where
  "ref_SetString s =
     (let (neg, r) = (case s of [] \<Rightarrow> (False, s) | c # r \<Rightarrow> if c = CHR ''-'' then (True, r) else (False, s));
          (ip, fp, dot) = strings_Cut r (CHR ''.'')
      in if ip \<noteq> [] \<and> list_all is_digit ip \<and> list_all is_digit fp \<and> (dot \<longrightarrow> fp \<noteq> [])
         then Inr \<lparr>Form = Finite, Negative = neg, Exponent = - int (length fp), Coeff = digits_val (ip @ fp)\<rparr>
         else Inl (Foreign ''parse mantissa''))"

definition ref_Quantize :: "apd_Context \<Rightarrow> decimal \<Rightarrow> int \<Rightarrow> decimal \<times> go_error option" where
  "ref_Quantize C d e =
     (if Form d \<noteq> Finite then (d, None)
      else let c = (if e \<le> Exponent d then Coeff d * 10 ^ nat (Exponent d - e)
                    else half_even (Coeff d) (10 ^ nat (e - Exponent d)))
           in if c < 10 ^ Precision C then (d\<lparr>Exponent := e, Coeff := c\<rparr>, None)
              else (\<lparr>Form = NaN, Negative = False, Exponent = 0, Coeff = 0\<rparr>, None))"

definition ref_Add :: "apd_Context \<Rightarrow> decimal \<Rightarrow> decimal \<Rightarrow> decimal \<times> go_error option" where
  "ref_Add C a b =
     (if Form a \<noteq> Finite then (a, None)
      else if Form b \<noteq> Finite then (b, None)
      else let e = min (Exponent a) (Exponent b);
               s = dval a * 10 ^ nat (Exponent a - e) + dval b * 10 ^ nat (Exponent b - e);
               c = nat \<bar>s\<bar>;
               k = length (nat_digits c) - Precision C
           in (\<lparr>Form = Finite, Negative = s < 0, Exponent = e + int k,
                 Coeff = if k = 0 then c else half_even c (10 ^ k)\<rparr>, None))"

definition ref_Sign :: "decimal \<Rightarrow> int" where
  "ref_Sign d = (if Form d = Finite \<and> Coeff d = 0 then 0 else if Negative d then -1 else 1)"

definition apd_ref :: apd where
  "apd_ref = \<lparr>
     apd_SetString = ref_SetString,
     apd_SetInt64 = (\<lambda>n. \<lparr>Form = Finite, Negative = n < 0, Exponent = 0, Coeff = nat \<bar>n\<bar>\<rparr>),
     apd_Quantize = ref_Quantize,
     apd_Add = ref_Add,
     apd_Neg = (\<lambda>d. if Form d = Finite \<and> Coeff d = 0 then d\<lparr>Negative := False\<rparr>
                    else d\<lparr>Negative := \<not> Negative d\<rparr>),
     apd_Sign = ref_Sign,
     apd_IsZero = (\<lambda>d. ref_Sign d = 0),
     apd_String = (\<lambda>d. if Exponent d = -4 then dec4_text (Negative d) (Coeff d)
                       else numeral_text (Negative d) (nat_digits (Coeff d)) []
                            @ ''E'' @ FormatInt (Exponent d))\<rparr>"

lemma is_digit_neq [simp]: "is_digit c \<Longrightarrow> c \<noteq> CHR ''.''" "is_digit c \<Longrightarrow> c \<noteq> CHR ''-''"
  by (auto simp: is_digit_def)

lemma digits_no_dot: "list_all is_digit ds \<Longrightarrow> CHR ''.'' \<notin> set ds"
  by (auto simp: list_all_iff dest: is_digit_neq(1))

lemma ref_SetString_numeral:
  assumes "is_numeral ip fp"
  shows "ref_SetString (numeral_text neg ip fp) =
    Inr \<lparr>Form = Finite, Negative = neg, Exponent = - int (length fp), Coeff = digits_val (ip @ fp)\<rparr>"
proof -
  from assms obtain c cs where ip: "ip = c # cs" "is_digit c" "list_all is_digit ip" "list_all is_digit fp"
    by (cases ip) (auto simp: is_numeral_def)
  have "strings_Cut (ip @ (if fp = [] then [] else CHR ''.'' # fp)) (CHR ''.'') = (ip, fp, fp \<noteq> [])"
    using digits_no_dot [OF ip(3)] by (simp add: strings_Cut_append strings_Cut_none)
  with ip show ?thesis by (auto simp: ref_SetString_def numeral_text_def Let_def)
qed

lemma nat_digits_lower: "0 < n \<Longrightarrow> 10 ^ (length (nat_digits n) - 1) \<le> n"
proof (induction n rule: nat_digits.induct)
  case (1 n)
  show ?case
  proof (cases "n < 10")
    case False
    then have "10 ^ (length (nat_digits (n div 10)) - 1) * 10 \<le> n div 10 * 10"
      using 1 by simp
    also have "\<dots> \<le> n" by simp
    finally show ?thesis
      using False by (subst nat_digits.simps) (simp add: power_Suc2 [symmetric] del: power_Suc)
  qed (use 1 in \<open>simp add: nat_digits.simps [of n]\<close>)
qed

lemma nat_digits_upper: "n < 10 ^ length (nat_digits n)"
proof (induction n rule: nat_digits.induct)
  case (1 n)
  show ?case
  proof (cases "n < 10")
    case False
    with 1 have "n div 10 < 10 ^ length (nat_digits (n div 10))" by simp
    then have "n < 10 ^ length (nat_digits (n div 10)) * 10"
      by (simp add: less_mult_imp_div_less div_less_iff_less_mult)
    then show ?thesis using False by (subst nat_digits.simps) simp
  qed (simp add: nat_digits.simps [of n])
qed

lemma nat_digits_length_le:
  assumes "n < 10 ^ k" "0 < k"
  shows "length (nat_digits n) \<le> k"
proof (cases "n = 0")
  case False
  then have "10 ^ (length (nat_digits n) - 1) \<le> n" by (intro nat_digits_lower) simp
  from le_less_trans [OF this assms(1)] have "length (nat_digits n) - 1 < k"
    by (rule power_less_imp_less_exp [rotated]) simp
  then show ?thesis by simp
qed (use assms in \<open>simp add: nat_digits.simps [of 0]\<close>)

lemma half_even_lower: "c div m \<le> half_even c m"
  by (simp add: half_even_def Let_def)

lemma dval_sign: "(if s < 0 then - int (nat \<bar>s\<bar>) else int (nat \<bar>s\<bar>)) = s"
  by simp

lemma ref_Add_exact:
  assumes "Form a = Finite" "Form b = Finite" "e = min (Exponent a) (Exponent b)"
    "s = dval a * 10 ^ nat (Exponent a - e) + dval b * 10 ^ nat (Exponent b - e)" "\<bar>s\<bar> < 10 ^ 22"
  shows "ref_Add ledgerCtx a b =
    (\<lparr>Form = Finite, Negative = s < 0, Exponent = e, Coeff = nat \<bar>s\<bar>\<rparr>, None)"
proof -
  have "nat \<bar>s\<bar> < 10 ^ 22" using assms(5) by (simp add: nat_less_iff)
  then have "length (nat_digits (nat \<bar>s\<bar>)) \<le> 22" by (rule nat_digits_length_le) simp
  then show ?thesis using assms(1,2) unfolding ref_Add_def Let_def assms(3) [symmetric] assms(4) [symmetric]
    by simp
qed

lemma ref_Add_rounds:
  assumes "Form a = Finite" "Form b = Finite" "e = min (Exponent a) (Exponent b)"
    "s = dval a * 10 ^ nat (Exponent a - e) + dval b * 10 ^ nat (Exponent b - e)" "10 ^ 22 \<le> \<bar>s\<bar>"
  shows "\<exists>d. ref_Add ledgerCtx a b = (d, None) \<and> Form d = Finite \<and> e < Exponent d \<and> 10 ^ 21 \<le> Coeff d"
proof -
  let ?c = "nat \<bar>s\<bar>" let ?n = "length (nat_digits (nat \<bar>s\<bar>))"
  have c: "10 ^ 22 \<le> ?c" using assms(5) by (simp add: le_nat_iff)
  then have "(10::nat) ^ 22 < 10 ^ ?n" using nat_digits_upper [of ?c] by linarith
  then have n: "22 < ?n" by (simp only: power_strict_increasing_iff)
  then have "21 + (?n - 22) = ?n - 1" by simp
  then have "(10::nat) ^ 21 * 10 ^ (?n - 22) = 10 ^ (?n - 1)" by (simp only: power_add [symmetric])
  also have "\<dots> \<le> ?c" using c by (intro nat_digits_lower) simp
  finally have "(10::nat) ^ 21 * 10 ^ (?n - 22) \<le> ?c" .
  then have "10 ^ 21 \<le> ?c div 10 ^ (?n - 22)" by (simp add: less_eq_div_iff_mult_less_eq)
  with half_even_lower [of ?c "10 ^ (?n - 22)"] have "10 ^ 21 \<le> half_even ?c (10 ^ (?n - 22))"
    by (rule order_trans [rotated])
  with n show ?thesis
    using assms(1,2) unfolding ref_Add_def Let_def assms(3) [symmetric] assms(4) [symmetric] by simp
qed

interpretation ref: apd_lib apd_ref
proof (unfold_locales, goal_cases)
  case (1 ip fp neg)
  then show ?case by (simp add: apd_ref_def ref_SetString_numeral)
next
  case (6 a b e s)
  have lim: "\<bar>s\<bar> < 10 ^ 22" using 6(7) by simp
  show ?case by (simp add: apd_ref_def ref_Add_exact [OF 6(1,2,5,6) lim]) (simp add: dval_def)
next
  case (7 a b e s)
  have lim: "10 ^ 22 \<le> \<bar>s\<bar>" using 7(7) by simp
  show ?case using ref_Add_rounds [OF 7(1,2,5,6) lim] by (simp add: apd_ref_def)
qed (auto simp: apd_ref_def ref_Quantize_def ref_Add_def ref_Sign_def dval_def Let_def LedgerScale_def)

section \<open>Properties\<close>

text \<open>C19: a decimal string with at most four fractional digits and at most 22 digits at scale 4
  becomes the amount of exactly that value at scale 4; printing it and parsing the text again
  gives the same amount, and a value read back from the database is the one written.\<close>

theorem NewAmount_exact:
  assumes "apd_lib A" and "is_numeral ip fp" "length fp \<le> 4"
    and "digits_val (ip @ fp) * 10 ^ (4 - length fp) < 10 ^ 22"
  shows "\<exists>a. NewAmount A (numeral_text neg ip fp) = Inr a \<and> at_scale a
     \<and> units a = (if neg then -1 else 1) * int (digits_val (ip @ fp) * 10 ^ (4 - length fp))
     \<and> NewAmount A (Amount_String A a) = Inr a
     \<and> Amount_Scan A (SrcString (Amount_Value A a)) = Inr a"
proof -
  let ?c = "digits_val (ip @ fp) * 10 ^ (4 - length fp)"
  let ?a = "\<lparr>Form = Finite, Negative = neg, Exponent = LedgerScale, Coeff = ?c\<rparr>"
  have new: "NewAmount A (numeral_text neg ip fp) = Inr ?a"
    using apd_lib.NewAmount_numeral [OF assms] .
  have at: "at_scale ?a" using assms(4) by (simp add: at_scale_def)
  have "NewAmount A (Amount_String A ?a) = Inr ?a"
    using apd_lib.NewAmount_dec4 [OF assms(1,4)] apd_lib.String_at_scale [OF assms(1) at] by simp
  with new at apd_lib.Scan_Value [OF assms(1) at] show ?thesis
    by (intro exI [of _ ?a]) (simp add: units_at_scale dval_def)
qed

lemma dec_1250: "numeral_text True ''12'' ''50'' = ''-12.50''"
  by (simp add: numeral_text_def)

lemma is_numeral_1250 [simp]: "is_numeral ''12'' ''50''" "digits_val ''1250'' = 1250"
  by (simp_all add: is_numeral_def is_digit_def digits_val_def)

theorem NewAmount_exact_witness:
  "\<exists>a. NewAmount apd_ref ''-12.50'' = Inr a \<and> at_scale a \<and> units a = - 125000
     \<and> NewAmount apd_ref (Amount_String apd_ref a) = Inr a
     \<and> Amount_Scan apd_ref (SrcString (Amount_Value apd_ref a)) = Inr a"
  using NewAmount_exact [OF ref.apd_lib_axioms, of "''12''" "''50''" True]
  by (simp add: dec_1250)

text \<open>C20: the limits of \<open>NewAmount\<close>. More than four fractional digits are refused, never rounded.
  A numeral whose value at scale 4 needs more than 22 digits is not refused: the quantize call
  is an invalid operation of a context that traps nothing, so the result is a NaN amount with a
  nil error, and a NaN is absorbing under \<open>Amount.Add\<close> and never zero.\<close>

theorem NewAmount_limits:
  assumes "apd_lib A" and "is_numeral ip fp"
  shows "(4 < length fp \<longrightarrow> (\<exists>e. NewAmount A (numeral_text neg ip fp) = Inl e))
    \<and> (length fp \<le> 4 \<and> 10 ^ 22 \<le> digits_val (ip @ fp) * 10 ^ (4 - length fp) \<longrightarrow>
        (\<exists>a. NewAmount A (numeral_text neg ip fp) = Inr a \<and> Form a = NaN \<and> \<not> Amount_IsZero A a
           \<and> (\<forall>b. Form (Amount_Add A a b) \<noteq> Finite \<and> Form (Amount_Add A b a) \<noteq> Finite)))"
proof (intro conjI impI)
  assume "4 < length fp"
  with apd_lib.NewAmount_precision [OF assms] show "\<exists>e. NewAmount A (numeral_text neg ip fp) = Inl e" .
next
  assume big: "length fp \<le> 4 \<and> 10 ^ 22 \<le> digits_val (ip @ fp) * 10 ^ (4 - length fp)"
  then obtain a where "NewAmount A (numeral_text neg ip fp) = Inr a" "Form a = NaN"
    using apd_lib.NewAmount_too_large [OF assms] by blast
  then show "\<exists>a. NewAmount A (numeral_text neg ip fp) = Inr a \<and> Form a = NaN \<and> \<not> Amount_IsZero A a
     \<and> (\<forall>b. Form (Amount_Add A a b) \<noteq> Finite \<and> Form (Amount_Add A b a) \<noteq> Finite)"
    by (intro exI [of _ a])
      (simp add: apd_lib.IsZero_special [OF assms(1)] apd_lib.Amount_Add_special [OF assms(1)])
qed

lemma is_numeral_1e18 [simp]: "is_numeral ''1000000000000000000'' []"
  "digits_val ''1000000000000000000'' = 10 ^ 18"
  by (simp_all add: is_numeral_def is_digit_def digits_val_def)

theorem NewAmount_limits_witness:
  "(\<exists>e. NewAmount apd_ref ''12.12345'' = Inl e)
   \<and> (\<exists>a. NewAmount apd_ref ''1000000000000000000'' = Inr a \<and> Form a = NaN)"
proof -
  have "numeral_text False ''12'' ''12345'' = ''12.12345''"
    "numeral_text False ''1000000000000000000'' [] = ''1000000000000000000''"
    "is_numeral ''12'' ''12345''"
    by (simp_all add: numeral_text_def is_numeral_def is_digit_def)
  then show ?thesis
    using NewAmount_limits [OF ref.apd_lib_axioms, of "''12''" "''12345''" False]
      NewAmount_limits [OF ref.apd_lib_axioms, of "''1000000000000000000''" "[]" False]
    by auto
qed

end
