(* ===== verification/Domain.thy ===== *)
theory Domain
  imports Money
begin

text \<open>
  The rest of \<open>internal/domain\<close>: accounts, journal entries, transactions, outbox and audit
  events, the port types of \<open>repository.go\<close>, their constructors with every validation branch,
  and the double-entry check \<open>AssertBalanced\<close>. The string-typed enumerations of the source stay
  strings, so that a value outside the declared constants is representable, as it is in Go. The
  sentinels of \<open>errors.go\<close> are constructors of \<open>sentinel\<close> in \<open>Prelude\<close>.
\<close>

section \<open>Accounts\<close>

type_synonym AccountStatus = string

definition AccountStatusActive :: AccountStatus where "AccountStatusActive = ''ACTIVE''"
definition AccountStatusFrozen :: AccountStatus where "AccountStatusFrozen = ''FROZEN''"
definition AccountStatusClosed :: AccountStatus where "AccountStatusClosed = ''CLOSED''"

definition AccountStatus_Valid :: "AccountStatus \<Rightarrow> bool" where
  "AccountStatus_Valid s \<longleftrightarrow>
     s = AccountStatusActive \<or> s = AccountStatusFrozen \<or> s = AccountStatusClosed"

record Account =
  acc_ID :: UUID
  acc_TenantID :: string
  acc_Currency :: Currency
  acc_Status :: AccountStatus
  acc_CreatedAt :: instant

definition NewAccount ::
    "UUID \<Rightarrow> string \<Rightarrow> Currency \<Rightarrow> AccountStatus \<Rightarrow> instant \<Rightarrow> Account result" where
  "NewAccount ident tenantID currency status createdAt =
     (if tenantID = [] then Err ErrTenantRequired
      else if \<not> Currency_Valid currency then Err ErrInvalidCurrency
      else if \<not> AccountStatus_Valid status then Err ErrInvalidAccountStatus
      else Inr \<lparr>acc_ID = ident, acc_TenantID = tenantID, acc_Currency = currency,
                acc_Status = status, acc_CreatedAt = createdAt\<rparr>)"

definition CanPost :: "Account \<Rightarrow> go_error option" where
  "CanPost a =
     (if acc_Status a = AccountStatusClosed then Some (Sentinel ErrAccountClosed)
      else if acc_Status a = AccountStatusFrozen then Some (Sentinel ErrAccountFrozen)
      else None)"

section \<open>Journal entries and transactions\<close>

record JournalEntry =
  je_ID :: UUID
  je_TransactionID :: UUID
  je_TenantID :: string
  je_AccountID :: UUID
  je_Amount :: Amount
  je_Currency :: Currency
  je_CreatedAt :: instant

definition NewJournalEntry ::
    "UUID \<Rightarrow> UUID \<Rightarrow> string \<Rightarrow> UUID \<Rightarrow> Amount \<Rightarrow> Currency \<Rightarrow> instant \<Rightarrow> JournalEntry result" where
  "NewJournalEntry ident txID tenantID accountID amount currency createdAt =
     (if tenantID = [] then Err ErrTenantRequired
      else if \<not> Currency_Valid currency then Err ErrInvalidCurrency
      else Inr \<lparr>je_ID = ident, je_TransactionID = txID, je_TenantID = tenantID,
                je_AccountID = accountID, je_Amount = amount, je_Currency = currency,
                je_CreatedAt = createdAt\<rparr>)"

definition IsDebit :: "apd \<Rightarrow> JournalEntry \<Rightarrow> bool" where
  "IsDebit A e = Amount_IsNegative A (je_Amount e)"

definition IsCredit :: "apd \<Rightarrow> JournalEntry \<Rightarrow> bool" where
  "IsCredit A e = Amount_IsPositive A (je_Amount e)"

type_synonym TransactionStatus = string

definition TransactionStatusCommitted :: TransactionStatus where
  "TransactionStatusCommitted = ''COMMITTED''"
definition TransactionStatusReversed :: TransactionStatus where
  "TransactionStatusReversed = ''REVERSED''"

definition TransactionStatus_Valid :: "TransactionStatus \<Rightarrow> bool" where
  "TransactionStatus_Valid s \<longleftrightarrow>
     s = TransactionStatusCommitted \<or> s = TransactionStatusReversed"

record Transaction =
  tx_ID :: UUID
  tx_TenantID :: string
  tx_IdempotencyKey :: string
  tx_RequestFingerprint :: string
  tx_Status :: TransactionStatus
  tx_Entries :: "JournalEntry list"
  tx_CreatedAt :: instant

definition NewTransaction ::
    "UUID \<Rightarrow> string \<Rightarrow> string \<Rightarrow> string \<Rightarrow> TransactionStatus \<Rightarrow> JournalEntry list \<Rightarrow> instant
      \<Rightarrow> Transaction result" where
  "NewTransaction ident tenantID idemKey fingerprint status entries createdAt =
     (if tenantID = [] then Err ErrTenantRequired
      else if idemKey = [] then Err ErrDuplicateIdempotencyKey
      else if \<not> TransactionStatus_Valid status then Err ErrInvalidTxStatus
      else Inr \<lparr>tx_ID = ident, tx_TenantID = tenantID, tx_IdempotencyKey = idemKey,
                tx_RequestFingerprint = fingerprint, tx_Status = status, tx_Entries = entries,
                tx_CreatedAt = createdAt\<rparr>)"

definition AssertBalanced :: "apd \<Rightarrow> Transaction \<Rightarrow> go_error option" where
  "AssertBalanced A t =
     (if length (tx_Entries t) < 2 then Some (Sentinel ErrUnbalancedTransaction)
      else let sum = foldl (\<lambda>sum e. Amount_Add A sum (je_Amount e)) ZeroAmount (tx_Entries t)
           in if \<not> Amount_IsZero A sum then Some (Sentinel ErrUnbalancedTransaction) else None)"

section \<open>Outbox and audit events\<close>

type_synonym OutboxStatus = string
type_synonym AggregateType = string

definition OutboxStatusPending :: OutboxStatus where "OutboxStatusPending = ''PENDING''"
definition OutboxStatusPublished :: OutboxStatus where "OutboxStatusPublished = ''PUBLISHED''"

definition OutboxStatus_Valid :: "OutboxStatus \<Rightarrow> bool" where
  "OutboxStatus_Valid s \<longleftrightarrow> s = OutboxStatusPending \<or> s = OutboxStatusPublished"

definition AggregateTypeTransaction :: AggregateType where
  "AggregateTypeTransaction = ''Transaction''"
definition AggregateTypeAccount :: AggregateType where
  "AggregateTypeAccount = ''Account''"

record OutboxEvent =
  ob_ID :: UUID
  ob_AggregateType :: AggregateType
  ob_AggregateID :: UUID
  ob_EventSchema :: string
  ob_Payload :: bytes
  ob_Status :: OutboxStatus
  ob_CreatedAt :: instant

definition NewOutboxEvent ::
    "UUID \<Rightarrow> UUID \<Rightarrow> AggregateType \<Rightarrow> string \<Rightarrow> bytes \<Rightarrow> instant \<Rightarrow> OutboxEvent result" where
  "NewOutboxEvent ident aggregateID aggType schema payload createdAt =
     (if aggType = [] then Err ErrInvalidOutboxStatus
      else if length payload = 0 then Err ErrInvalidOutboxStatus
      else Inr \<lparr>ob_ID = ident, ob_AggregateType = aggType, ob_AggregateID = aggregateID,
                ob_EventSchema = schema, ob_Payload = payload, ob_Status = OutboxStatusPending,
                ob_CreatedAt = createdAt\<rparr>)"

record AuditEnvelope =
  env_TenantID :: string
  env_ActorSubject :: string
  env_ActorSession :: string
  env_RequestID :: string
  env_TraceID :: string
  env_OccurredAt :: instant

text \<open>\<open>AuditEvent\<close> embeds the envelope, so it extends its record; a nil byte slice is
  \<^const>\<open>None\<close>.\<close>

record AuditEvent = AuditEnvelope +
  ae_AggregateType :: string
  ae_AggregateID :: UUID
  ae_Operation :: string
  ae_BeforeState :: "bytes option"
  ae_AfterState :: "bytes option"

definition AuditAggregateTransaction :: string where "AuditAggregateTransaction = ''transaction''"
definition AuditAggregateAccount :: string where "AuditAggregateAccount = ''account''"
definition AuditOpTransferExecuted :: string where "AuditOpTransferExecuted = ''transfer.executed''"
definition AuditOpTransferReversed :: string where "AuditOpTransferReversed = ''transfer.reversed''"

section \<open>Port types\<close>

record TransferRequest =
  tr_TenantID :: string
  tr_IdempotencyKey :: string
  tr_RequestFingerprint :: string
  tr_FromAccountID :: UUID
  tr_ToAccountID :: UUID
  tr_Amount :: Amount
  tr_Currency :: Currency
  tr_OutboxSchema :: string
  tr_OutboxPayload :: bytes
  tr_AuditEnvelope :: AuditEnvelope

type_synonym IdempotencyState = string

definition IdempotencyStarted :: IdempotencyState where "IdempotencyStarted = ''STARTED''"
definition IdempotencyCompleted :: IdempotencyState where "IdempotencyCompleted = ''COMPLETED''"
definition IdempotencyFailed :: IdempotencyState where "IdempotencyFailed = ''FAILED''"

record IdempotencyRecord =
  rec_State :: IdempotencyState
  rec_Fingerprint :: string

definition zero_record :: IdempotencyRecord where
  "zero_record = \<lparr>rec_State = [], rec_Fingerprint = []\<rparr>"

lemmas status_consts =
  AccountStatusActive_def AccountStatusFrozen_def AccountStatusClosed_def
  TransactionStatusCommitted_def TransactionStatusReversed_def
  OutboxStatusPending_def OutboxStatusPublished_def
  IdempotencyStarted_def IdempotencyCompleted_def IdempotencyFailed_def

section \<open>Lemmas\<close>

lemma AssertBalanced_fold:
  "AssertBalanced A t =
     (if length (tx_Entries t) < 2
        \<or> \<not> Amount_IsZero A (foldl (Amount_Add A) ZeroAmount (map je_Amount (tx_Entries t)))
      then Some (Sentinel ErrUnbalancedTransaction) else None)"
  by (simp add: AssertBalanced_def Let_def foldl_map)

context apd_lib
begin

lemma foldl_Add_finite_legs:
  assumes "\<forall>a \<in> set as. at_scale a \<or> Form a \<noteq> Finite" "Form (foldl (Amount_Add A) t as) = Finite"
  shows "list_all at_scale as"
  using assms
proof (induction as arbitrary: t)
  case (Cons a as)
  have "Form (Amount_Add A t a) = Finite" using Cons.prems(2) foldl_Add_special by force
  then have "Form a = Finite" using Amount_Add_special by blast
  with Cons show ?case by auto
qed simp

lemma balanced_sound:
  assumes legs: "\<forall>e \<in> set (tx_Entries t). at_scale (je_Amount e) \<or> Form (je_Amount e) \<noteq> Finite"
    and ok: "AssertBalanced A t = None"
  shows "2 \<le> length (tx_Entries t) \<and> list_all (at_scale \<circ> je_Amount) (tx_Entries t)
    \<and> sum_list (map (units \<circ> je_Amount) (tx_Entries t)) = 0"
proof -
  let ?as = "map je_Amount (tx_Entries t)" let ?s = "foldl (Amount_Add A) ZeroAmount ?as"
  have len: "2 \<le> length (tx_Entries t)" and z: "Amount_IsZero A ?s"
    using ok by (auto simp: AssertBalanced_fold split: if_splits)
  have fin: "Form ?s = Finite" using z IsZero_special by blast
  have at: "list_all at_scale ?as" using legs fin by (intro foldl_Add_finite_legs) auto
  from foldl_Add_exact [OF ZeroAmount_scaled(1) at fin] z
  have "sum_list (map units ?as) = 0" using IsZero_units by force
  with len at show ?thesis by (simp add: list.pred_map)
qed

lemma balanced_complete:
  assumes "2 \<le> length (tx_Entries t)" "list_all (at_scale \<circ> je_Amount) (tx_Entries t)"
    and "sum_list (map (\<lambda>e. \<bar>units (je_Amount e)\<bar>) (tx_Entries t)) < 10 ^ 22"
    and "sum_list (map (units \<circ> je_Amount) (tx_Entries t)) = 0"
  shows "AssertBalanced A t = None"
proof -
  let ?as = "map je_Amount (tx_Entries t)" let ?s = "foldl (Amount_Add A) ZeroAmount ?as"
  have at: "list_all at_scale ?as" using assms(2) by (simp add: list.pred_map)
  have fin: "Form ?s = Finite"
    using assms(3) by (intro foldl_Add_finite at) (simp_all add: comp_def)
  from foldl_Add_exact [OF ZeroAmount_scaled(1) at fin] assms(4)
  have "scaled ?s" "units ?s = 0" by (simp_all add: comp_def)
  with assms(1) show ?thesis by (simp add: AssertBalanced_fold IsZero_units)
qed

text \<open>The two legs \<open>-x\<close>, \<open>x\<close> of a transfer always balance.\<close>

lemma balanced_pair:
  assumes "at_scale a" "tx_Entries t = [e1, e2]" "je_Amount e1 = Amount_Neg A a" "je_Amount e2 = a"
  shows "AssertBalanced A t = None"
proof -
  let ?n = "Amount_Neg A a"
  have lim: "\<bar>units ?n\<bar> < 10 ^ 22"
    using assms(1) by (simp add: units_at_scale Neg_at_scale abs_dval) (simp add: at_scale_def Amount_Neg_def Neg_fields)
  have s1: "at_scale (Amount_Add A ZeroAmount ?n)" "units (Amount_Add A ZeroAmount ?n) = units ?n"
    using Amount_Add_exact [of ZeroAmount ?n] lim assms(1) by (simp_all add: at_scale_scaled Neg_at_scale)
  have "at_scale (Amount_Add A (Amount_Add A ZeroAmount ?n) a)
      \<and> units (Amount_Add A (Amount_Add A ZeroAmount ?n) a) = 0"
    using Amount_Add_exact [of "Amount_Add A ZeroAmount ?n" a] s1 assms(1)
    by (simp add: at_scale_scaled units_Neg)
  with assms(2-4) show ?thesis by (simp add: AssertBalanced_fold IsZero_units at_scale_scaled)
qed

lemma unbalanced_special:
  assumes "e \<in> set (tx_Entries t)" "Form (je_Amount e) \<noteq> Finite"
  shows "AssertBalanced A t = Some (Sentinel ErrUnbalancedTransaction)"
proof -
  from assms(1) obtain xs ys where "tx_Entries t = xs @ e # ys" by (auto simp: in_set_conv_decomp)
  then have "Form (foldl (Amount_Add A) ZeroAmount (map je_Amount (tx_Entries t))) \<noteq> Finite"
    using assms(2) by (simp add: foldl_Add_special Amount_Add_special)
  then show ?thesis by (simp add: AssertBalanced_fold IsZero_special)
qed

end

section \<open>Properties\<close>

text \<open>C17: the double-entry check. For legs as \<open>NewAmount\<close> makes them (at scale 4, or a NaN that
  slipped through), \<open>AssertBalanced\<close> accepts only two or more finite legs whose exact sum is
  zero, rejects every transaction with a NaN leg, and accepts a balanced one as long as the
  magnitudes fit the 22 digits of the decimal context.\<close>

theorem AssertBalanced_correct:
  assumes "apd_lib A"
    and "\<forall>e \<in> set (tx_Entries t). at_scale (je_Amount e) \<or> Form (je_Amount e) \<noteq> Finite"
  shows "(AssertBalanced A t = None \<longrightarrow>
           2 \<le> length (tx_Entries t) \<and> list_all (at_scale \<circ> je_Amount) (tx_Entries t)
           \<and> sum_list (map (units \<circ> je_Amount) (tx_Entries t)) = 0)
    \<and> (list_ex (\<lambda>e. Form (je_Amount e) \<noteq> Finite) (tx_Entries t) \<longrightarrow>
           AssertBalanced A t = Some (Sentinel ErrUnbalancedTransaction))
    \<and> (2 \<le> length (tx_Entries t) \<and> list_all (at_scale \<circ> je_Amount) (tx_Entries t)
         \<and> sum_list (map (\<lambda>e. \<bar>units (je_Amount e)\<bar>) (tx_Entries t)) < 10 ^ 22 \<longrightarrow>
         (AssertBalanced A t = None \<longleftrightarrow> sum_list (map (units \<circ> je_Amount) (tx_Entries t)) = 0))"
  using apd_lib.balanced_sound [OF assms] apd_lib.balanced_complete [OF assms(1)]
    apd_lib.unbalanced_special [OF assms(1)]
  by (auto simp: list_ex_iff)

definition sample_leg :: "bool \<Rightarrow> nat \<Rightarrow> JournalEntry" where
  "sample_leg neg n = \<lparr>je_ID = 1, je_TransactionID = 7, je_TenantID = ''t'', je_AccountID = 3,
     je_Amount = \<lparr>Form = Finite, Negative = neg, Exponent = LedgerScale, Coeff = n\<rparr>,
     je_Currency = ''USD'', je_CreatedAt = 0\<rparr>"

definition sample_tx :: "JournalEntry list \<Rightarrow> Transaction" where
  "sample_tx es = \<lparr>tx_ID = 7, tx_TenantID = ''t'', tx_IdempotencyKey = ''k'',
     tx_RequestFingerprint = [], tx_Status = TransactionStatusCommitted, tx_Entries = es,
     tx_CreatedAt = 0\<rparr>"

theorem AssertBalanced_correct_witness:
  "AssertBalanced apd_ref (sample_tx [sample_leg True 300, sample_leg False 100, sample_leg False 200]) = None
   \<and> AssertBalanced apd_ref (sample_tx [sample_leg True 300, sample_leg False 100]) \<noteq> None"
proof -
  let ?t = "sample_tx [sample_leg True 300, sample_leg False 100, sample_leg False 200]"
  let ?u = "sample_tx [sample_leg True 300, sample_leg False 100]"
  show ?thesis
    using AssertBalanced_correct [OF ref.apd_lib_axioms, of ?t]
      AssertBalanced_correct [OF ref.apd_lib_axioms, of ?u]
    by (simp add: sample_tx_def sample_leg_def at_scale_def units_def dval_def)
qed

end
