(* ===== verification/Pool_Tx.thy ===== *)
theory Pool_Tx
  imports Prelude Complex_Main
begin

text \<open>
  \<open>internal/repository\<close>: connection acquisition (\<open>pool.go\<close>), the retry loop for serialization
  failures (\<open>retry.go\<close>) and the transaction wrapper \<open>InTx\<close> (\<open>tx.go\<close>). What pgx and PostgreSQL
  answer in one attempt is a record \<open>attempt_env\<close> (an argument, so every theorem holds for
  every behaviour of the driver), the pool keeps the number of acquired connections and the
  acquire observations, and the database is a value that only a commit replaces.
\<close>

section \<open>Pool\<close>

record PoolConfig =
  DSN :: string
  MaxConns :: int
  MinConns :: int
  MaxConnLifetime :: duration
  MaxConnIdleTime :: duration
  AcquireTimeout :: duration

text \<open>\<open>NewPool\<close>: the driver's configuration record has the same sizing fields; \<open>parse\<close>,
  \<open>connect\<close> and \<open>ping\<close> stand for the pgxpool calls. The second result says whether the pool
  that was opened is still open.\<close>

definition NewPool ::
    "(string \<Rightarrow> PoolConfig result) \<Rightarrow> (PoolConfig \<Rightarrow> go_error option) \<Rightarrow> go_error option \<Rightarrow> PoolConfig
      \<Rightarrow> PoolConfig result \<times> bool" where
  "NewPool parse connect ping cfg =
     (if DSN cfg = [] then (Inl (Errorf [Lit ''repository: pool DSN is required'']), False)
      else case parse (DSN cfg) of
        Inl err \<Rightarrow> (Inl (Errorf [Lit ''repository: parse DSN: '', W err]), False)
      | Inr c \<Rightarrow>
          let c = (if MaxConns cfg > 0 then c\<lparr>MaxConns := MaxConns cfg\<rparr> else c);
              c = (if MinConns cfg > 0 then c\<lparr>MinConns := MinConns cfg\<rparr> else c);
              c = (if MaxConnLifetime cfg > 0 then c\<lparr>MaxConnLifetime := MaxConnLifetime cfg\<rparr> else c);
              c = (if MaxConnIdleTime cfg > 0 then c\<lparr>MaxConnIdleTime := MaxConnIdleTime cfg\<rparr> else c)
          in case connect c of
               Some err \<Rightarrow> (Inl (Errorf [Lit ''repository: new pool: '', W err]), False)
             | None \<Rightarrow> (case ping of
                 Some err \<Rightarrow> (Inl (Errorf [Lit ''repository: ping: '', W err]), False)
               | None \<Rightarrow> (Inr c, True)))"

text \<open>Commit at the server: it succeeds, or the call reports an error and the transaction was or
  was not applied (a lost acknowledgement is an error with the transaction applied).\<close>

datatype commit_outcome = CommitOk | CommitFails go_error bool

text \<open>What the driver and the engine do during one attempt: the error and duration of
  \<open>pool.Acquire\<close>, the error of \<open>BeginTx\<close>, the fault of the n-th statement, the outcome of
  \<open>Commit\<close>, the error of a \<open>Rollback\<close> of an open transaction, the error of the context when it
  is done during the backoff that follows, what other sessions commit before the attempt, and
  the values of \<open>uuidv7()\<close> and \<open>NOW()\<close> that column defaults take.\<close>

record 'db attempt_env =
  at_acquire :: "go_error option"
  at_elapsed :: duration
  at_begin :: "go_error option"
  at_stmt :: "nat \<Rightarrow> go_error option"
  at_commit :: commit_outcome
  at_rollback :: "go_error option"
  at_ctx_done :: "go_error option"
  at_before :: "'db \<Rightarrow> 'db"
  at_uuid :: UUID
  at_now :: instant

record pool_state =
  pl_acquired :: nat
  pl_obs :: "(duration \<times> string) list"

definition ObserveAcquire :: "pool_state \<Rightarrow> duration \<Rightarrow> string \<Rightarrow> pool_state" where
  "ObserveAcquire p latency outcome = p\<lparr>pl_obs := pl_obs p @ [(latency, outcome)]\<rparr>"

definition conn_Release :: "pool_state \<Rightarrow> pool_state" where
  "conn_Release p = p\<lparr>pl_acquired := pl_acquired p - 1\<rparr>"

definition AcquireConn ::
    "PoolConfig \<Rightarrow> 'db attempt_env \<Rightarrow> pool_state \<Rightarrow> pool_state \<times> go_error option" where
  "AcquireConn cfg env p =
     (let elapsed = at_elapsed env
      in case at_acquire env of
           None \<Rightarrow> (ObserveAcquire (p\<lparr>pl_acquired := pl_acquired p + 1\<rparr>) elapsed ''ok'', None)
         | Some err \<Rightarrow>
             if errors_Is err ContextDeadlineExceeded \<and> AcquireTimeout cfg > 0
                \<and> elapsed \<ge> AcquireTimeout cfg
             then (ObserveAcquire p elapsed ''timeout'',
                   Some (Errorf [W (Sentinel ErrAcquireTimeout), Lit '' (after '', Dur (AcquireTimeout cfg), Lit '')'']))
             else (ObserveAcquire p elapsed ''err'', Some err))"

text \<open>\<open>releasingTx\<close>: the raw transaction is closed by its first \<open>Commit\<close> or \<open>Rollback\<close>; a later
  call returns \<open>pgx.ErrTxClosed\<close>.\<close>

record releasingTx =
  rt_closed :: bool
  rt_released :: bool

definition BeginTxWithAcquire ::
    "PoolConfig \<Rightarrow> 'db attempt_env \<Rightarrow> pool_state \<Rightarrow> pool_state \<times> releasingTx result" where
  "BeginTxWithAcquire cfg env p =
     (case AcquireConn cfg env p of
        (p1, Some err) \<Rightarrow> (p1, Inl err)
      | (p1, None) \<Rightarrow>
          (case at_begin env of
             Some err \<Rightarrow> (conn_Release p1, Inl err)
           | None \<Rightarrow> (p1, Inr \<lparr>rt_closed = False, rt_released = False\<rparr>)))"

definition rt_release :: "pool_state \<Rightarrow> releasingTx \<Rightarrow> pool_state \<times> releasingTx" where
  "rt_release p t =
     (if rt_released t then (p, t) else (conn_Release p, t\<lparr>rt_released := True\<rparr>))"

definition rt_Commit ::
    "'db attempt_env \<Rightarrow> pool_state \<Rightarrow> releasingTx \<Rightarrow> pool_state \<times> releasingTx \<times> go_error option" where
  "rt_Commit env p t =
     (let err = (if rt_closed t then Some (Sentinel PgxErrTxClosed)
                 else case at_commit env of CommitOk \<Rightarrow> None | CommitFails e applied \<Rightarrow> Some e);
          (p1, t1) = rt_release p (t\<lparr>rt_closed := True\<rparr>)
      in (p1, t1, err))"

definition rt_Rollback ::
    "'db attempt_env \<Rightarrow> pool_state \<Rightarrow> releasingTx \<Rightarrow> pool_state \<times> releasingTx \<times> go_error option" where
  "rt_Rollback env p t =
     (let err = (if rt_closed t then Some (Sentinel PgxErrTxClosed) else at_rollback env);
          (p1, t1) = rt_release p (t\<lparr>rt_closed := True\<rparr>)
      in (p1, t1, err))"

section \<open>Retry\<close>

definition pgSerializationFailureCode :: string where "pgSerializationFailureCode = ''40001''"
definition pgUniqueViolationCode :: string where "pgUniqueViolationCode = ''23505''"
definition pgForeignKeyViolationCode :: string where "pgForeignKeyViolationCode = ''23503''"

lemmas sqlstates = pgSerializationFailureCode_def pgUniqueViolationCode_def pgForeignKeyViolationCode_def

record RetryConfig =
  MaxAttempts :: int
  InitialBackoff :: duration
  MaxBackoff :: duration
  JitterFraction :: rat

definition DefaultRetryConfig :: RetryConfig where
  "DefaultRetryConfig = \<lparr>MaxAttempts = 3, InitialBackoff = 5 * Millisecond,
     MaxBackoff = 200 * Millisecond, JitterFraction = 1 / 4\<rparr>"

definition IsSerializationFailure :: "go_error \<Rightarrow> bool" where
  "IsSerializationFailure err \<longleftrightarrow> errors_As_PgError err = Some pgSerializationFailureCode"

definition IsUniqueViolation :: "go_error \<Rightarrow> bool" where
  "IsUniqueViolation err \<longleftrightarrow> errors_As_PgError err = Some pgUniqueViolationCode"

definition IsForeignKeyViolation :: "go_error \<Rightarrow> bool" where
  "IsForeignKeyViolation err \<longleftrightarrow> errors_As_PgError err = Some pgForeignKeyViolationCode"

text \<open>\<open>jitter\<close>, with \<open>u\<close> the value of \<open>rand.Float64()\<close> in \<open>[0, 1)\<close>; conversion to a duration
  truncates toward zero. Float64 arithmetic is taken exactly.\<close>

definition trunc_rat :: "rat \<Rightarrow> int" where
  "trunc_rat q = (if q \<ge> 0 then \<lfloor>q\<rfloor> else - \<lfloor>- q\<rfloor>)"

definition jitter :: "rat \<Rightarrow> duration \<Rightarrow> rat \<Rightarrow> duration" where
  "jitter u d fr =
     (if fr \<le> 0 then d
      else let delta = rat_of_int d * fr in d + trunc_rat ((u * 2 - 1) * delta))"

text \<open>The loop over \<open>attempt\<close>: \<open>n\<close> attempts remain, \<open>fn i\<close> is the i-th call, \<open>stop i\<close> the context's
  error when it is done during the backoff after attempt \<open>i\<close>. The last component lists the
  backoffs waited, before jitter.\<close>

fun retry_loop ::
    "RetryConfig \<Rightarrow> (nat \<Rightarrow> 's \<Rightarrow> 's \<times> go_error option) \<Rightarrow> (nat \<Rightarrow> go_error option) \<Rightarrow> nat \<Rightarrow> nat
      \<Rightarrow> duration \<Rightarrow> go_error option \<Rightarrow> 's \<Rightarrow> 's \<times> go_error option \<times> duration list" where
  "retry_loop cfg fn stop 0 attempt backoff err s =
     (s, Some (Errorf [W (Sentinel ErrRetryCapReached), Lit '': '',
                       case err of Some e \<Rightarrow> W e | None \<Rightarrow> Lit ''%!w(<nil>)'']), [])"
| "retry_loop cfg fn stop (Suc n) attempt backoff err s =
     (case fn attempt s of
        (s1, None) \<Rightarrow> (s1, None, [])
      | (s1, Some e) \<Rightarrow>
          if \<not> IsSerializationFailure e then (s1, Some e, [])
          else if int attempt = MaxAttempts cfg - 1
               then retry_loop cfg fn stop 0 attempt backoff (Some e) s1
          else case stop attempt of
                 Some ce \<Rightarrow> (s1, Some ce, [backoff])
               | None \<Rightarrow>
                   let b = to_int64 (backoff * 2);
                       b' = (if b > MaxBackoff cfg then MaxBackoff cfg else b)
                   in case retry_loop cfg fn stop n (attempt + 1) b' (Some e) s1 of
                        (s2, r, waits) \<Rightarrow> (s2, r, backoff # waits))"

definition effective_retry :: "RetryConfig \<Rightarrow> RetryConfig" where
  "effective_retry cfg = (if MaxAttempts cfg \<le> 0 then DefaultRetryConfig else cfg)"

definition WithRetryOnSerializationFailure ::
    "RetryConfig \<Rightarrow> (nat \<Rightarrow> 's \<Rightarrow> 's \<times> go_error option) \<Rightarrow> (nat \<Rightarrow> go_error option) \<Rightarrow> 's
      \<Rightarrow> 's \<times> go_error option \<times> duration list" where
  "WithRetryOnSerializationFailure cfg fn stop s =
     (let cfg = effective_retry cfg
      in retry_loop cfg fn stop (nat (MaxAttempts cfg)) 0 (InitialBackoff cfg) None s)"

section \<open>InTx\<close>

text \<open>The state around a transaction: the pool, the committed database and the variables the
  function passed to \<open>InTx\<close> captures. The function reads and writes its own copy of the
  database, which \<open>Commit\<close> installs.\<close>

record ('db, 'v) tx_state =
  ts_pool :: pool_state
  ts_db :: 'db
  ts_vars :: 'v

text \<open>The deferred rollback of a failing attempt.\<close>

definition rollback_on_error ::
    "'db attempt_env \<Rightarrow> releasingTx \<Rightarrow> ('db, 'v) tx_state \<Rightarrow> go_error
      \<Rightarrow> ('db, 'v) tx_state \<times> go_error option" where
  "rollback_on_error env t s returnedErr =
     (case rt_Rollback env (ts_pool s) t of
        (p, t1, None) \<Rightarrow> (s\<lparr>ts_pool := p\<rparr>, Some returnedErr)
      | (p, t1, Some rbErr) \<Rightarrow>
          (s\<lparr>ts_pool := p\<rparr>,
           Some (if \<not> errors_Is rbErr PgxErrTxClosed
                 then Errorf [W returnedErr, Lit '' (rollback: '', V rbErr, Lit '')'']
                 else returnedErr)))"

definition tx_attempt ::
    "PoolConfig \<Rightarrow> ('db attempt_env \<Rightarrow> 'v \<Rightarrow> 'db \<Rightarrow> 'db \<times> 'v \<times> go_error option) \<Rightarrow> 'db attempt_env
      \<Rightarrow> ('db, 'v) tx_state \<Rightarrow> ('db, 'v) tx_state \<times> go_error option" where
  "tx_attempt poolCfg fn env s0 =
     (let s = s0\<lparr>ts_db := at_before env (ts_db s0)\<rparr>
      in case BeginTxWithAcquire poolCfg env (ts_pool s) of
           (p, Inl err) \<Rightarrow> (s\<lparr>ts_pool := p\<rparr>, Some (Errorf [Lit ''repository: begin tx: '', W err]))
         | (p, Inr tx) \<Rightarrow>
             (case fn env (ts_vars s) (ts_db s) of
                (db1, v1, Some err) \<Rightarrow>
                  rollback_on_error env tx (s\<lparr>ts_pool := p, ts_vars := v1\<rparr>) err
              | (db1, v1, None) \<Rightarrow>
                  (case rt_Commit env p tx of
                     (p1, tx1, Some err) \<Rightarrow>
                       let db' = (case at_commit env of
                                    CommitOk \<Rightarrow> db1
                                  | CommitFails e applied \<Rightarrow> if applied then db1 else ts_db s)
                       in rollback_on_error env tx1 (s\<lparr>ts_pool := p1, ts_db := db', ts_vars := v1\<rparr>)
                            (Errorf [Lit ''repository: commit tx: '', W err])
                   | (p1, tx1, None) \<Rightarrow> (s\<lparr>ts_pool := p1, ts_db := db1, ts_vars := v1\<rparr>, None))))"

definition InTx ::
    "PoolConfig \<Rightarrow> RetryConfig \<Rightarrow> ('db attempt_env \<Rightarrow> 'v \<Rightarrow> 'db \<Rightarrow> 'db \<times> 'v \<times> go_error option)
      \<Rightarrow> (nat \<Rightarrow> 'db attempt_env) \<Rightarrow> ('db, 'v) tx_state \<Rightarrow> ('db, 'v) tx_state \<times> go_error option" where
  "InTx poolCfg retry fn envs s =
     (case WithRetryOnSerializationFailure retry (\<lambda>i. tx_attempt poolCfg fn (envs i))
             (\<lambda>i. at_ctx_done (envs i)) s of
        (s', r, waits) \<Rightarrow> (s', r))"

section \<open>Lemmas on the retry loop\<close>

text \<open>The states and results of the first attempts.\<close>

fun run_attempts :: "(nat \<Rightarrow> 's \<Rightarrow> 's \<times> go_error option) \<Rightarrow> nat \<Rightarrow> nat \<Rightarrow> 's \<Rightarrow> 's" where
  "run_attempts fn i 0 s = s"
| "run_attempts fn i (Suc n) s = run_attempts fn (i + 1) n (fst (fn i s))"

lemma run_attempts_snoc:
  "run_attempts fn i (Suc n) s = fst (fn (i + n) (run_attempts fn i n s))"
  by (induction n arbitrary: i s) auto

text \<open>What the loop returns after \<open>k\<close> calls: every call but the last failed with 40001, and the
  last decides.\<close>

definition retry_spec ::
    "nat \<Rightarrow> (nat \<Rightarrow> 's \<Rightarrow> 's \<times> go_error option) \<Rightarrow> (nat \<Rightarrow> go_error option) \<Rightarrow> nat \<Rightarrow> nat \<Rightarrow> 's
      \<Rightarrow> 's \<Rightarrow> go_error option \<Rightarrow> bool" where
  "retry_spec limit fn stop i k s s' r \<longleftrightarrow>
     s' = run_attempts fn i (Suc k) s
     \<and> (\<forall>j < k. (\<exists>e. snd (fn (i + j) (run_attempts fn i j s)) = Some e \<and> IsSerializationFailure e)
                \<and> stop (i + j) = None)
     \<and> (case snd (fn (i + k) (run_attempts fn i k s)) of
          None \<Rightarrow> r = None
        | Some e \<Rightarrow>
            if \<not> IsSerializationFailure e then r = Some e
            else if i + k + 1 = limit
                 then r = Some (Errorf [W (Sentinel ErrRetryCapReached), Lit '': '', W e])
            else r = stop (i + k) \<and> r \<noteq> None)"

lemma retry_spec_Suc:
  assumes "fn i s = (s1, Some e)" "IsSerializationFailure e" "stop i = None"
    and "retry_spec limit fn stop (Suc i) k s1 s' r"
  shows "retry_spec limit fn stop i (Suc k) s s' r"
proof -
  have run: "run_attempts fn i (Suc j) s = run_attempts fn (Suc i) j s1" for j
    using assms(1) by simp
  have "\<exists>e. snd (fn (i + j) (run_attempts fn i j s)) = Some e \<and> IsSerializationFailure e"
    and "stop (i + j) = None" if "j < Suc k" for j
    using assms that by (cases j; fastforce simp: retry_spec_def run simp del: run_attempts.simps(2))+
  with assms(4) show ?thesis unfolding retry_spec_def run
    by (auto simp: run simp del: run_attempts.simps(2) split: option.splits)
qed

lemma retry_loop_spec:
  assumes "retry_loop cfg fn stop (Suc n) i b err s = (s', r, waits)"
    and "MaxAttempts cfg = int (i + Suc n)"
  shows "\<exists>k \<le> n. retry_spec (i + Suc n) fn stop i k s s' r"
  using assms
proof (induction n arbitrary: i b err s waits)
  case 0
  then show ?case by (auto simp: retry_spec_def split: prod.splits option.splits if_splits)
next
  case (Suc n)
  obtain s1 r1 where fn: "fn i s = (s1, r1)" by (cases "fn i s")
  consider (ok) "r1 = None" | (other) e where "r1 = Some e" "\<not> IsSerializationFailure e"
    | (ctx) e ce where "r1 = Some e" "IsSerializationFailure e" "stop i = Some ce"
    | (again) e where "r1 = Some e" "IsSerializationFailure e" "stop i = None"
    by (cases r1; cases "stop i") auto
  then show ?case
  proof cases
    case again
    have "int i \<noteq> MaxAttempts cfg - 1" using Suc.prems(2) by simp
    with Suc.prems(1) fn again obtain b' waits' where
      "retry_loop cfg fn stop (Suc n) (i + 1) b' (Some e) s1 = (s', r, waits')"
      by (auto simp: Let_def split: prod.splits simp del: retry_loop.simps(2)
          simp: retry_loop.simps(2) [of cfg fn "stop" "Suc n"])
    with Suc.IH [OF this] Suc.prems(2) obtain k where "k \<le> n"
      "retry_spec (i + 1 + Suc n) fn stop (Suc i) k s1 s' r" by auto
    then have "Suc k \<le> Suc n" "retry_spec (i + Suc (Suc n)) fn stop i (Suc k) s s' r"
      using fn again by (auto intro: retry_spec_Suc)
    then show ?thesis by blast
  next
    case ctx
    with Suc.prems fn have "r = Some ce" "s' = s1" by auto
    with ctx Suc.prems fn show ?thesis by (intro exI [of _ 0]) (simp add: retry_spec_def)
  qed (use Suc.prems fn in \<open>auto intro!: exI [of _ 0] simp: retry_spec_def\<close>)
qed

lemma retry_spec_holds:
  assumes "WithRetryOnSerializationFailure cfg fn stop s = (s', r, waits)"
  shows "\<exists>k < nat (MaxAttempts (effective_retry cfg)).
    retry_spec (nat (MaxAttempts (effective_retry cfg))) fn stop 0 k s s' r"
proof -
  let ?c = "effective_retry cfg" let ?n = "nat (MaxAttempts ?c) - 1"
  have pos: "0 < MaxAttempts ?c" by (simp add: effective_retry_def DefaultRetryConfig_def)
  then have n: "nat (MaxAttempts ?c) = Suc ?n" by simp
  from retry_loop_spec [of ?c fn "stop" ?n 0 "InitialBackoff ?c" None s s' r waits] assms pos n
  obtain k where "k \<le> ?n" "retry_spec (Suc ?n) fn stop 0 k s s' r"
    by (auto simp: WithRetryOnSerializationFailure_def Let_def)
  then show ?thesis using pos n by (intro exI [of _ k]) auto
qed

lemma run_attempts_induct:
  assumes "P s" "\<And>j s. P s \<Longrightarrow> P (fst (fn j s))"
  shows "P (run_attempts fn i n s)"
  using assms(1) by (induction n arbitrary: i s) (auto intro: assms(2))

text \<open>A property kept by every attempt is kept by the loop.\<close>

lemma retry_induct:
  assumes "WithRetryOnSerializationFailure cfg fn stop s = (s', r, waits)"
    and "P s" "\<And>j s. P s \<Longrightarrow> P (fst (fn j s))"
  shows "P s'"
proof -
  from retry_spec_holds [OF assms(1)] obtain k where "s' = run_attempts fn 0 (Suc k) s"
    by (auto simp: retry_spec_def)
  with run_attempts_induct [of P s fn 0 "Suc k"] assms(2,3) show ?thesis by simp
qed

text \<open>Backoffs are capped, and non-negative when the configuration is.\<close>

lemma retry_loop_waits:
  assumes "retry_loop cfg fn stop n i b err s = (s', r, waits)"
    and "0 \<le> b" "b \<le> m" "MaxBackoff cfg \<le> m" "0 \<le> MaxBackoff cfg" "m < 2 ^ 62"
  shows "length waits \<le> n \<and> (\<forall>w \<in> set waits. 0 \<le> w \<and> w \<le> m)"
  using assms
proof (induction n arbitrary: i b err s waits)
  case (Suc n)
  have wrap: "to_int64 (b * 2) = b * 2"
    using Suc.prems(2,3,6) by (intro to_int64_id) (simp add: in_int64_def)
  let ?b = "if b * 2 > MaxBackoff cfg then MaxBackoff cfg else b * 2"
  have b': "0 \<le> ?b" "?b \<le> m" using Suc.prems(2-5) by auto
  from Suc.prems(1,2,3) b' Suc.IH [OF _ b' Suc.prems(4-6)] show ?case
    by (auto simp: Let_def wrap split: prod.splits option.splits if_splits)
qed simp

lemma jitter_band:
  assumes "0 \<le> u" "u < 1" "0 \<le> d" "fr \<le> 1"
  shows "rat_of_int d - rat_of_int d * max 0 fr \<le> rat_of_int (jitter u d fr)
    \<and> rat_of_int (jitter u d fr) \<le> rat_of_int d + rat_of_int d * max 0 fr"
proof (cases "fr \<le> 0")
  case False
  define x where "x = rat_of_int d * fr"
  have x: "0 \<le> x" using False assms(3) by (simp add: x_def)
  have "\<bar>(u * 2 - 1) * x\<bar> \<le> x"
    using assms(1,2) x by (simp add: abs_mult mult_left_le_one_le)
  moreover have "\<bar>rat_of_int (trunc_rat q)\<bar> \<le> \<bar>q\<bar>" for q
  proof -
    have "rat_of_int \<lfloor>- q\<rfloor> \<le> - q" "rat_of_int \<lfloor>q\<rfloor> \<le> q" "0 \<le> q \<Longrightarrow> 0 \<le> \<lfloor>q\<rfloor>" "q < 0 \<Longrightarrow> 0 \<le> \<lfloor>- q\<rfloor>"
      by simp_all
    then show ?thesis by (cases "0 \<le> q") (simp_all add: trunc_rat_def)
  qed
  ultimately have "\<bar>rat_of_int (trunc_rat ((u * 2 - 1) * x))\<bar> \<le> x" using order_trans by blast
  then show ?thesis using False by (simp add: jitter_def x_def Let_def abs_le_iff)
qed (simp add: jitter_def max_def)

section \<open>Lemmas on transactions\<close>

lemmas pool_defs = AcquireConn_def BeginTxWithAcquire_def rt_Commit_def rt_Rollback_def rt_release_def
  conn_Release_def ObserveAcquire_def rollback_on_error_def

text \<open>Every attempt returns the connections it took and observes one acquire.\<close>

lemma tx_attempt_pool:
  "pl_acquired (ts_pool (fst (tx_attempt pc fn env s))) = pl_acquired (ts_pool s)
   \<and> length (pl_obs (ts_pool (fst (tx_attempt pc fn env s)))) = Suc (length (pl_obs (ts_pool s)))"
  by (auto simp: tx_attempt_def pool_defs Let_def split: option.splits prod.splits commit_outcome.splits)

text \<open>An attempt installs the complete effect of a run of the function that returned nil, or
  nothing.\<close>

lemma tx_attempt_ok:
  assumes "tx_attempt pc fn env s = (s', None)"
  shows "fn env (ts_vars s) (at_before env (ts_db s)) = (ts_db s', ts_vars s', None)
    \<and> at_commit env = CommitOk"
  using assms
  by (auto simp: tx_attempt_def pool_defs Let_def split: option.splits prod.splits commit_outcome.splits if_splits)

lemma tx_attempt_db:
  assumes "tx_attempt pc fn env s = (s', r)"
  shows "ts_db s' = at_before env (ts_db s)
    \<or> (\<exists>v'. fn env (ts_vars s) (at_before env (ts_db s)) = (ts_db s', v', None)
         \<and> (at_commit env = CommitOk \<or> (\<exists>e. at_commit env = CommitFails e True)))"
  using assms
  by (auto simp: tx_attempt_def pool_defs Let_def split: option.splits prod.splits commit_outcome.splits if_splits)

lemma tx_attempt_err:
  assumes "tx_attempt pc fn env s = (s', Some e)" "\<forall>e. at_commit env \<noteq> CommitFails e True"
  shows "ts_db s' = at_before env (ts_db s)"
  using assms
  by (auto simp: tx_attempt_def pool_defs Let_def split: option.splits prod.splits commit_outcome.splits if_splits)

text \<open>The error of an attempt wraps what the failing call returned.\<close>

lemma errors_Is_wrap [simp]:
  "errors_Is (Errorf [Lit a, W e]) t = errors_Is e t"
  "errors_Is (Errorf [W e, Lit a, V f, Lit b]) t = errors_Is e t"
  "errors_As_PgError (Errorf [Lit a, W e]) = errors_As_PgError e"
  "errors_As_PgError (Errorf [W e, Lit a, V f, Lit b]) = errors_As_PgError e"
  by (auto split: option.splits) (cases "errors_As_PgError e"; simp)+

lemma InTx_retry:
  assumes "InTx pc rc fn envs s = (s', r)"
  obtains waits where "WithRetryOnSerializationFailure rc (\<lambda>i. tx_attempt pc fn (envs i))
      (\<lambda>i. at_ctx_done (envs i)) s = (s', r, waits)"
  using assms by (auto simp: InTx_def split: prod.splits)

lemma InTx_invariant:
  fixes s :: "('db, 'v) tx_state"
  assumes "InTx pc rc fn envs s = (s', r)"
    and "I (ts_db s)" "\<And>i db. I db \<Longrightarrow> I (at_before (envs i) db)"
    and "\<And>i v db db' v'. I db \<Longrightarrow> fn (envs i) v db = (db', v', None) \<Longrightarrow> I db'"
  shows "I (ts_db s') \<and> pl_acquired (ts_pool s') = pl_acquired (ts_pool s)"
proof -
  obtain waits where w: "WithRetryOnSerializationFailure rc (\<lambda>i. tx_attempt pc fn (envs i))
      (\<lambda>i. at_ctx_done (envs i)) s = (s', r, waits)"
    using assms(1) by (rule InTx_retry)
  show ?thesis
  proof (rule retry_induct [OF w])
    fix j and x :: "('db, 'v) tx_state"
    assume x: "I (ts_db x) \<and> pl_acquired (ts_pool x) = pl_acquired (ts_pool s)"
    let ?y = "fst (tx_attempt pc fn (envs j) x)"
    have "tx_attempt pc fn (envs j) x = (?y, snd (tx_attempt pc fn (envs j) x))" by simp
    from tx_attempt_db [OF this] x assms(3,4) have "I (ts_db ?y)" by metis
    with x tx_attempt_pool [of pc fn "envs j" x]
    show "I (ts_db ?y) \<and> pl_acquired (ts_pool ?y) = pl_acquired (ts_pool s)" by simp
  qed (use assms(2) in simp)
qed

lemma InTx_ok:
  fixes s :: "('db, 'v) tx_state"
  assumes "InTx pc rc fn envs s = (s', None)"
    and "I (ts_db s)" "\<And>i db. I db \<Longrightarrow> I (at_before (envs i) db)"
    and "\<And>i v db db' v'. I db \<Longrightarrow> fn (envs i) v db = (db', v', None) \<Longrightarrow> I db'"
  shows "\<exists>i v db. I db \<and> at_commit (envs i) = CommitOk \<and> fn (envs i) v db = (ts_db s', ts_vars s', None)"
proof -
  let ?fn = "\<lambda>i. tx_attempt pc fn (envs i)"
  obtain waits where w: "WithRetryOnSerializationFailure rc ?fn (\<lambda>i. at_ctx_done (envs i)) s = (s', None, waits)"
    using assms(1) by (rule InTx_retry)
  from retry_spec_holds [OF w] obtain k where k: "s' = run_attempts ?fn 0 (Suc k) s"
    "snd (?fn k (run_attempts ?fn 0 k s)) = None"
    by (auto simp: retry_spec_def split: option.splits if_splits)
  let ?x = "run_attempts ?fn 0 k s"
  have "I (ts_db ?x)"
  proof (rule run_attempts_induct [where P = "\<lambda>x. I (ts_db x)"])
    fix j and x :: "('db, 'v) tx_state" assume "I (ts_db x)"
    moreover have "?fn j x = (fst (?fn j x), snd (?fn j x))" by simp
    ultimately show "I (ts_db (fst (?fn j x)))" using tx_attempt_db assms(3,4) by metis
  qed (rule assms(2))
  moreover have "?fn k ?x = (s', None)"
    using k run_attempts_snoc [of ?fn 0 k s] by (metis add_0 prod.collapse)
  ultimately show ?thesis using tx_attempt_ok [of pc fn "envs k" ?x s'] assms(3) by blast
qed

lemma InTx_err_unchanged:
  assumes "InTx pc rc fn envs s = (s', Some e)" "\<And>i db. at_before (envs i) db = db"
    and "\<And>i e. at_commit (envs i) \<noteq> CommitFails e True"
  shows "ts_db s' = ts_db s"
proof -
  let ?fn = "\<lambda>i. tx_attempt pc fn (envs i)"
  obtain waits where w: "WithRetryOnSerializationFailure rc ?fn (\<lambda>i. at_ctx_done (envs i)) s = (s', Some e, waits)"
    using assms(1) by (rule InTx_retry)
  from retry_spec_holds [OF w] obtain k where k: "s' = run_attempts ?fn 0 (Suc k) s"
    and fails: "\<forall>j < Suc k. \<exists>e. snd (?fn j (run_attempts ?fn 0 j s)) = Some e"
    by (fastforce simp: retry_spec_def less_Suc_eq split: option.splits if_splits)
  have "ts_db (run_attempts ?fn 0 j s) = ts_db s" if "j \<le> Suc k" for j
    using that
  proof (induction j)
    case (Suc j)
    then obtain e' where "?fn j (run_attempts ?fn 0 j s) = (fst (?fn j (run_attempts ?fn 0 j s)), Some e')"
      using fails by (metis Suc_le_lessD prod.collapse)
    from tx_attempt_err [OF this] assms(2,3) Suc show ?case by (simp add: run_attempts_snoc del: run_attempts.simps(2))
  qed simp
  then show ?thesis by (simp add: k del: run_attempts.simps)
qed

section \<open>Properties\<close>


definition sample_fn :: "nat \<Rightarrow> nat \<Rightarrow> nat \<Rightarrow> nat \<times> go_error option" where
  "sample_fn n i s = (Suc s, if i < n then Some (PgError ''40001'') else None)"


text \<open>C16: \<open>InTx\<close> is atomic and leaks no connection. Whatever the driver answers in each attempt and
  whatever other sessions commit in between: every invariant kept by the other sessions and by
  complete successful runs of the function holds afterwards, so no partial write is ever
  visible; as many connections are checked out as before; nil means that a complete run of the
  function was committed; and an error means that nothing was written, unless the commit
  itself reported an error after the server had applied it.\<close>

theorem InTx_atomic:
  assumes "InTx pc rc fn envs s = (s', r)"
    and "I (ts_db s)" and "\<forall>i db. I db \<longrightarrow> I (at_before (envs i) db)"
    and "\<forall>i v db db' v'. I db \<and> fn (envs i) v db = (db', v', None) \<longrightarrow> I db'"
  shows "I (ts_db s')
    \<and> pl_acquired (ts_pool s') = pl_acquired (ts_pool s)
    \<and> (r = None \<longrightarrow> (\<exists>i v db. I db \<and> at_commit (envs i) = CommitOk
                          \<and> fn (envs i) v db = (ts_db s', ts_vars s', None)))
    \<and> (r \<noteq> None \<and> (\<forall>i db. at_before (envs i) db = db) \<and> (\<forall>i e. at_commit (envs i) \<noteq> CommitFails e True)
        \<longrightarrow> ts_db s' = ts_db s)"
proof -
  have inv: "I (ts_db s') \<and> pl_acquired (ts_pool s') = pl_acquired (ts_pool s)"
    by (rule InTx_invariant [OF assms(1), of I]) (use assms(2-4) in blast)+
  have ok: "\<exists>i v db. I db \<and> at_commit (envs i) = CommitOk \<and> fn (envs i) v db = (ts_db s', ts_vars s', None)"
    if "r = None"
    by (rule InTx_ok [OF assms(1) [unfolded that], of I]) (use assms(2-4) in blast)+
  show ?thesis using inv ok InTx_err_unchanged [of pc rc fn envs s s'] assms(1) by (cases r) auto
qed

definition plain_env :: "'db attempt_env" where
  "plain_env = \<lparr>at_acquire = None, at_elapsed = 0, at_begin = None, at_stmt = (\<lambda>_. None),
     at_commit = CommitOk, at_rollback = None, at_ctx_done = None, at_before = (\<lambda>db. db),
     at_uuid = 0, at_now = 0\<rparr>"

definition plain_pool :: PoolConfig where
  "plain_pool = \<lparr>DSN = ''postgres://'', MaxConns = 10, MinConns = 0, MaxConnLifetime = 0,
     MaxConnIdleTime = 0, AcquireTimeout = 0\<rparr>"

theorem InTx_atomic_witness:
  "\<exists>s' r. InTx plain_pool DefaultRetryConfig (\<lambda>env v db. (db + 2, v + 1, None)) (\<lambda>_. plain_env)
      \<lparr>ts_pool = \<lparr>pl_acquired = 4, pl_obs = []\<rparr>, ts_db = 6 :: int, ts_vars = 0 :: nat\<rparr> = (s', r)
     \<and> even (ts_db s') \<and> pl_acquired (ts_pool s') = 4"
proof -
  let ?fn = "\<lambda>env v db. (db + 2 :: int, v + 1 :: nat, None)"
  let ?s = "\<lparr>ts_pool = \<lparr>pl_acquired = 4, pl_obs = []\<rparr>, ts_db = 6 :: int, ts_vars = 0 :: nat\<rparr>"
  obtain s' r where r: "InTx plain_pool DefaultRetryConfig ?fn (\<lambda>_. plain_env) ?s = (s', r)"
    by (cases "InTx plain_pool DefaultRetryConfig ?fn (\<lambda>_. plain_env) ?s")
  from InTx_atomic [OF r, of even] show ?thesis using r by (auto simp: plain_env_def)
qed

end
