(* ===== verification/Database.thy ===== *)
theory Database
  imports Domain Pool_Tx "HOL-Library.Product_Lexorder"
begin

text \<open>
  The PostgreSQL schema of \<open>apps/ledger-svc/migrations\<close> and the SQL statements of
  \<open>internal/repository\<close> as functions on tables. A table is the list of its rows in insertion
  order; an insert checks the constraints the migrations declare (primary key, UNIQUE, foreign
  keys, CHECK, column widths, the range of \<open>NUMERIC(19,4)\<close>) and answers with the SQLSTATE
  PostgreSQL reports. Every other way a statement can fail (no partition for the month, a
  serialization failure, a lost connection) is the fault \<open>at_stmt\<close> of the attempt.
\<close>

section \<open>Tables\<close>

record tx_row =
  txr_id :: UUID
  txr_tenant_id :: string
  txr_idempotency_key :: string
  txr_request_fingerprint :: string
  txr_status :: string
  txr_created_at :: instant

text \<open>\<open>NUMERIC(19,4)\<close> is kept as the number of ten-thousandths.\<close>

record je_row =
  jer_id :: UUID
  jer_transaction_id :: UUID
  jer_tenant_id :: string
  jer_account_id :: UUID
  jer_amount :: int
  jer_currency :: string
  jer_created_at :: instant

record pending_row =
  pr_id :: UUID
  pr_enqueued_at :: instant
  pr_event :: AuditEvent

record audit_row =
  ar_id :: UUID
  ar_event :: AuditEvent
  ar_prev_hash :: bytes
  ar_entry_hash :: bytes

record db =
  accounts :: "Account list"
  transactions :: "tx_row list"
  journal_entries :: "je_row list"
  outbox_events :: "OutboxEvent list"
  audit_pending :: "pending_row list"
  audit_log :: "audit_row list"

definition empty_db :: db where
  "empty_db = \<lparr>accounts = [], transactions = [], journal_entries = [], outbox_events = [],
     audit_pending = [], audit_log = []\<rparr>"

section \<open>Column types\<close>

text \<open>\<open>TIMESTAMPTZ\<close> keeps microseconds.\<close>

definition pg_timestamp :: "instant \<Rightarrow> instant" where
  "pg_timestamp t = t div 1000 * 1000"

definition varchar :: "nat \<Rightarrow> string \<Rightarrow> bool" where
  "varchar n s \<longleftrightarrow> length s \<le> n"

text \<open>The text an \<open>Amount\<close> is sent as, read as \<open>NUMERIC(19,4)\<close>, and the text of a stored value.\<close>

definition numeric_in :: "string \<Rightarrow> int result" where
  "numeric_in s =
     (case ref_SetString s of
        Inl e \<Rightarrow> Inl (PgError ''22P02'')
      | Inr d \<Rightarrow> if Exponent d < -4 then Inl (PgError ''22P02'')
                else if \<bar>units d\<bar> \<ge> 10 ^ 19 then Inl (PgError ''22003'')
                else Inr (units d))"

definition numeric_out :: "int \<Rightarrow> string" where
  "numeric_out n = dec4_text (n < 0) (nat \<bar>n\<bar>)"

text \<open>\<open>JSONB\<close> stores a normal form; \<open>jsonb\<close> is that normalisation (\<^const>\<open>None\<close> for text that is not
  JSON), an argument of the statements that write such a column.\<close>

type_synonym jsonb_in = "bytes \<Rightarrow> bytes option"

definition jsonb_column :: "jsonb_in \<Rightarrow> bytes option \<Rightarrow> (bytes option) result" where
  "jsonb_column jsonb v =
     (case v of None \<Rightarrow> Inr None
      | Some b \<Rightarrow> (case jsonb b of None \<Rightarrow> Inl (PgError ''22P02'') | Some c \<Rightarrow> Inr (Some c)))"

section \<open>Inserts\<close>

definition insert_account :: "Account \<Rightarrow> db \<Rightarrow> db result" where
  "insert_account a d =
     (if \<not> (varchar 128 (acc_TenantID a) \<and> varchar 3 (acc_Currency a)) then Inl (PgError ''22001'')
      else if \<not> AccountStatus_Valid (acc_Status a) then Inl (PgError ''23514'')
      else if list_ex (\<lambda>r. acc_ID r = acc_ID a) (accounts d) then Inl (PgError ''23505'')
      else Inr (d\<lparr>accounts := accounts d @ [a\<lparr>acc_CreatedAt := pg_timestamp (acc_CreatedAt a)\<rparr>]\<rparr>))"

definition insert_transaction :: "tx_row \<Rightarrow> db \<Rightarrow> db result" where
  "insert_transaction r d =
     (if \<not> (varchar 128 (txr_tenant_id r) \<and> varchar 255 (txr_idempotency_key r)
            \<and> varchar 64 (txr_request_fingerprint r) \<and> varchar 20 (txr_status r))
        then Inl (PgError ''22001'')
      else if \<not> TransactionStatus_Valid (txr_status r) then Inl (PgError ''23514'')
      else if list_ex (\<lambda>q. txr_id q = txr_id r) (transactions d)
           \<or> list_ex (\<lambda>q. txr_tenant_id q = txr_tenant_id r
                         \<and> txr_idempotency_key q = txr_idempotency_key r) (transactions d)
        then Inl (PgError pgUniqueViolationCode)
      else Inr (d\<lparr>transactions := transactions d @ [r\<lparr>txr_created_at := pg_timestamp (txr_created_at r)\<rparr>]\<rparr>))"

text \<open>The foreign keys of \<open>journal_entries\<close>.\<close>

definition je_references :: "je_row \<Rightarrow> db \<Rightarrow> bool" where
  "je_references r d \<longleftrightarrow>
     list_ex (\<lambda>t. txr_id t = jer_transaction_id r \<and> txr_tenant_id t = jer_tenant_id r) (transactions d)
     \<and> list_ex (\<lambda>a. acc_ID a = jer_account_id r \<and> acc_Currency a = jer_currency r) (accounts d)
     \<and> list_ex (\<lambda>a. acc_ID a = jer_account_id r \<and> acc_TenantID a = jer_tenant_id r) (accounts d)"

definition insert_journal_entry :: "je_row \<Rightarrow> db \<Rightarrow> db result" where
  "insert_journal_entry r0 d =
     (let r = r0\<lparr>jer_created_at := pg_timestamp (jer_created_at r0)\<rparr>
      in if \<not> (varchar 128 (jer_tenant_id r) \<and> varchar 3 (jer_currency r)) then Inl (PgError ''22001'')
         else if list_ex (\<lambda>q. jer_id q = jer_id r \<and> jer_created_at q = jer_created_at r
                             \<and> jer_tenant_id q = jer_tenant_id r) (journal_entries d)
           then Inl (PgError pgUniqueViolationCode)
         else if \<not> je_references r d then Inl (PgError pgForeignKeyViolationCode)
         else Inr (d\<lparr>journal_entries := journal_entries d @ [r]\<rparr>))"

definition insert_outbox_event :: "OutboxEvent \<Rightarrow> db \<Rightarrow> db result" where
  "insert_outbox_event e d =
     (if \<not> (varchar 50 (ob_AggregateType e) \<and> varchar 80 (ob_EventSchema e) \<and> varchar 20 (ob_Status e))
        then Inl (PgError ''22001'')
      else if \<not> OutboxStatus_Valid (ob_Status e) then Inl (PgError ''23514'')
      else if list_ex (\<lambda>q. ob_ID q = ob_ID e) (outbox_events d) then Inl (PgError pgUniqueViolationCode)
      else Inr (d\<lparr>outbox_events := outbox_events d @ [e\<lparr>ob_CreatedAt := pg_timestamp (ob_CreatedAt e)\<rparr>]\<rparr>))"

definition audit_widths :: "AuditEvent \<Rightarrow> bool" where
  "audit_widths e \<longleftrightarrow> varchar 128 (env_TenantID e) \<and> varchar 255 (env_ActorSubject e)
     \<and> varchar 255 (env_ActorSession e) \<and> varchar 64 (env_RequestID e) \<and> varchar 32 (env_TraceID e)
     \<and> varchar 50 (ae_AggregateType e) \<and> varchar 80 (ae_Operation e)"

text \<open>An audit event as its columns store it.\<close>

definition store_event :: "jsonb_in \<Rightarrow> AuditEvent \<Rightarrow> AuditEvent result" where
  "store_event jsonb e =
     (case jsonb_column jsonb (ae_BeforeState e) of
        Inl err \<Rightarrow> Inl err
      | Inr b \<Rightarrow> (case jsonb_column jsonb (ae_AfterState e) of
          Inl err \<Rightarrow> Inl err
        | Inr a \<Rightarrow> if \<not> audit_widths e then Inl (PgError ''22001'')
                  else Inr (e\<lparr>env_OccurredAt := pg_timestamp (env_OccurredAt e),
                             ae_BeforeState := b, ae_AfterState := a\<rparr>)))"

text \<open>\<open>audit_pending.id\<close> and \<open>enqueued_at\<close> take their column defaults.\<close>

definition insert_audit_pending :: "jsonb_in \<Rightarrow> UUID \<Rightarrow> instant \<Rightarrow> AuditEvent \<Rightarrow> db \<Rightarrow> db result" where
  "insert_audit_pending jsonb uid now e d =
     (case store_event jsonb e of
        Inl err \<Rightarrow> Inl err
      | Inr e' \<Rightarrow>
          if list_ex (\<lambda>q. env_TenantID (pr_event q) = env_TenantID e \<and> pr_id q = uid) (audit_pending d)
            then Inl (PgError pgUniqueViolationCode)
          else Inr (d\<lparr>audit_pending := audit_pending d @
                       [\<lparr>pr_id = uid, pr_enqueued_at = pg_timestamp now, pr_event = e'\<rparr>]\<rparr>))"

definition insert_audit_event :: "jsonb_in \<Rightarrow> UUID \<Rightarrow> AuditEvent \<Rightarrow> bytes \<Rightarrow> bytes \<Rightarrow> db \<Rightarrow> db result" where
  "insert_audit_event jsonb uid e prev entry d =
     (case store_event jsonb e of
        Inl err \<Rightarrow> Inl err
      | Inr e' \<Rightarrow>
          if list_ex (\<lambda>q. ar_id q = uid \<and> env_OccurredAt (ar_event q) = env_OccurredAt e'
                        \<and> env_TenantID (ar_event q) = env_TenantID e) (audit_log d)
            then Inl (PgError pgUniqueViolationCode)
          else Inr (d\<lparr>audit_log := audit_log d @
                       [\<lparr>ar_id = uid, ar_event = e', ar_prev_hash = prev, ar_entry_hash = entry\<rparr>]\<rparr>))"

section \<open>Queries, updates and deletes\<close>

definition select_transaction :: "UUID \<Rightarrow> db \<Rightarrow> tx_row option" where
  "select_transaction i d = find (\<lambda>r. txr_id r = i) (transactions d)"

definition select_transaction_by_key :: "string \<Rightarrow> string \<Rightarrow> db \<Rightarrow> tx_row option" where
  "select_transaction_by_key tenant key d =
     find (\<lambda>r. txr_tenant_id r = tenant \<and> txr_idempotency_key r = key) (transactions d)"

definition select_journal_entries :: "UUID \<Rightarrow> db \<Rightarrow> je_row list" where
  "select_journal_entries txid d =
     sort_key (\<lambda>r. (jer_created_at r, jer_id r)) (filter (\<lambda>r. jer_transaction_id r = txid) (journal_entries d))"

text \<open>\<open>WHERE status = 'PENDING' [AND created_at < cutoff] ORDER BY created_at LIMIT n\<close>, skipping the
  rows other sessions hold locks on.\<close>

definition select_pending :: "instant option \<Rightarrow> nat \<Rightarrow> UUID set \<Rightarrow> db \<Rightarrow> OutboxEvent list" where
  "select_pending cutoff n locked d =
     take n (sort_key ob_CreatedAt (filter (\<lambda>e. ob_Status e = OutboxStatusPending
       \<and> (case cutoff of None \<Rightarrow> True | Some c \<Rightarrow> ob_CreatedAt e < pg_timestamp c)
       \<and> ob_ID e \<notin> locked) (outbox_events d)))"

definition mark_published :: "UUID list \<Rightarrow> db \<Rightarrow> db \<times> nat" where
  "mark_published ids d =
     (d\<lparr>outbox_events := map (\<lambda>e. if ob_ID e \<in> set ids then e\<lparr>ob_Status := OutboxStatusPublished\<rparr> else e)
          (outbox_events d)\<rparr>,
      length (filter (\<lambda>e. ob_ID e \<in> set ids) (outbox_events d)))"

definition count_stale_pending :: "instant \<Rightarrow> db \<Rightarrow> nat" where
  "count_stale_pending cutoff d = length (filter (\<lambda>e. ob_Status e = OutboxStatusPending
     \<and> ob_CreatedAt e < pg_timestamp cutoff) (outbox_events d))"

definition select_audit_pending_batch :: "nat \<Rightarrow> (string \<times> UUID) set \<Rightarrow> db \<Rightarrow> pending_row list" where
  "select_audit_pending_batch n locked d =
     take n (sort_key (\<lambda>p. (env_TenantID (pr_event p), pr_id p))
       (filter (\<lambda>p. (env_TenantID (pr_event p), pr_id p) \<notin> locked) (audit_pending d)))"

text \<open>\<open>ORDER BY occurred_at DESC, id DESC LIMIT 1\<close>.\<close>

definition select_latest_audit_hash :: "string \<Rightarrow> db \<Rightarrow> bytes option" where
  "select_latest_audit_hash tenant d =
     (case rev (sort_key (\<lambda>r. (env_OccurredAt (ar_event r), ar_id r))
             (filter (\<lambda>r. env_TenantID (ar_event r) = tenant) (audit_log d))) of
        [] \<Rightarrow> None
      | r # rs \<Rightarrow> Some (ar_entry_hash r))"

definition delete_audit_pending :: "string \<Rightarrow> UUID list \<Rightarrow> db \<Rightarrow> db" where
  "delete_audit_pending tenant ids d =
     d\<lparr>audit_pending := filter (\<lambda>p. \<not> (env_TenantID (pr_event p) = tenant \<and> pr_id p \<in> set ids))
         (audit_pending d)\<rparr>"

definition select_oldest_pending :: "db \<Rightarrow> instant option" where
  "select_oldest_pending d =
     (case map pr_enqueued_at (audit_pending d) of [] \<Rightarrow> None | x # xs \<Rightarrow> Some (fold min xs x))"

definition sum_amounts :: "db \<Rightarrow> int" where
  "sum_amounts d = sum_list (map jer_amount (journal_entries d))"

definition tx_sum :: "db \<Rightarrow> UUID \<Rightarrow> int" where
  "tx_sum d txid = sum_list (map jer_amount (filter (\<lambda>r. jer_transaction_id r = txid) (journal_entries d)))"

definition select_unbalanced :: "nat \<Rightarrow> db \<Rightarrow> UUID list" where
  "select_unbalanced n d =
     take n (filter (\<lambda>i. tx_sum d i \<noteq> 0) (remdups (map jer_transaction_id (journal_entries d))))"

section \<open>Batches\<close>

text \<open>A statement of a transaction, run unless the engine reports a fault for it; \<open>run_batch\<close> is a
  pipelined batch whose results are read in order up to the first error, given with its index.\<close>

type_synonym stmt = "db \<Rightarrow> db result"

definition exec_stmt :: "db attempt_env \<Rightarrow> nat \<Rightarrow> stmt \<Rightarrow> stmt" where
  "exec_stmt env i f d = (case at_stmt env i of Some err \<Rightarrow> Inl err | None \<Rightarrow> f d)"

fun run_batch :: "db attempt_env \<Rightarrow> nat \<Rightarrow> stmt list \<Rightarrow> db \<Rightarrow> (nat \<times> go_error) + db" where
  "run_batch env i [] d = Inr d"
| "run_batch env i (f # fs) d =
     (case exec_stmt env i f d of
        Inl err \<Rightarrow> Inl (i, err)
      | Inr d' \<Rightarrow> run_batch env (i + 1) fs d')"

section \<open>Lemmas\<close>

lemma pg_timestamp_idem [simp]: "pg_timestamp (pg_timestamp t) = pg_timestamp t"
  by (simp add: pg_timestamp_def)

lemma pg_timestamp_le: "pg_timestamp t \<le> t"
proof -
  have "t div 1000 * 1000 + t mod 1000 = t" "0 \<le> t mod 1000" by simp_all
  then show ?thesis unfolding pg_timestamp_def by linarith
qed

lemma pg_timestamp_mono: "s \<le> t \<Longrightarrow> pg_timestamp s \<le> pg_timestamp t"
  by (simp add: pg_timestamp_def zdiv_mono1)

lemma ref_SetString_dec4:
  "ref_SetString (dec4_text neg n) = Inr \<lparr>Form = Finite, Negative = neg, Exponent = -4, Coeff = n\<rparr>"
  unfolding dec4_text_def by (simp add: ref_SetString_numeral)

lemma numeric_in_dec4: "n < 10 ^ 19 \<Longrightarrow> numeric_in (dec4_text neg n) = Inr (if neg then - int n else int n)"
proof -
  assume n: "n < 10 ^ 19"
  then show ?thesis by (simp add: ref_SetString_dec4 numeric_in_def units_def dval_def LedgerScale_def)
qed

lemma numeric_in_range: "numeric_in s = Inr n \<Longrightarrow> \<bar>n\<bar> < 10 ^ 19"
  by (auto simp: numeric_in_def split: sum.splits if_splits)

lemma numeric_out_in: "\<bar>n\<bar> < 10 ^ 19 \<Longrightarrow> numeric_in (numeric_out n) = Inr n"
  by (auto simp: numeric_out_def numeric_in_dec4 nat_less_iff)

lemma run_batch_append:
  "run_batch env i (xs @ ys) d =
     (case run_batch env i xs d of Inl e \<Rightarrow> Inl e | Inr d' \<Rightarrow> run_batch env (i + length xs) ys d')"
  by (induction xs arbitrary: i d) (auto split: sum.splits)

lemmas insert_defs = insert_transaction_def insert_journal_entry_def insert_outbox_event_def
  insert_audit_pending_def insert_audit_event_def insert_account_def

end
