(* ===== verification/Outbox.thy ===== *)
theory Outbox
  imports Database "HOL-Library.AList"
begin

text \<open>
  The transactional outbox: the producer adapter (\<open>infrastructure/kafka_producer.go\<close>), the drain
  of \<open>repository/outbox_repo.go\<close>, the relay worker (\<open>infrastructure/outbox_worker.go\<close>) and the
  reconciler (\<open>infrastructure/reconciler.go\<close>). What librdkafka does with a batch is the record
  \<open>kafka_env\<close>: local rejections, the events on the delivery channel, and which messages the
  brokers wrote; the topic is the list of messages written to it.
\<close>

section \<open>Producing\<close>

record KafkaHeader =
  kh_Key :: string
  kh_Value :: bytes

record KafkaMessage =
  km_Topic :: string
  km_Key :: bytes
  km_Value :: bytes
  km_Headers :: "KafkaHeader list"

datatype kafka_event =
    CtxDone go_error
  | TimeoutFired
  | OtherEvent
  | Report nat "go_error option"

record kafka_env =
  ke_produce :: "nat \<Rightarrow> go_error option"
  ke_events :: "kafka_event list"
  ke_written :: "nat list"

record ConfluentProducerConfig =
  Brokers :: string
  ClientID :: string
  LingerMs :: int
  CompressionType :: string
  ProduceTimeout :: duration
  AdditionalConfig :: "(string \<times> string) list"

text \<open>The configuration handed to librdkafka, values as text; \<open>new\<close> is \<open>kafka.NewProducer\<close>.\<close>

definition NewConfluentProducer ::
    "((string \<times> string) list \<Rightarrow> go_error option) \<Rightarrow> ConfluentProducerConfig \<Rightarrow> duration result" where
  "NewConfluentProducer new cfg0 =
     (if Brokers cfg0 = [] then Inl (Errorf [Lit ''kafka producer: bootstrap brokers required''])
      else
        let cfg = (if LingerMs cfg0 = 0 then cfg0\<lparr>LingerMs := 5\<rparr> else cfg0);
            cfg = (if CompressionType cfg = [] then cfg\<lparr>CompressionType := ''snappy''\<rparr> else cfg);
            cfg = (if ProduceTimeout cfg = 0 then cfg\<lparr>ProduceTimeout := 5 * Second\<rparr> else cfg);
            cfg = (if ClientID cfg = [] then cfg\<lparr>ClientID := ''ledger-outbox''\<rparr> else cfg);
            conf = [(''bootstrap.servers'', Brokers cfg), (''client.id'', ClientID cfg),
                    (''enable.idempotence'', ''true''), (''acks'', ''all''),
                    (''compression.type'', CompressionType cfg), (''linger.ms'', FormatInt (LingerMs cfg)),
                    (''retries'', ''10''), (''max.in.flight'', ''5''),
                    (''delivery.timeout.ms'', FormatInt (ProduceTimeout cfg div Millisecond))];
            conf = foldl (\<lambda>c (k, v). AList.update k v c) conf (AdditionalConfig cfg)
        in case new conf of
             Some err \<Rightarrow> Inl (Errorf [Lit ''kafka producer: new: '', W err])
           | None \<Rightarrow> Inr (ProduceTimeout cfg))"

fun enqueue_all :: "(nat \<Rightarrow> go_error option) \<Rightarrow> nat \<Rightarrow> 'm list \<Rightarrow> go_error option" where
  "enqueue_all produce i [] = None"
| "enqueue_all produce i (m # ms) =
     (case produce i of
        Some err \<Rightarrow> Some (Errorf [Lit ''kafka producer: enqueue '', D (int i), Lit '': '', W err])
      | None \<Rightarrow> enqueue_all produce (i + 1) ms)"

text \<open>The receive loop: \<open>n\<close> reports are still to come. An empty event list means that nothing
  arrives before the produce timeout.\<close>

fun await_reports :: "duration \<Rightarrow> nat \<Rightarrow> nat \<Rightarrow> kafka_event list \<Rightarrow> nat list \<Rightarrow> nat list \<times> go_error option" where
  "await_reports timeout cnt 0 evs ok = (ok, None)"
| "await_reports timeout cnt (Suc n) [] ok =
     (ok, Some (Errorf [Lit ''kafka producer: delivery timeout after '', Dur timeout, Lit '' with '',
                        D (int (length ok)), Lit ''/'', D (int cnt), Lit '' delivered'']))"
| "await_reports timeout cnt (Suc n) (CtxDone err # evs) ok = (ok, Some err)"
| "await_reports timeout cnt (Suc n) (TimeoutFired # evs) ok =
     (ok, Some (Errorf [Lit ''kafka producer: delivery timeout after '', Dur timeout, Lit '' with '',
                        D (int (length ok)), Lit ''/'', D (int cnt), Lit '' delivered'']))"
| "await_reports timeout cnt (Suc n) (OtherEvent # evs) ok = await_reports timeout cnt (Suc n) evs ok"
| "await_reports timeout cnt (Suc n) (Report i (Some err) # evs) ok = await_reports timeout cnt n evs ok"
| "await_reports timeout cnt (Suc n) (Report i None # evs) ok = await_reports timeout cnt n evs (ok @ [i])"

definition ProduceBatch :: "duration \<Rightarrow> kafka_env \<Rightarrow> KafkaMessage list \<Rightarrow> nat list \<times> go_error option" where
  "ProduceBatch timeout env msgs =
     (if length msgs = 0 then ([], None)
      else case enqueue_all (ke_produce env) 0 msgs of
             Some err \<Rightarrow> ([], Some err)
           | None \<Rightarrow> await_reports timeout (length msgs) (length msgs) (ke_events env) [])"

text \<open>The topic after the batch: the messages the brokers wrote are appended.\<close>

definition broker_append :: "kafka_env \<Rightarrow> KafkaMessage list \<Rightarrow> KafkaMessage list \<Rightarrow> KafkaMessage list" where
  "broker_append env msgs topic = topic @ map (\<lambda>i. msgs ! i) (filter (\<lambda>i. i < length msgs) (ke_written env))"

definition toKafkaHeaders :: "KafkaHeader list \<Rightarrow> (string \<times> bytes) list" where
  "toKafkaHeaders hs = (if length hs = 0 then [] else map (\<lambda>h. (kh_Key h, kh_Value h)) hs)"

section \<open>Draining\<close>

record 'k outbox_world =
  ow_pool :: pool_state
  ow_db :: db
  ow_kafka :: 'k

text \<open>A \<open>DrainPublisher\<close>, over the state \<open>'k\<close> of whatever it publishes to.\<close>

type_synonym 'k publisher = "OutboxEvent list \<Rightarrow> 'k \<Rightarrow> 'k \<times> UUID list result"

text \<open>The deferred rollback, whose error is dropped.\<close>

definition drop_rollback :: "db attempt_env \<Rightarrow> releasingTx \<Rightarrow> 'k outbox_world \<Rightarrow> 'k outbox_world" where
  "drop_rollback env t w = w\<lparr>ow_pool := fst (rt_Rollback env (ow_pool w) t)\<rparr>"

definition drain_tx ::
    "db attempt_env \<Rightarrow> (db \<Rightarrow> OutboxEvent list) \<Rightarrow> 'k publisher \<Rightarrow> releasingTx \<Rightarrow> 'k outbox_world
      \<Rightarrow> 'k outbox_world \<times> nat result" where
  "drain_tx env select publish tx w =
     (case at_stmt env 0 of
        Some err \<Rightarrow> (drop_rollback env tx w, Inl (Errorf [Lit ''repository: select pending: '', W err]))
      | None \<Rightarrow>
      let events = select (ow_db w) in
     (case (if events = [] then None else at_stmt env 1) of
        Some err \<Rightarrow> (drop_rollback env tx w, Inl (Errorf [Lit ''repository: scan pending: '', W err]))
      | None \<Rightarrow>
     (case at_stmt env 2 of
        Some err \<Rightarrow> (drop_rollback env tx w, Inl (Errorf [Lit ''repository: iterate pending: '', W err]))
      | None \<Rightarrow>
      if length events = 0 then
        (case rt_Commit env (ow_pool w) tx of
           (p, tx1, Some err) \<Rightarrow>
             (drop_rollback env tx1 (w\<lparr>ow_pool := p\<rparr>), Inl (Errorf [Lit ''repository: commit empty drain: '', W err]))
         | (p, tx1, None) \<Rightarrow> (w\<lparr>ow_pool := p\<rparr>, Inr 0))
      else
        (case publish events (ow_kafka w) of
           (k, Inl err) \<Rightarrow>
             (drop_rollback env tx (w\<lparr>ow_kafka := k\<rparr>), Inl (Errorf [Lit ''repository: drain publisher: '', W err]))
         | (k, Inr succeeded) \<Rightarrow>
             let w1 = w\<lparr>ow_kafka := k\<rparr> in
             if length succeeded = 0 then
               (case rt_Rollback env (ow_pool w1) tx of
                  (p, tx1, Some err) \<Rightarrow>
                    if \<not> errors_Is err PgxErrTxClosed
                    then (drop_rollback env tx1 (w1\<lparr>ow_pool := p\<rparr>),
                          Inl (Errorf [Lit ''repository: rollback empty success: '', W err]))
                    else (w1\<lparr>ow_pool := p\<rparr>, Inr 0)
                | (p, tx1, None) \<Rightarrow> (w1\<lparr>ow_pool := p\<rparr>, Inr 0))
             else
               (case at_stmt env 3 of
                  Some err \<Rightarrow> (drop_rollback env tx w1, Inl (Errorf [Lit ''repository: mark published: '', W err]))
                | None \<Rightarrow>
                    let (d', n) = mark_published succeeded (ow_db w1)
                    in (case rt_Commit env (ow_pool w1) tx of
                         (p, tx1, Some err) \<Rightarrow>
                           let db' = (case at_commit env of
                                        CommitFails e applied \<Rightarrow> if applied then d' else ow_db w1
                                      | CommitOk \<Rightarrow> d')
                           in (drop_rollback env tx1 (w1\<lparr>ow_pool := p, ow_db := db'\<rparr>),
                               Inl (Errorf [Lit ''repository: commit drain: '', W err]))
                       | (p, tx1, None) \<Rightarrow> (w1\<lparr>ow_pool := p, ow_db := d'\<rparr>, Inr n)))))))"

definition drain ::
    "PoolConfig \<Rightarrow> db attempt_env \<Rightarrow> (db \<Rightarrow> OutboxEvent list) \<Rightarrow> 'k publisher option \<Rightarrow> 'k outbox_world
      \<Rightarrow> 'k outbox_world \<times> nat result" where
  "drain acquireCfg env select publish w0 =
     (case publish of
        None \<Rightarrow> (w0, Inl (Errorf [Lit ''repository: drain publisher is required'']))
      | Some pub \<Rightarrow>
        let w = w0\<lparr>ow_db := at_before env (ow_db w0)\<rparr>
        in (case BeginTxWithAcquire acquireCfg env (ow_pool w) of
             (p, Inl err) \<Rightarrow> (w\<lparr>ow_pool := p\<rparr>, Inl (Errorf [Lit ''repository: begin outbox tx: '', W err]))
           | (p, Inr tx) \<Rightarrow> drain_tx env select pub tx (w\<lparr>ow_pool := p\<rparr>)))"

definition Drain ::
    "PoolConfig \<Rightarrow> db attempt_env \<Rightarrow> UUID set \<Rightarrow> int \<Rightarrow> 'k publisher option \<Rightarrow> 'k outbox_world
      \<Rightarrow> 'k outbox_world \<times> nat result" where
  "Drain acquireCfg env locked batchSize publish w =
     drain acquireCfg env (select_pending None (nat batchSize) locked) publish w"

definition DrainStale ::
    "PoolConfig \<Rightarrow> db attempt_env \<Rightarrow> UUID set \<Rightarrow> instant \<Rightarrow> duration \<Rightarrow> int \<Rightarrow> 'k publisher option
      \<Rightarrow> 'k outbox_world \<Rightarrow> 'k outbox_world \<times> nat result" where
  "DrainStale acquireCfg env locked now staleAfter batchSize publish w =
     (let cutoff = now - staleAfter
      in drain acquireCfg env (select_pending (Some cutoff) (nat batchSize) locked) publish w)"

definition CountStalePending :: "go_error option \<Rightarrow> instant \<Rightarrow> duration \<Rightarrow> db \<Rightarrow> nat result" where
  "CountStalePending fault now staleAfter d =
     (let cutoff = now - staleAfter
      in case fault of
           Some err \<Rightarrow> Inl (Errorf [Lit ''repository: count stale pending: '', W err])
         | None \<Rightarrow> Inr (count_stale_pending cutoff d))"

text \<open>\<open>SUM\<close> of no rows is NULL and becomes the text of the integer 0; other sums have scale 4.\<close>

definition LedgerSumZeroCheck :: "go_error option \<Rightarrow> db \<Rightarrow> (string \<times> bool) result" where
  "LedgerSumZeroCheck fault d =
     (case fault of
        Some err \<Rightarrow> Inl (Errorf [Lit ''repository: sum-zero check: '', W err])
      | None \<Rightarrow>
          let s = (if journal_entries d = [] then ''0'' else numeric_out (sum_amounts d))
          in Inr (s, s = ''0'' \<or> s = ''0.0000''))"

text \<open>The faults are those of the query, of scanning a row, and of the iteration after some rows.\<close>

definition UnbalancedTransactionIDs ::
    "go_error option \<Rightarrow> go_error option \<Rightarrow> (nat \<times> go_error) option \<Rightarrow> int \<Rightarrow> db \<Rightarrow> UUID list \<times> go_error option" where
  "UnbalancedTransactionIDs fault scan iter limit d =
     (case fault of
        Some err \<Rightarrow> ([], Some (Errorf [Lit ''repository: unbalanced tx scan: '', W err]))
      | None \<Rightarrow>
          let out = select_unbalanced (nat limit) d
          in (case (if out = [] then None else scan) of
                Some err \<Rightarrow> ([], Some (Errorf [Lit ''repository: scan unbalanced tx id: '', W err]))
              | None \<Rightarrow> (case iter of Some (n, err) \<Rightarrow> (take n out, Some err) | None \<Rightarrow> (out, None))))"

section \<open>The relay worker\<close>

record OutboxWorkerConfig =
  ow_Topic :: string
  ow_BatchSize :: int
  ow_PollInterval :: duration
  ow_IdleInterval :: duration
  ow_BackoffOnError :: duration
  ow_MaxConcurrency :: int

definition defaultWorkerConfig :: OutboxWorkerConfig where
  "defaultWorkerConfig = \<lparr>ow_Topic = ''fintech.ledger.transactions'', ow_BatchSize = 100,
     ow_PollInterval = 100 * Millisecond, ow_IdleInterval = 500 * Millisecond,
     ow_BackoffOnError = 1 * Second, ow_MaxConcurrency = 4\<rparr>"

definition NewOutboxWorker :: "OutboxWorkerConfig \<Rightarrow> OutboxWorkerConfig" where
  "NewOutboxWorker cfg =
     (let def = defaultWorkerConfig;
          cfg = (if ow_Topic cfg = [] then cfg\<lparr>ow_Topic := ow_Topic def\<rparr> else cfg);
          cfg = (if ow_BatchSize cfg \<le> 0 then cfg\<lparr>ow_BatchSize := ow_BatchSize def\<rparr> else cfg);
          cfg = (if ow_PollInterval cfg \<le> 0 then cfg\<lparr>ow_PollInterval := ow_PollInterval def\<rparr> else cfg);
          cfg = (if ow_IdleInterval cfg \<le> 0 then cfg\<lparr>ow_IdleInterval := ow_IdleInterval def\<rparr> else cfg);
          cfg = (if ow_BackoffOnError cfg \<le> 0 then cfg\<lparr>ow_BackoffOnError := ow_BackoffOnError def\<rparr> else cfg)
      in (if ow_MaxConcurrency cfg \<le> 0 then cfg\<lparr>ow_MaxConcurrency := ow_MaxConcurrency def\<rparr> else cfg))"

definition event_message :: "(UUID \<Rightarrow> string) \<Rightarrow> string \<Rightarrow> OutboxEvent \<Rightarrow> KafkaMessage" where
  "event_message ustr topic e =
     \<lparr>km_Topic = topic, km_Key = ustr (ob_AggregateID e), km_Value = ob_Payload e,
      km_Headers = [\<lparr>kh_Key = ''aggregate_type'', kh_Value = ob_AggregateType e\<rparr>,
                    \<lparr>kh_Key = ''outbox_event_id'', kh_Value = ustr (ob_ID e)\<rparr>]\<rparr>"

text \<open>The ids of the delivered indexes; an index outside the batch is skipped.\<close>

definition succeeded_ids :: "OutboxEvent list \<Rightarrow> nat list \<Rightarrow> UUID list" where
  "succeeded_ids events idxs = map (\<lambda>i. ob_ID (events ! i)) (filter (\<lambda>i. i < length events) idxs)"

definition publishBatch ::
    "(UUID \<Rightarrow> string) \<Rightarrow> OutboxWorkerConfig \<Rightarrow> duration \<Rightarrow> kafka_env \<Rightarrow> KafkaMessage list publisher" where
  "publishBatch ustr cfg timeout ke events topic =
     (if length events = 0 then (topic, Inr [])
      else let msgs = map (event_message ustr (ow_Topic cfg)) events
           in case ProduceBatch timeout ke msgs of (successIdx, err) \<Rightarrow>
                (broker_append ke msgs topic,
                 case err of
                   Some e \<Rightarrow> if \<not> errors_Is e ContextCanceled then Inl e
                             else Inr (succeeded_ids events successIdx)
                 | None \<Rightarrow> Inr (succeeded_ids events successIdx)))"

definition outbox_tick ::
    "(UUID \<Rightarrow> string) \<Rightarrow> PoolConfig \<Rightarrow> OutboxWorkerConfig \<Rightarrow> duration \<Rightarrow> db attempt_env \<Rightarrow> UUID set \<Rightarrow> kafka_env
      \<Rightarrow> KafkaMessage list outbox_world \<Rightarrow> KafkaMessage list outbox_world \<times> nat result" where
  "outbox_tick ustr pc cfg timeout env locked ke w =
     Drain pc env locked (ow_BatchSize cfg) (Some (publishBatch ustr cfg timeout ke)) w"

text \<open>One turn of \<open>runOne\<close>: whether the context is done before it, the driver's and the brokers'
  answers, and when, if at all, the context is cancelled during the sleep after it. The loop runs over a list of turns; the
  result has the state, the waits, and whether the loop returned.\<close>

record outbox_turn =
  ot_ctx_err :: bool
  ot_env :: "db attempt_env"
  ot_locked :: "UUID set"
  ot_kafka :: kafka_env
  ot_cancel :: "duration option"

text \<open>The wait of \<open>sleep\<close>: the context is cancelled after the given time, or not during it. When both
  channels are ready Go picks either; a cancellation that loses is \<^const>\<open>None\<close> here and seen by the next
  turn.\<close>

definition sleep :: "duration option \<Rightarrow> duration \<Rightarrow> bool" where
  "sleep cancel d = (case cancel of None \<Rightarrow> True | Some c \<Rightarrow> d < c)"

lemma sleep_completes [simp]: "sleep None d"
  by (simp add: sleep_def)

definition turn_wait :: "OutboxWorkerConfig \<Rightarrow> nat result \<Rightarrow> duration" where
  "turn_wait cfg r =
     (case r of Inl err \<Rightarrow> ow_BackoffOnError cfg
      | Inr drained \<Rightarrow> if drained = 0 then ow_IdleInterval cfg else ow_PollInterval cfg)"

fun runOne ::
    "(UUID \<Rightarrow> string) \<Rightarrow> PoolConfig \<Rightarrow> OutboxWorkerConfig \<Rightarrow> duration \<Rightarrow> outbox_turn list
      \<Rightarrow> KafkaMessage list outbox_world \<Rightarrow> KafkaMessage list outbox_world \<times> duration list \<times> bool" where
  "runOne ustr pc cfg timeout [] w = (w, [], False)"
| "runOne ustr pc cfg timeout (t # ts) w =
     (if ot_ctx_err t then (w, [], True)
      else case outbox_tick ustr pc cfg timeout (ot_env t) (ot_locked t) (ot_kafka t) w of (w1, r) \<Rightarrow>
             let d = turn_wait cfg r
             in if \<not> sleep (ot_cancel t) d then (w1, [d], True)
                else case runOne ustr pc cfg timeout ts w1 of (w2, ds, stopped) \<Rightarrow> (w2, d # ds, stopped))"

section \<open>The reconciler\<close>

record ReconcilerConfig =
  StaleAfter :: duration
  rc_BatchSize :: int
  DrilldownLimit :: int

definition defaultReconcilerConfig :: ReconcilerConfig where
  "defaultReconcilerConfig = \<lparr>StaleAfter = 5 * Minute, rc_BatchSize = 500, DrilldownLimit = 50\<rparr>"

record Reconciler =
  rc_topic :: string
  rc_cfg :: ReconcilerConfig

definition NewReconciler :: "string \<Rightarrow> ReconcilerConfig \<Rightarrow> Reconciler" where
  "NewReconciler topic cfg =
     (let def = defaultReconcilerConfig;
          cfg = (if StaleAfter cfg \<le> 0 then cfg\<lparr>StaleAfter := StaleAfter def\<rparr> else cfg);
          cfg = (if rc_BatchSize cfg \<le> 0 then cfg\<lparr>rc_BatchSize := rc_BatchSize def\<rparr> else cfg);
          cfg = (if DrilldownLimit cfg \<le> 0 then cfg\<lparr>DrilldownLimit := DrilldownLimit def\<rparr> else cfg);
          topic = (if topic = [] then ''fintech.ledger.transactions'' else topic)
      in \<lparr>rc_topic = topic, rc_cfg = cfg\<rparr>)"

record ReconcilerResult =
  OutboxDrained :: nat
  StalePendingObserved :: nat
  LedgerSum :: string
  LedgerInvariantOK :: bool
  UnbalancedTxIDs :: "UUID list"

definition stale_message :: "(UUID \<Rightarrow> string) \<Rightarrow> string \<Rightarrow> OutboxEvent \<Rightarrow> KafkaMessage" where
  "stale_message ustr topic e =
     (event_message ustr topic e)\<lparr>km_Headers := km_Headers (event_message ustr topic e)
        @ [\<lparr>kh_Key = ''x-reconciler'', kh_Value = ''true''\<rparr>]\<rparr>"

definition publishStaleBatch ::
    "(UUID \<Rightarrow> string) \<Rightarrow> string \<Rightarrow> duration \<Rightarrow> kafka_env \<Rightarrow> KafkaMessage list publisher" where
  "publishStaleBatch ustr tp timeout ke events topic =
     (if length events = 0 then (topic, Inr [])
      else let msgs = map (stale_message ustr tp) events
           in case ProduceBatch timeout ke msgs of (successIdx, err) \<Rightarrow>
                (broker_append ke msgs topic,
                 case err of
                   Some e \<Rightarrow> Inl (Errorf [Lit ''reconciler: produce stale batch: '', W e])
                 | None \<Rightarrow> Inr (succeeded_ids events successIdx)))"

text \<open>The answers of the driver and the brokers during one cycle, and its clock readings.\<close>

record recon_env =
  re_now_count :: instant
  re_now_drain :: instant
  re_count :: "go_error option"
  re_env :: "db attempt_env"
  re_locked :: "UUID set"
  re_kafka :: kafka_env
  re_sum :: "go_error option"
  re_drill :: "go_error option"
  re_drill_scan :: "go_error option"
  re_drill_iter :: "(nat \<times> go_error) option"

definition RunOnce ::
    "(UUID \<Rightarrow> string) \<Rightarrow> PoolConfig \<Rightarrow> duration \<Rightarrow> Reconciler \<Rightarrow> recon_env \<Rightarrow> KafkaMessage list outbox_world
      \<Rightarrow> KafkaMessage list outbox_world \<times> ReconcilerResult" where
  "RunOnce ustr pc timeout r re w =
     (let cfg = rc_cfg r;
          result = \<lparr>OutboxDrained = 0, StalePendingObserved = 0, LedgerSum = [], LedgerInvariantOK = False,
                    UnbalancedTxIDs = []\<rparr>;
          result = (case CountStalePending (re_count re) (re_now_count re) (StaleAfter cfg) (ow_db w) of
                      Inl err \<Rightarrow> result
                    | Inr n \<Rightarrow> result\<lparr>StalePendingObserved := n\<rparr>)
      in case DrainStale pc (re_env re) (re_locked re) (re_now_drain re) (StaleAfter cfg) (rc_BatchSize cfg)
                (Some (publishStaleBatch ustr (rc_topic r) timeout (re_kafka re))) w of
           (w1, res) \<Rightarrow>
             let result = result\<lparr>OutboxDrained := (case res of Inl err \<Rightarrow> 0 | Inr n \<Rightarrow> n)\<rparr>
             in (case LedgerSumZeroCheck (re_sum re) (ow_db w1) of
                  Inl err \<Rightarrow> (w1, result)
                | Inr (s, ok) \<Rightarrow>
                    let result = result\<lparr>LedgerSum := s, LedgerInvariantOK := ok\<rparr>
                    in if ok then (w1, result)
                       else (w1, result\<lparr>UnbalancedTxIDs :=
                              fst (UnbalancedTransactionIDs (re_drill re) (re_drill_scan re) (re_drill_iter re) (DrilldownLimit cfg) (ow_db w1))\<rparr>)))"

end
