(* ===== verification/Breaker.thy ===== *)
theory Breaker
  imports Prelude Complex_Main
begin

text \<open>
  \<open>internal/repository/breaker.go\<close>: the circuit breaker per (tenant, method) key, first as
  operations that run without interruption, then \<open>Allow\<close> again as the atomic loads, stores and
  compare-and-swaps it is made of, for interleavings of concurrent callers. Ratios are exact
  rationals in place of float64.
\<close>

section \<open>Data\<close>

datatype CircuitState = CircuitClosed | CircuitHalfOpen | CircuitOpen

text \<open>The two metric handles are only tested for nil.\<close>

record BreakerConfig =
  FailureRatio :: rat
  MinSamples :: int
  Window :: duration
  OpenDuration :: duration
  MetricsState :: bool
  MetricsOutcomes :: bool

definition DefaultBreakerConfig :: BreakerConfig where
  "DefaultBreakerConfig = \<lparr>FailureRatio = 5 / 100, MinSamples = 20, Window = 30 * Second,
     OpenDuration = 1 * Second, MetricsState = False, MetricsOutcomes = False\<rparr>"

record breakerEntry =
  be_state :: CircuitState
  windowStartNanos :: int
  be_total :: int
  be_failures :: int
  openedAtNanos :: int
  trialIssued :: bool

datatype breaker_metric =
    StateGauge string string CircuitState
  | OutcomeCounter string string string

record Breaker =
  br_cfg :: BreakerConfig
  br_keys :: "string \<Rightarrow> breakerEntry option"
  br_metrics :: "breaker_metric list"

section \<open>Operations\<close>

definition NewBreaker :: "BreakerConfig \<Rightarrow> Breaker" where
  "NewBreaker cfg =
     \<lparr>br_cfg = (if Window cfg = 0 then DefaultBreakerConfig else cfg), br_keys = (\<lambda>_. None), br_metrics = []\<rparr>"

definition BreakerKey :: "string \<Rightarrow> string \<Rightarrow> string" where
  "BreakerKey tenant method = tenant @ ''|'' @ method"

fun splitKey :: "string \<Rightarrow> string \<times> string" where
  "splitKey [] = ([], [])"
| "splitKey (c # key) =
     (if c = CHR ''|'' then ([], key) else case splitKey key of (t, m) \<Rightarrow> (c # t, m))"

text \<open>\<open>b.now()\<close> is read once per operation here.\<close>

definition fresh_entry :: "instant \<Rightarrow> breakerEntry" where
  "fresh_entry now = \<lparr>be_state = CircuitClosed, windowStartNanos = UnixNano now, be_total = 0,
     be_failures = 0, openedAtNanos = 0, trialIssued = False\<rparr>"

definition br_entry :: "Breaker \<Rightarrow> instant \<Rightarrow> string \<Rightarrow> Breaker \<times> breakerEntry" where
  "br_entry b now key =
     (case br_keys b key of
        Some e \<Rightarrow> (b, e)
      | None \<Rightarrow> (b\<lparr>br_keys := (br_keys b)(key \<mapsto> fresh_entry now)\<rparr>, fresh_entry now))"

definition observeState :: "Breaker \<Rightarrow> string \<Rightarrow> CircuitState \<Rightarrow> Breaker" where
  "observeState b key s =
     (if \<not> MetricsState (br_cfg b) then b
      else case splitKey key of (tenant, method) \<Rightarrow>
        b\<lparr>br_metrics := br_metrics b @ [StateGauge tenant method s]\<rparr>)"

text \<open>\<open>CompareAndSwap(false, true)\<close>.\<close>

definition tryHalfOpenTrial :: "breakerEntry \<Rightarrow> breakerEntry \<times> bool" where
  "tryHalfOpenTrial e =
     (if trialIssued e then (e, False) else (e\<lparr>trialIssued := True\<rparr>, True))"

definition store_entry :: "Breaker \<Rightarrow> string \<Rightarrow> breakerEntry \<Rightarrow> Breaker" where
  "store_entry b key e = b\<lparr>br_keys := (br_keys b)(key \<mapsto> e)\<rparr>"

definition cooled :: "BreakerConfig \<Rightarrow> instant \<Rightarrow> breakerEntry \<Rightarrow> bool" where
  "cooled cfg now e \<longleftrightarrow> UnixNano now \<ge> to_int64 (openedAtNanos e + to_int64 (OpenDuration cfg))"

definition Allow :: "Breaker \<Rightarrow> instant \<Rightarrow> string \<Rightarrow> Breaker \<times> bool" where
  "Allow b now key =
     (case br_entry b now key of (b1, e) \<Rightarrow>
        (case be_state e of
           CircuitClosed \<Rightarrow> (b1, True)
         | CircuitOpen \<Rightarrow>
             if cooled (br_cfg b1) now e
             then let e1 = e\<lparr>be_state := CircuitHalfOpen, trialIssued := False\<rparr>;
                      b2 = observeState b1 key CircuitHalfOpen;
                      (e2, ok) = tryHalfOpenTrial e1
                  in (store_entry b2 key e2, ok)
             else (b1, False)
         | CircuitHalfOpen \<Rightarrow>
             (case tryHalfOpenTrial e of (e1, ok) \<Rightarrow> (store_entry b1 key e1, ok))))"

definition resetCounters :: "breakerEntry \<Rightarrow> instant \<Rightarrow> breakerEntry" where
  "resetCounters e now = e\<lparr>windowStartNanos := UnixNano now, be_total := 0, be_failures := 0\<rparr>"

definition maybeReset :: "breakerEntry \<Rightarrow> instant \<Rightarrow> duration \<Rightarrow> breakerEntry" where
  "maybeReset e now window =
     (if to_int64 (UnixNano now - windowStartNanos e) < to_int64 window then e
      else e\<lparr>windowStartNanos := UnixNano now, be_total := 0, be_failures := 0\<rparr>)"

definition observeOutcome :: "Breaker \<Rightarrow> string \<Rightarrow> bool \<Rightarrow> Breaker" where
  "observeOutcome b key capReached =
     (if MetricsOutcomes (br_cfg b)
      then let outcome = (if capReached then ''cap_reached'' else ''ok'')
           in case splitKey key of (tenant, method) \<Rightarrow>
                b\<lparr>br_metrics := br_metrics b @ [OutcomeCounter tenant method outcome]\<rparr>
      else b)"

definition RecordOutcome :: "Breaker \<Rightarrow> instant \<Rightarrow> string \<Rightarrow> bool \<Rightarrow> Breaker" where
  "RecordOutcome b now key capReached =
     (case br_entry b now key of (b1, e) \<Rightarrow>
       let b1 = observeOutcome b1 key capReached;
           state = be_state e
       in if state = CircuitHalfOpen
          then if capReached
               then observeState (store_entry b1 key
                      (e\<lparr>openedAtNanos := UnixNano now, be_state := CircuitOpen, trialIssued := False\<rparr>))
                      key CircuitOpen
               else observeState (store_entry b1 key
                      ((resetCounters e now)\<lparr>be_state := CircuitClosed, trialIssued := False\<rparr>))
                      key CircuitClosed
          else let e1 = maybeReset e now (Window (br_cfg b1));
                   e2 = e1\<lparr>be_total := be_total e1 + 1\<rparr>;
                   e3 = (if capReached then e2\<lparr>be_failures := be_failures e2 + 1\<rparr> else e2);
                   n = be_total e3; f = be_failures e3
               in if n < MinSamples (br_cfg b1) then store_entry b1 key e3
                  else if rat_of_int f / rat_of_int n \<ge> FailureRatio (br_cfg b1) \<and> state = CircuitClosed
                       then observeState (store_entry b1 key
                              (e3\<lparr>openedAtNanos := UnixNano now, be_state := CircuitOpen\<rparr>))
                              key CircuitOpen
                       else store_entry b1 key e3)"

definition br_State :: "Breaker \<Rightarrow> instant \<Rightarrow> string \<Rightarrow> Breaker \<times> CircuitState" where
  "br_State b now key = (case br_entry b now key of (b1, e) \<Rightarrow> (b1, be_state e))"

section \<open>Sequences of operations\<close>

datatype br_op = OpAllow instant | OpRecord instant bool

fun br_step :: "string \<Rightarrow> Breaker \<Rightarrow> br_op \<Rightarrow> Breaker \<times> bool option" where
  "br_step key b (OpAllow now) = (case Allow b now key of (b', ok) \<Rightarrow> (b', Some ok))"
| "br_step key b (OpRecord now cap) = (RecordOutcome b now key cap, None)"

fun br_run :: "string \<Rightarrow> Breaker \<Rightarrow> br_op list \<Rightarrow> Breaker \<times> bool list" where
  "br_run key b [] = (b, [])"
| "br_run key b (op # ops) =
     (case br_step key b op of (b1, r) \<Rightarrow>
        case br_run key b1 ops of (b2, rs) \<Rightarrow> (b2, (case r of Some ok \<Rightarrow> ok # rs | None \<Rightarrow> rs)))"

section \<open>Lemmas\<close>

lemma br_keys_observeState [simp]: "br_keys (observeState b k s) = br_keys b"
  and br_cfg_observeState [simp]: "br_cfg (observeState b k s) = br_cfg b"
  by (simp_all add: observeState_def split: prod.split)

lemma br_keys_observeOutcome [simp]: "br_keys (observeOutcome b k c) = br_keys b"
  and br_cfg_observeOutcome [simp]: "br_cfg (observeOutcome b k c) = br_cfg b"
  by (simp_all add: observeOutcome_def Let_def split: prod.split)

lemma br_cfg_entry [simp]: "br_cfg (fst (br_entry b now key)) = br_cfg b"
  and br_keys_entry: "k \<noteq> key \<Longrightarrow> br_keys (fst (br_entry b now key)) k = br_keys b k"
  by (simp_all add: br_entry_def split: option.split)

lemma br_cfg_store [simp]: "br_cfg (store_entry b k e) = br_cfg b"
  and br_keys_store [simp]: "br_keys (store_entry b k e) = (br_keys b)(k \<mapsto> e)"
  by (simp_all add: store_entry_def)

lemma splitKey_BreakerKey: "CHR ''|'' \<notin> set t \<Longrightarrow> splitKey (BreakerKey t m) = (t, m)"
  unfolding BreakerKey_def by (induction t) auto

lemma BreakerKey_inj:
  assumes "BreakerKey t m = BreakerKey t' m'" "CHR ''|'' \<notin> set m" "CHR ''|'' \<notin> set m'"
  shows "t = t' \<and> m = m'"
  using assms separated_inj_right [of t "CHR ''|''" m t' m'] by (simp add: BreakerKey_def)

text \<open>Operations on one key leave every other key alone.\<close>

lemma Allow_other: "k \<noteq> key \<Longrightarrow> br_keys (fst (Allow b now key)) k = br_keys b k"
  by (auto simp: Allow_def br_entry_def tryHalfOpenTrial_def Let_def
      split: option.splits CircuitState.splits prod.splits)

lemma RecordOutcome_other: "k \<noteq> key \<Longrightarrow> br_keys (RecordOutcome b now key cap) k = br_keys b k"
  by (simp add: RecordOutcome_def Let_def case_prod_beta br_keys_entry
      if_distrib [where f = "\<lambda>b. br_keys b k"] del: if_split)

lemma br_cfg_Allow [simp]: "br_cfg (fst (Allow b now key)) = br_cfg b"
  by (auto simp: Allow_def br_entry_def tryHalfOpenTrial_def Let_def
      split: option.splits CircuitState.splits prod.splits)

lemma br_cfg_RecordOutcome [simp]: "br_cfg (RecordOutcome b now key cap) = br_cfg b"
  by (simp add: RecordOutcome_def Let_def case_prod_beta if_distrib [where f = br_cfg] del: if_split)

lemma Allow_half_open:
  assumes "br_keys b key = Some e" "be_state e = CircuitHalfOpen" "trialIssued e"
  shows "Allow b now key = (store_entry b key e, False)"
  using assms by (simp add: Allow_def br_entry_def tryHalfOpenTrial_def)

lemma store_same: "br_keys b key = Some e \<Longrightarrow> store_entry b key e = b"
  by (simp add: store_entry_def fun_upd_idem)

lemma half_open_issued_stuck:
  assumes "br_keys b key = Some e" "be_state e = CircuitHalfOpen" "trialIssued e"
  shows "br_run key b (map OpAllow ts) = (b, map (\<lambda>_. False) ts)"
  using assms by (induction ts) (simp_all add: Allow_half_open store_same)

lemma Allow_opens_trial:
  assumes "br_keys b key = Some e" "be_state e = CircuitOpen" "cooled (br_cfg b) now e"
  shows "\<exists>b'. Allow b now key = (b', True)
    \<and> br_keys b' key = Some (e\<lparr>be_state := CircuitHalfOpen, trialIssued := True\<rparr>)"
  using assms by (simp add: Allow_def br_entry_def tryHalfOpenTrial_def Let_def)

lemma Allow_still_open:
  assumes "br_keys b key = Some e" "be_state e = CircuitOpen" "\<not> cooled (br_cfg b) now e"
  shows "Allow b now key = (b, False)"
  using assms by (simp add: Allow_def br_entry_def)

lemma open_rejects:
  assumes "br_keys b key = Some e" "be_state e = CircuitOpen"
  shows "list_all (\<lambda>t. \<not> cooled (br_cfg b) t e) ts \<Longrightarrow>
    br_run key b (map OpAllow ts) = (b, map (\<lambda>_. False) ts)"
  using assms by (induction ts) (simp_all add: Allow_still_open)

lemma RecordOutcome_half_open:
  assumes "br_keys b key = Some e" "be_state e = CircuitHalfOpen"
  shows "br_keys (RecordOutcome b now key cap) key =
    Some (if cap then e\<lparr>openedAtNanos := UnixNano now, be_state := CircuitOpen, trialIssued := False\<rparr>
          else (resetCounters e now)\<lparr>be_state := CircuitClosed, trialIssued := False\<rparr>)"
  using assms by (auto simp: RecordOutcome_def br_entry_def Let_def split: prod.splits)

lemma cooled_plain:
  assumes "0 \<le> openedAtNanos e" "openedAtNanos e < 2 ^ 62" "0 \<le> OpenDuration cfg" "OpenDuration cfg < 2 ^ 62"
    and "in_int64 now"
  shows "cooled cfg now e \<longleftrightarrow> openedAtNanos e + OpenDuration cfg \<le> now"
proof -
  have "to_int64 (OpenDuration cfg) = OpenDuration cfg" "UnixNano now = now"
    "to_int64 (openedAtNanos e + OpenDuration cfg) = openedAtNanos e + OpenDuration cfg"
    using assms by (auto simp: UnixNano_def in_int64_def intro!: to_int64_id)
  then show ?thesis by (simp add: cooled_def)
qed

text \<open>Counting in Closed: while the window has not expired, the counters are the numbers of
  outcomes and of cap-reached outcomes since it began.\<close>

lemma RecordOutcome_closed:
  assumes "br_keys b key = Some e" "be_state e = CircuitClosed"
    and "to_int64 (UnixNano now - windowStartNanos e) < to_int64 (Window (br_cfg b))"
  shows "br_keys (RecordOutcome b now key cap) key =
    (let n = be_total e + 1; f = be_failures e + (if cap then 1 else 0);
         e' = e\<lparr>be_total := n, be_failures := f\<rparr>
     in Some (if MinSamples (br_cfg b) \<le> n \<and> FailureRatio (br_cfg b) \<le> rat_of_int f / rat_of_int n
              then e'\<lparr>openedAtNanos := UnixNano now, be_state := CircuitOpen\<rparr> else e'))"
  using assms by (auto simp: RecordOutcome_def br_entry_def Let_def maybeReset_def split: prod.splits)

text \<open>The share of cap-reached outcomes, the condition that trips, and a window that has just
  begun.\<close>

definition fail_ratio :: "(instant \<times> bool) list \<Rightarrow> rat" where
  "fail_ratio os = rat_of_int (int (length (filter snd os))) / rat_of_int (int (length os))"

definition trips :: "BreakerConfig \<Rightarrow> (instant \<times> bool) list \<Rightarrow> bool" where
  "trips cfg os \<longleftrightarrow> MinSamples cfg \<le> int (length os) \<and> FailureRatio cfg \<le> fail_ratio os"

definition fresh_window :: "Breaker \<Rightarrow> string \<Rightarrow> breakerEntry \<Rightarrow> bool" where
  "fresh_window b key e \<longleftrightarrow> br_keys b key = Some e \<and> be_state e = CircuitClosed \<and> be_total e = 0
     \<and> be_failures e = 0 \<and> 0 \<le> windowStartNanos e \<and> in_int64 (Window (br_cfg b))"

definition in_window :: "Breaker \<Rightarrow> breakerEntry \<Rightarrow> instant \<Rightarrow> bool" where
  "in_window b e t \<longleftrightarrow> windowStartNanos e \<le> t \<and> t < windowStartNanos e + Window (br_cfg b) \<and> t < 2 ^ 63"

text \<open>The entry after the outcomes \<open>os\<close> in the window that began at \<open>w\<close>.\<close>

definition counted :: "Breaker \<Rightarrow> string \<Rightarrow> breakerEntry \<Rightarrow> int \<Rightarrow> (instant \<times> bool) list \<Rightarrow> bool" where
  "counted b key e w os \<longleftrightarrow> br_keys b key = Some e \<and> be_state e = CircuitClosed
     \<and> windowStartNanos e = w \<and> 0 \<le> w \<and> in_int64 (Window (br_cfg b))
     \<and> be_total e = int (length os) \<and> be_failures e = int (length (filter snd os))"

lemma br_run_append:
  "br_run key b (xs @ ys) =
     (case br_run key b xs of (b1, r1) \<Rightarrow> case br_run key b1 ys of (b2, r2) \<Rightarrow> (b2, r1 @ r2))"
  by (induction xs arbitrary: b) (auto split: prod.splits option.splits)

lemma RecordOutcome_counts:
  assumes "counted b key e w os" "in_window b e t"
  shows "br_keys (RecordOutcome b t key cap) key =
    (let os' = os @ [(t, cap)];
         e' = e\<lparr>be_total := int (length os'), be_failures := int (length (filter snd os'))\<rparr>
     in Some (if trips (br_cfg b) os'
              then e'\<lparr>openedAtNanos := UnixNano t, be_state := CircuitOpen\<rparr> else e'))"
proof -
  have c: "br_keys b key = Some e" "be_state e = CircuitClosed" "0 \<le> windowStartNanos e"
    "in_int64 (Window (br_cfg b))" "be_total e = int (length os)"
    "be_failures e = int (length (filter snd os))"
    using assms(1) by (auto simp: counted_def)
  have "UnixNano t = t" "to_int64 (t - windowStartNanos e) = t - windowStartNanos e"
    using assms(2) c(3) by (auto simp: UnixNano_def in_window_def in_int64_def intro!: to_int64_id)
  then have "to_int64 (UnixNano t - windowStartNanos e) < to_int64 (Window (br_cfg b))"
    using assms(2) c(4) by (simp add: in_window_def to_int64_id)
  from RecordOutcome_closed [OF c(1,2) this, of cap] show ?thesis
    by (cases cap; auto simp: Let_def trips_def fail_ratio_def c(5,6) add.commute)
qed

lemma closed_counts:
  assumes "fresh_window b key e" "list_all (\<lambda>(t, cap). in_window b e t) os"
    and "\<forall>k \<in> {1..length os}. \<not> trips (br_cfg b) (take k os)"
  shows "\<exists>b' e'. br_run key b (map (\<lambda>(t, cap). OpRecord t cap) os) = (b', [])
      \<and> br_cfg b' = br_cfg b \<and> counted b' key e' (windowStartNanos e) os"
  using assms(2,3)
proof (induction os rule: rev_induct)
  case Nil
  then show ?case using assms(1) by (auto simp: fresh_window_def counted_def)
next
  case (snoc x os)
  obtain t cap where x: "x = (t, cap)" by (cases x)
  have "\<not> trips (br_cfg b) (take k os)" if "k \<in> {1..length os}" for k
    using snoc.prems(2) [rule_format, of k] that by simp
  then obtain b1 e1 where 1: "br_run key b (map (\<lambda>(t, cap). OpRecord t cap) os) = (b1, [])"
      "br_cfg b1 = br_cfg b" "counted b1 key e1 (windowStartNanos e) os"
    using snoc.IH snoc.prems(1) by auto
  have win: "in_window b1 e1 t"
    using snoc.prems(1) 1 by (simp add: x in_window_def counted_def)
  have "\<not> trips (br_cfg b1) (os @ [(t, cap)])"
    using snoc.prems(2) [rule_format, of "Suc (length os)"] 1(2) by (simp add: x)
  with RecordOutcome_counts [OF 1(3) win, of cap] 1 show ?case
    by (auto simp: br_run_append x Let_def counted_def)
qed

section \<open>Allow as atomic steps\<close>

text \<open>The program counter of a caller of \<open>Allow\<close> for one entry: before the state load, after it,
  after winning the swap to half-open with the reset of the trial flag still to come, before
  the swap on the trial flag, and returned.\<close>

datatype allow_pc = AStart | ALoaded CircuitState | AReset | ATrial | ADone bool

fun allow_atomic :: "BreakerConfig \<Rightarrow> instant \<Rightarrow> breakerEntry \<Rightarrow> allow_pc \<Rightarrow> breakerEntry \<times> allow_pc" where
  "allow_atomic cfg now e AStart = (e, ALoaded (be_state e))"
| "allow_atomic cfg now e (ALoaded CircuitClosed) = (e, ADone True)"
| "allow_atomic cfg now e (ALoaded CircuitOpen) =
     (if \<not> cooled cfg now e then (e, ADone False)
      else if be_state e = CircuitOpen then (e\<lparr>be_state := CircuitHalfOpen\<rparr>, AReset)
      else (e, ATrial))"
| "allow_atomic cfg now e (ALoaded CircuitHalfOpen) = (e, ATrial)"
| "allow_atomic cfg now e AReset = (e\<lparr>trialIssued := False\<rparr>, ATrial)"
| "allow_atomic cfg now e ATrial = (case tryHalfOpenTrial e of (e', ok) \<Rightarrow> (e', ADone ok))"
| "allow_atomic cfg now e (ADone ok) = (e, ADone ok)"

text \<open>A schedule names, step by step, the caller that moves.\<close>

fun interleave :: "BreakerConfig \<Rightarrow> instant \<Rightarrow> breakerEntry \<Rightarrow> allow_pc list \<Rightarrow> nat list
    \<Rightarrow> breakerEntry \<times> allow_pc list" where
  "interleave cfg now e pcs [] = (e, pcs)"
| "interleave cfg now e pcs (i # sched) =
     (if i < length pcs
      then case allow_atomic cfg now e (pcs ! i) of (e', pc') \<Rightarrow> interleave cfg now e' (pcs[i := pc']) sched
      else interleave cfg now e pcs sched)"

definition grants :: "allow_pc list \<Rightarrow> nat" where
  "grants pcs = length (filter (\<lambda>pc. pc = ADone True) pcs)"

lemma tryHalfOpenTrial_simps [simp]:
  "trialIssued e \<Longrightarrow> tryHalfOpenTrial e = (e, False)"
  "\<not> trialIssued e \<Longrightarrow> tryHalfOpenTrial e = (e\<lparr>trialIssued := True\<rparr>, True)"
  by (simp_all add: tryHalfOpenTrial_def)

text \<open>One caller alone runs as \<open>Allow\<close> does.\<close>

lemma allow_atomic_refines_Allow:
  assumes "br_keys b key = Some e"
  shows "\<exists>n \<le> 4. interleave (br_cfg b) now e [AStart] (replicate n 0)
      = (the (br_keys (fst (Allow b now key)) key), [ADone (snd (Allow b now key))])"
proof (cases "be_state e")
  case CircuitClosed
  with assms show ?thesis by (intro exI [of _ 2]) (simp add: numeral_2_eq_2 Allow_def br_entry_def)
next
  case CircuitHalfOpen
  with assms show ?thesis
    by (intro exI [of _ 3]) (cases "trialIssued e"; simp add: numeral_3_eq_3 Allow_def br_entry_def)
next
  case CircuitOpen
  show ?thesis
  proof (cases "cooled (br_cfg b) now e")
    case True
    with CircuitOpen assms show ?thesis
      by (intro exI [of _ "Suc (Suc (Suc (Suc 0)))"]) (simp add: Allow_def br_entry_def Let_def)
  next
    case False
    with CircuitOpen assms show ?thesis
      by (intro exI [of _ 2]) (simp add: numeral_2_eq_2 Allow_def br_entry_def)
  qed
qed

text \<open>Once the entry is half-open and nobody is between the two swaps, at most one caller gets a
  trial.\<close>

definition trial_inv :: "breakerEntry \<Rightarrow> allow_pc list \<Rightarrow> bool" where
  "trial_inv e pcs \<longleftrightarrow> be_state e = CircuitHalfOpen \<and> AReset \<notin> set pcs
     \<and> ALoaded CircuitClosed \<notin> set pcs \<and> grants pcs \<le> (if trialIssued e then 1 else 0)"

lemma grants_update:
  "i < length pcs \<Longrightarrow> pcs ! i \<noteq> ADone True \<Longrightarrow>
   grants (pcs[i := pc]) = grants pcs + (if pc = ADone True then 1 else 0)"
proof (induction pcs arbitrary: i)
  case (Cons p pcs)
  then show ?case by (cases i) (auto simp: grants_def)
qed simp

lemma trial_inv_step:
  assumes "trial_inv e pcs" "i < length pcs" "allow_atomic cfg now e (pcs ! i) = (e', pc')"
  shows "trial_inv e' (pcs[i := pc'])"
proof (cases "pcs ! i = ADone True")
  case True
  with assms show ?thesis by (auto simp: list_update_id)
next
  case False
  have mem: "pcs ! i \<in> set pcs" using assms(2) by simp
  have sub: "set (pcs[i := pc']) \<subseteq> insert pc' (set pcs)" by (rule set_update_subset_insert)
  note g = grants_update [OF assms(2) False, of pc']
  show ?thesis
  proof (cases "pcs ! i")
    case ATrial
    with assms g sub show ?thesis
      by (cases "trialIssued e") (auto simp: trial_inv_def)
  next
    case (ALoaded s)
    with assms g sub mem show ?thesis
      by (cases s) (auto simp: trial_inv_def split: if_splits)
  next
    case (ADone ok)
    with False assms g sub show ?thesis by (auto simp: trial_inv_def)
  qed (use assms g sub mem in \<open>auto simp: trial_inv_def\<close>)
qed

lemma trial_inv_interleave:
  "trial_inv e pcs \<Longrightarrow> interleave cfg now e pcs sched = (e', pcs') \<Longrightarrow> trial_inv e' pcs'"
proof (induction sched arbitrary: e pcs)
  case (Cons i sched)
  then show ?case by (auto split: if_splits prod.splits intro: trial_inv_step)
qed simp

section \<open>Properties\<close>


definition sample_breaker :: "CircuitState \<Rightarrow> Breaker" where
  "sample_breaker s = store_entry (NewBreaker DefaultBreakerConfig) ''t|m''
     ((fresh_entry 0)\<lparr>be_state := s\<rparr>)"

lemma sample_cooled [simp]: "in_int64 t \<Longrightarrow>
  cooled DefaultBreakerConfig t ((fresh_entry 0)\<lparr>be_state := s\<rparr>) \<longleftrightarrow> 1000000000 \<le> t"
  by (subst cooled_plain) (simp_all add: fresh_entry_def DefaultBreakerConfig_def duration_units)


text \<open>C24: the half-open trial under concurrency. Any number of callers of \<open>Allow\<close>, interleaved in
  any order at the granularity of their atomic operations, get at most one grant when they all
  start with the entry already half-open.\<close>

theorem half_open_at_most_one:
  assumes "be_state e = CircuitHalfOpen"
    and "interleave cfg now e (replicate n AStart) sched = (e', pcs')"
  shows "grants pcs' \<le> 1"
proof -
  have "trial_inv e (replicate n AStart)" using assms(1) by (auto simp: trial_inv_def grants_def)
  with assms(2) have "trial_inv e' pcs'" by (blast intro: trial_inv_interleave)
  then show ?thesis by (auto simp: trial_inv_def split: if_splits)
qed

theorem half_open_at_most_one_witness:
  "\<exists>e' pcs'. interleave DefaultBreakerConfig 0 ((fresh_entry 0)\<lparr>be_state := CircuitHalfOpen\<rparr>)
      (replicate 3 AStart) [0, 1, 2, 0, 1, 2, 2, 1, 0] = (e', pcs') \<and> grants pcs' \<le> 1 \<and> pcs' ! 2 = ADone True"
proof -
  let ?e = "(fresh_entry 0)\<lparr>be_state := CircuitHalfOpen\<rparr>"
  let ?sched = "[0, 1, 2, 0, 1, 2, 2, 1, 0]"
  obtain e' pcs' where r: "interleave DefaultBreakerConfig 0 ?e (replicate 3 AStart) ?sched = (e', pcs')"
    by (cases "interleave DefaultBreakerConfig 0 ?e (replicate 3 AStart) ?sched")
  have "snd (interleave DefaultBreakerConfig 0 ?e (replicate 3 AStart) ?sched) ! 2 = ADone True"
    by (simp add: numeral_3_eq_3 numeral_2_eq_2 fresh_entry_def)
  with half_open_at_most_one [OF _ r] r show ?thesis by simp
qed

text \<open>The same is not true of the move from open to half-open. The winner of the swap to
  half-open clears the trial flag in a second atomic step; a caller that loads the state in
  between takes the trial first, the late clear frees it again, and the winner takes it too.
  Two callers are then granted, although each of them run alone behaves as \<open>Allow\<close>.\<close>

theorem half_open_race:
  "\<exists>sched e'. interleave DefaultBreakerConfig (2 * Second) ((fresh_entry 0)\<lparr>be_state := CircuitOpen\<rparr>)
      [AStart, AStart] sched = (e', [ADone True, ADone True]) \<and> be_state e' = CircuitHalfOpen
      \<and> grants [ADone True, ADone True] = 2"
  by (rule exI [of _ "[0, 0, 1, 1, 1, 0, 0]"])
    (simp add: in_int64_def duration_units grants_def, simp add: fresh_entry_def)

text \<open>Counting and tripping. Within one window and below the sample minimum or the failure
  ratio, a closed circuit stays closed and counts every outcome; it opens with the first outcome
  after which at least \<open>MinSamples\<close> outcomes were counted and the share of cap-reached ones is
  at least \<open>FailureRatio\<close> (the ratio itself trips, not only a larger one).\<close>

theorem closed_circuit_trips:
  assumes "fresh_window b key e"
    and "list_all (\<lambda>(t, cap). in_window b e t) os" "in_window b e t"
    and "\<forall>k \<in> {1..length os}. \<not> trips (br_cfg b) (take k os)"
  shows "\<exists>b' e'. br_run key b (map (\<lambda>(t, cap). OpRecord t cap) os) = (b', [])
      \<and> br_keys b' key = Some e' \<and> be_state e' = CircuitClosed
      \<and> be_total e' = int (length os) \<and> be_failures e' = int (length (filter snd os))
      \<and> (\<exists>e''. br_keys (RecordOutcome b' t key cap) key = Some e''
           \<and> be_state e'' = (if trips (br_cfg b) (os @ [(t, cap)]) then CircuitOpen else CircuitClosed)
           \<and> (be_state e'' = CircuitOpen \<longrightarrow> openedAtNanos e'' = UnixNano t))"
proof -
  obtain b' e' where b': "br_run key b (map (\<lambda>(t, cap). OpRecord t cap) os) = (b', [])"
      "br_cfg b' = br_cfg b" "counted b' key e' (windowStartNanos e) os"
    using closed_counts [OF assms(1,2,4)] by blast
  then have win: "in_window b' e' t" using assms(3) by (simp add: in_window_def counted_def)
  show ?thesis
    using b' RecordOutcome_counts [OF b'(3) win, of cap]
    by (auto simp: counted_def Let_def intro!: exI [of _ b'] exI [of _ e'])
qed

lemma sample_trips: "trips DefaultBreakerConfig (replicate 19 (5, False) @ [(6, True)])"
  "k \<le> 19 \<Longrightarrow> \<not> trips DefaultBreakerConfig (take k (replicate 19 (5, False)))"
  by (simp_all add: trips_def fail_ratio_def DefaultBreakerConfig_def)

theorem closed_circuit_trips_witness:
  "\<exists>b' e''. br_run ''t|m'' (sample_breaker CircuitClosed)
        (map (\<lambda>(t, cap). OpRecord t cap) (replicate 19 (5, False))) = (b', [])
     \<and> br_keys (RecordOutcome b' 6 ''t|m'' True) ''t|m'' = Some e'' \<and> be_state e'' = CircuitOpen"
proof -
  let ?b = "sample_breaker CircuitClosed" and ?e = "fresh_entry 0"
  have cfg: "br_cfg ?b = DefaultBreakerConfig"
    by (simp add: sample_breaker_def NewBreaker_def DefaultBreakerConfig_def duration_units)
  have "to_int64 0 = 0" by (rule to_int64_id) (simp add: in_int64_def)
  then have "fresh_window ?b ''t|m'' ?e" "in_window ?b ?e 5" "in_window ?b ?e 6"
    by (simp_all add: fresh_window_def in_window_def cfg)
      (simp_all add: sample_breaker_def fresh_entry_def DefaultBreakerConfig_def duration_units
        in_int64_def UnixNano_def)
  then show ?thesis
    using closed_circuit_trips [of ?b "''t|m''" ?e "replicate 19 (5, False)" 6 True] sample_trips
    by (auto simp: cfg list_all_iff)
qed

end
