(* ===== verification/Go_Time.thy ===== *)
theory Go_Time
  imports Prelude
begin

text \<open>
  \<open>time.Time.Format\<close> of the Go standard library for the layout
  \<open>2006-01-02T15:04:05.999999999Z07:00\<close> (\<open>time.RFC3339Nano\<close>) on UTC instants.
  The civil date of a day number uses 400-year eras.
\<close>

definition civil_from_days :: "int \<Rightarrow> int \<times> int \<times> int" where
  "civil_from_days z0 =
     (let z = z0 + 719468;
          era = z div 146097;
          doe = z mod 146097;
          yoe = (doe - doe div 1460 + doe div 36524 - doe div 146096) div 365;
          doy = doe - (365 * yoe + yoe div 4 - yoe div 100);
          mp = (5 * doy + 2) div 153;
          d = doy - (153 * mp + 2) div 5 + 1;
          m = (if mp < 10 then mp + 3 else mp - 9);
          y = yoe + era * 400 + (if m \<le> 2 then 1 else 0)
      in (y, m, d))"

definition pad_int :: "nat \<Rightarrow> int \<Rightarrow> string" where
  "pad_int w n =
     (let ds = nat_digits (nat \<bar>n\<bar>)
      in (if n < 0 then ''-'' else []) @ replicate (w - length ds) (CHR ''0'') @ ds)"

text \<open>The fraction \<open>.999999999\<close>: trailing zeros are dropped, and the point with them.\<close>

definition fraction9 :: "int \<Rightarrow> string" where
  "fraction9 n =
     (let ds = rev (dropWhile (\<lambda>c. c = CHR ''0'') (rev (pad_int 9 n)))
      in if ds = [] then [] else CHR ''.'' # ds)"

definition Format_RFC3339Nano :: "instant \<Rightarrow> string" where
  "Format_RFC3339Nano t =
     (let ns = t mod 1000000000; s = t div 1000000000;
          day = s div 86400; tod = s mod 86400;
          (y, m, d) = civil_from_days day
      in pad_int 4 y @ ''-'' @ pad_int 2 m @ ''-'' @ pad_int 2 d @ ''T''
         @ pad_int 2 (tod div 3600) @ '':'' @ pad_int 2 (tod div 60 mod 60) @ '':''
         @ pad_int 2 (tod mod 60) @ fraction9 ns @ ''Z'')"

end
