(* ===== verification/Ledger_Repo.thy ===== *)
theory Ledger_Repo
  imports Database Breaker Go_Time
begin

text \<open>
  \<open>internal/repository/ledger_repo.go\<close> with the request-side half of \<open>audit_repo.go\<close>: the atomic
  write of a transfer (transaction, two legs, outbox event, audit row), the error
  classification of its batch, the circuit breaker around it, and the two reads. Values a call
  takes from its surroundings (clock readings, generated ids, the driver's answers per attempt)
  are the record \<open>exec_env\<close>; JSON encoding, the decimal package and the JSONB normal form are
  the record \<open>libs\<close>.
\<close>

section \<open>Audit body\<close>

record journalEntryAuditBody =
  jb_ID :: UUID
  jb_AccountID :: UUID
  jb_Amount :: string
  jb_Currency :: string

record transactionAuditBody =
  tb_ID :: UUID
  tb_TenantID :: string
  tb_IdempotencyKey :: string
  tb_RequestFingerprint :: string
  tb_Status :: string
  tb_CreatedAt :: string
  tb_Entries :: "journalEntryAuditBody list"

record libs =
  lib_apd :: apd
  lib_json :: "transactionAuditBody \<Rightarrow> bytes result"
  lib_jsonb :: jsonb_in

definition canonicalTransactionAudit :: "libs \<Rightarrow> Transaction \<Rightarrow> bytes result" where
  "canonicalTransactionAudit L tx =
     (let body = \<lparr>tb_ID = tx_ID tx, tb_TenantID = tx_TenantID tx,
                  tb_IdempotencyKey = tx_IdempotencyKey tx,
                  tb_RequestFingerprint = tx_RequestFingerprint tx, tb_Status = tx_Status tx,
                  tb_CreatedAt = Format_RFC3339Nano (tx_CreatedAt tx),
                  tb_Entries = map (\<lambda>e. \<lparr>jb_ID = je_ID e, jb_AccountID = je_AccountID e,
                    jb_Amount = Amount_String (lib_apd L) (je_Amount e), jb_Currency = je_Currency e\<rparr>)
                    (tx_Entries tx)\<rparr>
      in case lib_json L body of
           Inl err \<Rightarrow> Inl (Errorf [Lit ''audit: marshal transaction: '', W err])
         | Inr out \<Rightarrow> Inr out)"

definition validateAuditEnvelope :: "AuditEvent \<Rightarrow> go_error option" where
  "validateAuditEnvelope e =
     (if env_TenantID e = [] \<or> env_ActorSubject e = [] \<or> env_RequestID e = []
        then Some (Errorf [Lit ''audit: envelope incomplete (tenant='', Q (env_TenantID e),
               Lit '' subject='', Q (env_ActorSubject e), Lit '' req='', Q (env_RequestID e), Lit '')''])
      else if ae_AggregateType e = [] \<or> ae_Operation e = []
        then Some (Errorf [Lit ''audit: aggregate_type and operation are required''])
      else None)"

section \<open>The repository\<close>

record LedgerRepo =
  lr_acquireCfg :: PoolConfig
  lr_retry :: RetryConfig

definition NewLedgerRepo :: "PoolConfig \<Rightarrow> LedgerRepo" where
  "NewLedgerRepo acquireCfg = \<lparr>lr_acquireCfg = acquireCfg, lr_retry = DefaultRetryConfig\<rparr>"

definition WithRetryConfig :: "LedgerRepo \<Rightarrow> RetryConfig \<Rightarrow> LedgerRepo" where
  "WithRetryConfig r cfg = r\<lparr>lr_retry := cfg\<rparr>"

text \<open>What the repository shares with the rest of the process: the pool, the database and the
  breaker, \<^const>\<open>None\<close> when none is installed.\<close>

record ledger_world =
  lw_pool :: pool_state
  lw_db :: db
  lw_breaker :: "Breaker option"

definition WithBreaker :: "ledger_world \<Rightarrow> Breaker option \<Rightarrow> ledger_world" where
  "WithBreaker w b = w\<lparr>lw_breaker := b\<rparr>"

text \<open>\<open>ex_ids n\<close> is the n-th id the call takes from \<open>newID\<close>.\<close>

record exec_env =
  ex_now :: instant
  ex_ids :: "nat \<Rightarrow> UUID"
  ex_br_allow :: instant
  ex_br_record :: instant
  ex_attempts :: "nat \<Rightarrow> db attempt_env"

definition validateTransferRequest :: "apd \<Rightarrow> TransferRequest \<Rightarrow> go_error option" where
  "validateTransferRequest A req =
     (if tr_TenantID req = [] then Some (Sentinel ErrTenantRequired)
      else if tr_IdempotencyKey req = [] then Some (Sentinel ErrDuplicateIdempotencyKey)
      else if tr_RequestFingerprint req = []
        then Some (Errorf [Lit ''repository: request_fingerprint is required''])
      else if \<not> Currency_Valid (tr_Currency req) then Some (Sentinel ErrInvalidCurrency)
      else if tr_FromAccountID req = uuid_Nil \<or> tr_ToAccountID req = uuid_Nil
        then Some (Sentinel ErrAccountNotFound)
      else if tr_FromAccountID req = tr_ToAccountID req
        then Some (Errorf [Lit ''repository: from and to account IDs must differ''])
      else if Amount_IsZero A (tr_Amount req) \<or> Amount_IsNegative A (tr_Amount req)
        then Some (Errorf [Lit ''repository: transfer amount must be strictly positive''])
      else if length (tr_OutboxPayload req) = 0
        then Some (Errorf [Lit ''repository: outbox payload is required''])
      else None)"

definition classifyBatchErr :: "go_error \<Rightarrow> nat \<Rightarrow> go_error" where
  "classifyBatchErr err idx =
     (if idx = 0 then
        (if IsUniqueViolation err then Sentinel ErrDuplicateIdempotencyKey
         else Errorf [Lit ''insert transaction: '', W err])
      else if idx = 1 \<or> idx = 2 then
        (if IsForeignKeyViolation err then Sentinel ErrAccountTenantMismatch
         else Errorf [Lit ''insert journal entry: '', W err])
      else if idx = 3 then Errorf [Lit ''insert outbox event: '', W err]
      else if idx = 4 then Errorf [Lit ''audit: enqueue pending: '', W err]
      else Errorf [Lit ''batch insert idx='', D (int idx), Lit '': '', W err])"

text \<open>The transaction a request asks for.\<close>

definition build_transaction :: "apd \<Rightarrow> exec_env \<Rightarrow> TransferRequest \<Rightarrow> Transaction" where
  "build_transaction A ex req =
     (let now = ex_now ex; txID = ex_ids ex 0;
          debitLeg = \<lparr>je_ID = ex_ids ex 1, je_TransactionID = txID, je_TenantID = tr_TenantID req,
                      je_AccountID = tr_FromAccountID req, je_Amount = Amount_Neg A (tr_Amount req),
                      je_Currency = tr_Currency req, je_CreatedAt = now\<rparr>;
          creditLeg = \<lparr>je_ID = ex_ids ex 2, je_TransactionID = txID, je_TenantID = tr_TenantID req,
                      je_AccountID = tr_ToAccountID req, je_Amount = tr_Amount req,
                      je_Currency = tr_Currency req, je_CreatedAt = now\<rparr>
      in \<lparr>tx_ID = txID, tx_TenantID = tr_TenantID req, tx_IdempotencyKey = tr_IdempotencyKey req,
          tx_RequestFingerprint = tr_RequestFingerprint req, tx_Status = TransactionStatusCommitted,
          tx_Entries = [debitLeg, creditLeg], tx_CreatedAt = now\<rparr>)"

definition insert_leg :: "apd \<Rightarrow> JournalEntry \<Rightarrow> stmt" where
  "insert_leg A leg d =
     (case numeric_in (Amount_Value A (je_Amount leg)) of
        Inl err \<Rightarrow> Inl err
      | Inr n \<Rightarrow> insert_journal_entry
          \<lparr>jer_id = je_ID leg, jer_transaction_id = je_TransactionID leg, jer_tenant_id = je_TenantID leg,
           jer_account_id = je_AccountID leg, jer_amount = n, jer_currency = je_Currency leg,
           jer_created_at = je_CreatedAt leg\<rparr> d)"

definition transaction_row :: "Transaction \<Rightarrow> tx_row" where
  "transaction_row t = \<lparr>txr_id = tx_ID t, txr_tenant_id = tx_TenantID t,
     txr_idempotency_key = tx_IdempotencyKey t, txr_request_fingerprint = tx_RequestFingerprint t,
     txr_status = tx_Status t, txr_created_at = tx_CreatedAt t\<rparr>"

text \<open>The batch of \<open>ExecuteTransfer\<close>, in queue order.\<close>

definition transfer_batch ::
    "libs \<Rightarrow> db attempt_env \<Rightarrow> Transaction \<Rightarrow> UUID \<Rightarrow> TransferRequest \<Rightarrow> AuditEvent \<Rightarrow> stmt list" where
  "transfer_batch L env t outboxID req auditEvt =
     [insert_transaction (transaction_row t)]
     @ map (insert_leg (lib_apd L)) (tx_Entries t)
     @ [insert_outbox_event
          \<lparr>ob_ID = outboxID, ob_AggregateType = AggregateTypeTransaction, ob_AggregateID = tx_ID t,
           ob_EventSchema = tr_OutboxSchema req, ob_Payload = tr_OutboxPayload req,
           ob_Status = OutboxStatusPending, ob_CreatedAt = tx_CreatedAt t\<rparr>,
        insert_audit_pending (lib_jsonb L) (at_uuid env) (at_now env) auditEvt]"

definition transfer_tx ::
    "libs \<Rightarrow> Transaction \<Rightarrow> UUID \<Rightarrow> TransferRequest \<Rightarrow> AuditEvent
      \<Rightarrow> db attempt_env \<Rightarrow> unit \<Rightarrow> db \<Rightarrow> db \<times> unit \<times> go_error option" where
  "transfer_tx L t outboxID req auditEvt env v d =
     (case run_batch env 0 (transfer_batch L env t outboxID req auditEvt) d of
        Inl (i, err) \<Rightarrow> (d, v, Some (classifyBatchErr err i))
      | Inr d' \<Rightarrow> (d', v, None))"

definition audit_event_of :: "TransferRequest \<Rightarrow> Transaction \<Rightarrow> bytes \<Rightarrow> AuditEvent" where
  "audit_event_of req t body =
     AuditEnvelope.extend (tr_AuditEnvelope req)
       (AuditEvent.fields AuditAggregateTransaction (tx_ID t) AuditOpTransferExecuted None (Some body))"

definition breaker_allow :: "ledger_world \<Rightarrow> instant \<Rightarrow> string \<Rightarrow> ledger_world \<times> bool" where
  "breaker_allow w now key =
     (case lw_breaker w of
        None \<Rightarrow> (w, True)
      | Some b \<Rightarrow> (case Allow b now key of (b', ok) \<Rightarrow> (w\<lparr>lw_breaker := Some b'\<rparr>, ok)))"

definition breaker_record :: "ledger_world \<Rightarrow> instant \<Rightarrow> string \<Rightarrow> bool \<Rightarrow> ledger_world" where
  "breaker_record w now key cap =
     (case lw_breaker w of
        None \<Rightarrow> w
      | Some b \<Rightarrow> w\<lparr>lw_breaker := Some (RecordOutcome b now key cap)\<rparr>)"

definition ExecuteTransfer ::
    "libs \<Rightarrow> LedgerRepo \<Rightarrow> exec_env \<Rightarrow> TransferRequest \<Rightarrow> ledger_world
      \<Rightarrow> ledger_world \<times> Transaction result" where
  "ExecuteTransfer L r ex req w =
     (case validateTransferRequest (lib_apd L) req of
        Some err \<Rightarrow> (w, Inl err)
      | None \<Rightarrow>
        let transaction = build_transaction (lib_apd L) ex req
        in case AssertBalanced (lib_apd L) transaction of
             Some err \<Rightarrow> (w, Inl err)
           | None \<Rightarrow>
             let outboxID = ex_ids ex 3;
                 breakerKey = BreakerKey (tr_TenantID req) ''ExecuteTransfer''
             in case breaker_allow w (ex_br_allow ex) breakerKey of
                  (w1, False) \<Rightarrow> (w1, Err ErrCircuitOpen)
                | (w1, True) \<Rightarrow>
                  (case canonicalTransactionAudit L transaction of
                     Inl err \<Rightarrow> (w1, Inl (Errorf [Lit ''audit: canonicalize transaction: '', W err]))
                   | Inr auditBody \<Rightarrow>
                     let auditEvt = audit_event_of req transaction auditBody
                     in case validateAuditEnvelope auditEvt of
                          Some err \<Rightarrow> (w1, Inl err)
                        | None \<Rightarrow>
                          (case InTx (lr_acquireCfg r) (lr_retry r)
                                  (transfer_tx L transaction outboxID req auditEvt) (ex_attempts ex)
                                  \<lparr>ts_pool = lw_pool w1, ts_db = lw_db w1, ts_vars = ()\<rparr> of
                             (s, err) \<Rightarrow>
                               let w2 = w1\<lparr>lw_pool := ts_pool s, lw_db := ts_db s\<rparr>;
                                   w3 = breaker_record w2 (ex_br_record ex) breakerKey
                                          (case err of None \<Rightarrow> False
                                           | Some e \<Rightarrow> errors_Is e ErrRetryCapReached)
                               in (w3, case err of Some e \<Rightarrow> Inl e | None \<Rightarrow> Inr transaction))))"

section \<open>Reads\<close>

text \<open>The answers of the driver to the two queries of a load: an error of the header query (a
  missing row is \<open>pgx.ErrNoRows\<close>), of the second query, and of its iteration.\<close>

record read_env =
  rd_header :: "go_error option"
  rd_query :: "go_error option"
  rd_iter :: "go_error option"

fun scan_entries :: "apd \<Rightarrow> je_row list \<Rightarrow> JournalEntry list result" where
  "scan_entries A [] = Inr []"
| "scan_entries A (r # rs) =
     (case Amount_Scan A (SrcString (numeric_out (jer_amount r))) of
        Inl err \<Rightarrow> Inl (Errorf [Lit ''repository: scan journal entry: '', W err])
      | Inr a \<Rightarrow> (case scan_entries A rs of
          Inl err \<Rightarrow> Inl err
        | Inr es \<Rightarrow> Inr (\<lparr>je_ID = jer_id r, je_TransactionID = jer_transaction_id r,
             je_TenantID = jer_tenant_id r, je_AccountID = jer_account_id r, je_Amount = a,
             je_Currency = jer_currency r, je_CreatedAt = jer_created_at r\<rparr> # es)))"

definition loadTransaction :: "apd \<Rightarrow> read_env \<Rightarrow> (db \<Rightarrow> tx_row option) \<Rightarrow> db \<Rightarrow> Transaction result" where
  "loadTransaction A rd header d =
     (let row = (case rd_header rd of
                   Some err \<Rightarrow> Inl err
                 | None \<Rightarrow> (case header d of None \<Rightarrow> Err PgxErrNoRows | Some r \<Rightarrow> Inr r))
      in case row of
           Inl err \<Rightarrow>
             if errors_Is err PgxErrNoRows then Err ErrTransactionNotFound
             else Inl (Errorf [Lit ''repository: load transaction: '', W err])
         | Inr r \<Rightarrow>
             (case rd_query rd of
                Some err \<Rightarrow> Inl (Errorf [Lit ''repository: query journal entries: '', W err])
              | None \<Rightarrow>
                (case scan_entries A (select_journal_entries (txr_id r) d) of
                   Inl err \<Rightarrow> Inl err
                 | Inr es \<Rightarrow>
                   (case rd_iter rd of
                      Some err \<Rightarrow> Inl (Errorf [Lit ''repository: iterate journal entries: '', W err])
                    | None \<Rightarrow>
                        Inr \<lparr>tx_ID = txr_id r, tx_TenantID = txr_tenant_id r,
                             tx_IdempotencyKey = txr_idempotency_key r,
                             tx_RequestFingerprint = txr_request_fingerprint r,
                             tx_Status = txr_status r, tx_Entries = es, tx_CreatedAt = txr_created_at r\<rparr>))))"

definition GetTransaction :: "apd \<Rightarrow> read_env \<Rightarrow> UUID \<Rightarrow> db \<Rightarrow> Transaction result" where
  "GetTransaction A rd i d = loadTransaction A rd (select_transaction i) d"

definition GetTransactionByIdempotencyKey ::
    "apd \<Rightarrow> read_env \<Rightarrow> string \<Rightarrow> string \<Rightarrow> db \<Rightarrow> Transaction result" where
  "GetTransactionByIdempotencyKey A rd tenantID key d =
     (if tenantID = [] then Err ErrTenantRequired
      else if key = [] then Inl (Errorf [Lit ''repository: idempotency key is required''])
      else loadTransaction A rd (select_transaction_by_key tenantID key) d)"

end
