(* ===== verification/Ledger_Invariant.thy ===== *)
theory Ledger_Invariant
  imports Ledger_Repo
begin

text \<open>
  What \<open>ExecuteTransfer\<close> does to the tables: \<open>posted\<close> is the complete effect of one transfer, the
  invariant \<open>db_ok\<close> says that the ledger is well formed (keys unique, every leg inside its
  tenant and currency, every transaction balanced with two legs, one outbox event and one audit
  record), and \<open>balance\<close> is the abstract ledger the tables implement.
\<close>

section \<open>Specification\<close>

definition legs_of :: "db \<Rightarrow> UUID \<Rightarrow> je_row list" where
  "legs_of d i = filter (\<lambda>r. jer_transaction_id r = i) (journal_entries d)"

definition balance :: "db \<Rightarrow> UUID \<Rightarrow> int" where
  "balance d acc = sum_list (map jer_amount (filter (\<lambda>r. jer_account_id r = acc) (journal_entries d)))"

definition outbox_count :: "db \<Rightarrow> UUID \<Rightarrow> nat" where
  "outbox_count d i = length (filter (\<lambda>e. ob_AggregateID e = i) (outbox_events d))"

definition audit_count :: "db \<Rightarrow> UUID \<Rightarrow> nat" where
  "audit_count d i =
     length (filter (\<lambda>p. ae_AggregateID (pr_event p) = i) (audit_pending d))
     + length (filter (\<lambda>r. ae_AggregateID (ar_event r) = i) (audit_log d))"

definition tx_ids :: "db \<Rightarrow> UUID set" where
  "tx_ids d = txr_id ` set (transactions d)"

definition keys_ok :: "db \<Rightarrow> bool" where
  "keys_ok d \<longleftrightarrow> distinct (map acc_ID (accounts d)) \<and> distinct (map txr_id (transactions d))
     \<and> distinct (map (\<lambda>r. (txr_tenant_id r, txr_idempotency_key r)) (transactions d))
     \<and> distinct (map ob_ID (outbox_events d))
     \<and> distinct (map (\<lambda>p. (env_TenantID (pr_event p), pr_id p)) (audit_pending d))"

definition legs_ok :: "db \<Rightarrow> bool" where
  "legs_ok d \<longleftrightarrow> (\<forall>r \<in> set (journal_entries d). je_references r d \<and> \<bar>jer_amount r\<bar> < 10 ^ 19)
     \<and> (\<forall>i \<in> tx_ids d. length (legs_of d i) = 2 \<and> tx_sum d i = 0)"

definition events_ok :: "db \<Rightarrow> bool" where
  "events_ok d \<longleftrightarrow> ob_AggregateID ` set (outbox_events d) \<subseteq> tx_ids d
     \<and> (\<lambda>p. ae_AggregateID (pr_event p)) ` set (audit_pending d) \<subseteq> tx_ids d
     \<and> (\<lambda>r. ae_AggregateID (ar_event r)) ` set (audit_log d) \<subseteq> tx_ids d
     \<and> (\<forall>i \<in> tx_ids d. outbox_count d i = 1 \<and> audit_count d i = 1)"

definition db_ok :: "db \<Rightarrow> bool" where
  "db_ok d \<longleftrightarrow> keys_ok d \<and> legs_ok d \<and> events_ok d"

text \<open>The row of a leg, and the effect of posting a transaction of \<open>x\<close> units: exactly these rows
  are appended, under fresh keys, to accounts of the tenant and currency.\<close>

definition leg_row :: "JournalEntry \<Rightarrow> int \<Rightarrow> je_row" where
  "leg_row leg n = \<lparr>jer_id = je_ID leg, jer_transaction_id = je_TransactionID leg,
     jer_tenant_id = je_TenantID leg, jer_account_id = je_AccountID leg, jer_amount = n,
     jer_currency = je_Currency leg, jer_created_at = pg_timestamp (je_CreatedAt leg)\<rparr>"

definition has_account :: "db \<Rightarrow> UUID \<Rightarrow> string \<Rightarrow> string \<Rightarrow> bool" where
  "has_account d i tenant cur \<longleftrightarrow>
     list_ex (\<lambda>a. acc_ID a = i \<and> acc_Currency a = cur) (accounts d)
     \<and> list_ex (\<lambda>a. acc_ID a = i \<and> acc_TenantID a = tenant) (accounts d)"

definition posted :: "Transaction \<Rightarrow> JournalEntry \<Rightarrow> JournalEntry \<Rightarrow> int \<Rightarrow> OutboxEvent \<Rightarrow> pending_row
    \<Rightarrow> db \<Rightarrow> db \<Rightarrow> bool" where
  "posted t l1 l2 x ob p d d' \<longleftrightarrow>
     d' = d\<lparr>transactions := transactions d @ [(transaction_row t)\<lparr>txr_created_at := pg_timestamp (tx_CreatedAt t)\<rparr>],
            journal_entries := journal_entries d @ [leg_row l1 (- x), leg_row l2 x],
            outbox_events := outbox_events d @ [ob],
            audit_pending := audit_pending d @ [p]\<rparr>
     \<and> tx_ID t \<notin> tx_ids d
     \<and> (\<forall>r \<in> set (transactions d). \<not> (txr_tenant_id r = tx_TenantID t \<and> txr_idempotency_key r = tx_IdempotencyKey t))
     \<and> has_account d (je_AccountID l1) (tx_TenantID t) (je_Currency l1)
     \<and> has_account d (je_AccountID l2) (tx_TenantID t) (je_Currency l2)
     \<and> \<bar>x\<bar> < 10 ^ 19
     \<and> ob_AggregateID ob = tx_ID t \<and> ob_Status ob = OutboxStatusPending \<and> ob_ID ob \<notin> ob_ID ` set (outbox_events d)
     \<and> ae_AggregateID (pr_event p) = tx_ID t
     \<and> (\<forall>q \<in> set (audit_pending d). (env_TenantID (pr_event q), pr_id q) \<noteq> (env_TenantID (pr_event p), pr_id p))"

section \<open>The ledger invariant is kept\<close>

lemma tx_ids_posted: "posted t l1 l2 x ob p d d' \<Longrightarrow> tx_ids d' = insert (tx_ID t) (tx_ids d)"
  by (auto simp: posted_def tx_ids_def transaction_row_def)

lemma legs_of_other: "legs_ok d \<Longrightarrow> i \<notin> tx_ids d \<Longrightarrow> legs_of d i = []"
  unfolding legs_ok_def legs_of_def filter_empty_conv je_references_def list_ex_iff tx_ids_def
  by (metis image_eqI)

lemma keys_ok_posted: "keys_ok d \<Longrightarrow> posted t l1 l2 x ob p d d' \<Longrightarrow> keys_ok d'"
  by (force simp: keys_ok_def posted_def tx_ids_def transaction_row_def)

lemma je_references_mono:
  "je_references r d \<Longrightarrow> posted t l1 l2 x ob p d d' \<Longrightarrow> je_references r d'"
  by (auto simp: je_references_def posted_def)

lemma je_references_new:
  assumes "posted t l1 l2 x ob p d d'" "l = l1 \<or> l = l2"
    and "je_TransactionID l = tx_ID t" "je_TenantID l = tx_TenantID t"
  shows "je_references (leg_row l n) d'"
  using assms by (auto simp: je_references_def posted_def leg_row_def has_account_def transaction_row_def)

text \<open>Transactions whose two legs belong to them.\<close>

definition two_legs :: "Transaction \<Rightarrow> JournalEntry \<Rightarrow> JournalEntry \<Rightarrow> bool" where
  "two_legs t l1 l2 \<longleftrightarrow> tx_Entries t = [l1, l2] \<and> je_TransactionID l1 = tx_ID t \<and> je_TransactionID l2 = tx_ID t
     \<and> je_TenantID l1 = tx_TenantID t \<and> je_TenantID l2 = tx_TenantID t"

lemma legs_of_posted:
  assumes "posted t l1 l2 x ob p d d'" "two_legs t l1 l2"
  shows "legs_of d' i = legs_of d i @ (if i = tx_ID t then [leg_row l1 (- x), leg_row l2 x] else [])"
  using assms by (auto simp: posted_def two_legs_def legs_of_def leg_row_def)

lemma tx_sum_legs: "tx_sum d i = sum_list (map jer_amount (legs_of d i))"
  by (simp add: tx_sum_def legs_of_def)

lemma legs_ok_posted:
  assumes "legs_ok d" "posted t l1 l2 x ob p d d'" "two_legs t l1 l2"
  shows "legs_ok d'"
  unfolding legs_ok_def
proof (intro conjI ballI)
  fix r assume "r \<in> set (journal_entries d')"
  then consider "r \<in> set (journal_entries d)" | "r = leg_row l1 (- x)" | "r = leg_row l2 x"
    using assms(2) by (auto simp: posted_def)
  then show "je_references r d'"
    using assms je_references_mono [OF _ assms(2)] je_references_new [OF assms(2)]
    by cases (auto simp: legs_ok_def two_legs_def)
  show "\<bar>jer_amount r\<bar> < 10 ^ 19"
    using assms(1,2) \<open>r \<in> set (journal_entries d')\<close> by (auto simp: legs_ok_def posted_def leg_row_def)
next
  fix i assume i: "i \<in> tx_ids d'"
  have new: "legs_of d (tx_ID t) = []"
    using assms(1,2) by (intro legs_of_other) (auto simp: posted_def)
  have "length (legs_of d' i) = 2 \<and> tx_sum d' i = 0"
    using i assms(1) new unfolding tx_sum_legs legs_of_posted [OF assms(2,3)] tx_ids_posted [OF assms(2)]
    by (cases "i = tx_ID t") (auto simp: legs_ok_def tx_sum_legs leg_row_def)
  then show "length (legs_of d' i) = 2" "tx_sum d' i = 0" by auto
qed

lemma events_ok_posted:
  assumes "events_ok d" "posted t l1 l2 x ob p d d'"
  shows "events_ok d'"
proof -
  have new: "tx_ID t \<notin> tx_ids d" using assms(2) by (simp add: posted_def)
  have ev: "ob_AggregateID ` set (outbox_events d') \<subseteq> tx_ids d'"
    "(\<lambda>p. ae_AggregateID (pr_event p)) ` set (audit_pending d') \<subseteq> tx_ids d'"
    "(\<lambda>r. ae_AggregateID (ar_event r)) ` set (audit_log d') \<subseteq> tx_ids d'"
    using assms unfolding tx_ids_posted [OF assms(2)] by (auto simp: events_ok_def posted_def)
  have none: "outbox_count d (tx_ID t) = 0" "audit_count d (tx_ID t) = 0"
    using assms(1) new by (auto simp: events_ok_def outbox_count_def audit_count_def filter_empty_conv)
  have "outbox_count d' i = outbox_count d i + (if i = tx_ID t then 1 else 0)"
    "audit_count d' i = audit_count d i + (if i = tx_ID t then 1 else 0)" for i
    using assms(2) by (auto simp: posted_def outbox_count_def audit_count_def)
  with none assms(1) new have "\<forall>i \<in> tx_ids d'. outbox_count d' i = 1 \<and> audit_count d' i = 1"
    unfolding tx_ids_posted [OF assms(2)] by (auto simp: events_ok_def)
  with ev show ?thesis by (simp add: events_ok_def)
qed

lemma db_ok_posted:
  "db_ok d \<Longrightarrow> posted t l1 l2 x ob p d d' \<Longrightarrow> two_legs t l1 l2 \<Longrightarrow> db_ok d'"
  by (auto simp: db_ok_def intro: keys_ok_posted legs_ok_posted events_ok_posted)

lemma balance_posted:
  assumes "posted t l1 l2 x ob p d d'"
  shows "balance d' a = balance d a - (if a = je_AccountID l1 then x else 0)
     + (if a = je_AccountID l2 then x else 0)"
  using assms by (auto simp: posted_def balance_def leg_row_def)

text \<open>The sum over all legs is zero in a well-formed ledger.\<close>

lemma sum_by_tx:
  assumes "distinct is" "\<forall>r \<in> set js. jer_transaction_id r \<in> set is"
  shows "sum_list (map jer_amount js) =
    (\<Sum>i\<leftarrow>is. sum_list (map jer_amount (filter (\<lambda>r. jer_transaction_id r = i) js)))"
  using assms(2)
proof (induction js)
  case (Cons r js)
  have "(\<Sum>i\<leftarrow>is. sum_list (map jer_amount (filter (\<lambda>q. jer_transaction_id q = i) (r # js)))) =
      (\<Sum>i\<leftarrow>is. (if i = jer_transaction_id r then jer_amount r else 0)
         + sum_list (map jer_amount (filter (\<lambda>q. jer_transaction_id q = i) js)))"
    by (intro arg_cong [where f = sum_list] map_cong) auto
  also have "\<dots> = (\<Sum>i\<leftarrow>is. if i = jer_transaction_id r then jer_amount r else 0)
      + (\<Sum>i\<leftarrow>is. sum_list (map jer_amount (filter (\<lambda>q. jer_transaction_id q = i) js)))"
    by (simp add: sum_list_addf)
  also have "(\<Sum>i\<leftarrow>is. if i = jer_transaction_id r then jer_amount r else 0) = jer_amount r"
    using assms(1) Cons.prems by (simp add: sum_list_distinct_conv_sum_set)
  finally show ?case using Cons by simp
qed simp

lemma db_ok_sum_zero: "db_ok d \<Longrightarrow> sum_amounts d = 0"
proof -
  assume ok: "db_ok d"
  let ?is = "map txr_id (transactions d)"
  have "\<forall>r \<in> set (journal_entries d). jer_transaction_id r \<in> set ?is"
    using ok by (force simp: db_ok_def legs_ok_def je_references_def list_ex_iff)
  moreover have "distinct ?is" using ok by (simp add: db_ok_def keys_ok_def)
  ultimately have "sum_amounts d = (\<Sum>i\<leftarrow>?is. tx_sum d i)"
    unfolding sum_amounts_def tx_sum_def by (rule sum_by_tx [rotated])
  also have "\<dots> = (\<Sum>i\<leftarrow>?is. 0)"
    using ok by (intro arg_cong [where f = sum_list] map_cong) (auto simp: db_ok_def legs_ok_def tx_ids_def)
  finally show ?thesis by (simp add: comp_def)
qed

text \<open>Each leg's account belongs to the leg's tenant and has its currency.\<close>

lemma leg_account:
  assumes "db_ok d" "r \<in> set (journal_entries d)"
  shows "\<exists>a \<in> set (accounts d). acc_ID a = jer_account_id r \<and> acc_Currency a = jer_currency r
    \<and> acc_TenantID a = jer_tenant_id r"
proof -
  from assms have "je_references r d" by (simp add: db_ok_def legs_ok_def)
  then obtain a b where ab: "a \<in> set (accounts d)" "acc_ID a = jer_account_id r" "acc_Currency a = jer_currency r"
    "b \<in> set (accounts d)" "acc_ID b = jer_account_id r" "acc_TenantID b = jer_tenant_id r"
    by (auto simp: je_references_def list_ex_iff)
  moreover have "inj_on acc_ID (set (accounts d))"
    using assms(1) by (simp add: db_ok_def keys_ok_def distinct_map)
  ultimately have "a = b" by (metis inj_onD)
  with ab show ?thesis by blast
qed

section \<open>The batch of ExecuteTransfer\<close>

lemma run_batch_Cons_Inr:
  "run_batch env i (f # fs) d = Inr d' \<longleftrightarrow>
     (\<exists>d1. at_stmt env i = None \<and> f d = Inr d1 \<and> run_batch env (i + 1) fs d1 = Inr d')"
  by (auto simp: exec_stmt_def split: option.splits sum.splits)

lemma insert_transaction_Inr:
  "insert_transaction r d = Inr d' \<Longrightarrow>
     d' = d\<lparr>transactions := transactions d @ [r\<lparr>txr_created_at := pg_timestamp (txr_created_at r)\<rparr>]\<rparr>
     \<and> txr_id r \<notin> tx_ids d
     \<and> (\<forall>q \<in> set (transactions d). \<not> (txr_tenant_id q = txr_tenant_id r
          \<and> txr_idempotency_key q = txr_idempotency_key r))"
  by (auto simp: insert_transaction_def tx_ids_def list_ex_iff split: if_splits)

lemma insert_leg_Inr:
  "insert_leg A leg d = Inr d' \<Longrightarrow>
     \<exists>n. numeric_in (Amount_Value A (je_Amount leg)) = Inr n
       \<and> d' = d\<lparr>journal_entries := journal_entries d @ [leg_row leg n]\<rparr>
       \<and> has_account d (je_AccountID leg) (je_TenantID leg) (je_Currency leg)"
  by (auto simp: insert_leg_def insert_journal_entry_def leg_row_def je_references_def has_account_def
      Let_def split: if_splits sum.splits)

lemma insert_outbox_Inr:
  "insert_outbox_event e d = Inr d' \<Longrightarrow>
     d' = d\<lparr>outbox_events := outbox_events d @ [e\<lparr>ob_CreatedAt := pg_timestamp (ob_CreatedAt e)\<rparr>]\<rparr>
     \<and> ob_ID e \<notin> ob_ID ` set (outbox_events d)"
  by (auto simp: insert_outbox_event_def list_ex_iff split: if_splits)

lemma store_event_Inr:
  "store_event jsonb e = Inr e' \<Longrightarrow> ae_AggregateID e' = ae_AggregateID e \<and> env_TenantID e' = env_TenantID e
     \<and> ae_Operation e' = ae_Operation e \<and> env_OccurredAt e' = pg_timestamp (env_OccurredAt e)"
  by (auto simp: store_event_def split: sum.splits if_splits)

lemma insert_audit_pending_Inr:
  "insert_audit_pending jsonb uid now e d = Inr d' \<Longrightarrow>
     \<exists>e'. store_event jsonb e = Inr e'
       \<and> d' = d\<lparr>audit_pending := audit_pending d @
             [\<lparr>pr_id = uid, pr_enqueued_at = pg_timestamp now, pr_event = e'\<rparr>]\<rparr>
       \<and> (\<forall>q \<in> set (audit_pending d). (env_TenantID (pr_event q), pr_id q) \<noteq> (env_TenantID e', uid))"
  by (cases "store_event jsonb e")
    (auto simp: insert_audit_pending_def list_ex_iff store_event_Inr split: if_splits)

text \<open>The amounts of the two legs as \<open>NUMERIC(19,4)\<close>.\<close>

lemma numeric_in_dec4_iff:
  "numeric_in (dec4_text neg n) = Inr m \<Longrightarrow> m = (if neg then - int n else int n) \<and> n < 10 ^ 19"
  by (auto simp: ref_SetString_dec4 numeric_in_def units_def dval_def LedgerScale_def split: if_splits)

lemma numeric_in_amount:
  assumes "apd_lib A" "at_scale a" "numeric_in (Amount_Value A a) = Inr n"
  shows "n = units a \<and> \<bar>n\<bar> < 10 ^ 19"
proof -
  have "Amount_Value A a = dec4_text (Negative a) (Coeff a)"
    using apd_lib.String_at_scale [OF assms(1,2)] by (simp add: Amount_Value_def Amount_String_def)
  with assms(3) show ?thesis
    using numeric_in_dec4_iff [of "Negative a" "Coeff a" n] units_at_scale [OF assms(2)]
    by (auto simp: dval_def)
qed

lemma numeric_in_amount_ok:
  assumes "apd_lib A" "at_scale a" "\<bar>units a\<bar> < 10 ^ 19"
  shows "numeric_in (Amount_Value A a) = Inr (units a)"
proof -
  have "Amount_Value A a = dec4_text (Negative a) (Coeff a)"
    using apd_lib.String_at_scale [OF assms(1,2)] by (simp add: Amount_Value_def Amount_String_def)
  moreover have "Coeff a < 10 ^ 19" using assms(3) units_at_scale [OF assms(2)] abs_dval [of a] by simp
  ultimately show ?thesis
    using numeric_in_dec4 [of "Coeff a"] units_at_scale [OF assms(2)] by (simp add: dval_def)
qed

lemma transfer_tx_posted:
  assumes "apd_lib (lib_apd L)" "two_legs t l1 l2"
    and "je_Amount l1 = Amount_Neg (lib_apd L) a" "je_Amount l2 = a" "at_scale a"
    and ev: "ae_AggregateID ev = tx_ID t"
    and run: "transfer_tx L t obid req ev env v d = (d', v', None)"
  shows "\<exists>ob p. posted t l1 l2 (units a) ob p d d'
    \<and> ob_Payload ob = tr_OutboxPayload req \<and> ob_EventSchema ob = tr_OutboxSchema req
    \<and> (\<exists>e'. store_event (lib_jsonb L) ev = Inr e' \<and> pr_event p = e')"
proof -
  let ?A = "lib_apd L"
  have "run_batch env 0 (transfer_batch L env t obid req ev) d = Inr d'"
    using run by (auto simp: transfer_tx_def split: sum.splits)
  then obtain d1 d2 d3 d4 where
    1: "insert_transaction (transaction_row t) d = Inr d1"
    and 2: "insert_leg ?A l1 d1 = Inr d2" and 3: "insert_leg ?A l2 d2 = Inr d3"
    and 4: "insert_outbox_event \<lparr>ob_ID = obid, ob_AggregateType = AggregateTypeTransaction,
           ob_AggregateID = tx_ID t, ob_EventSchema = tr_OutboxSchema req, ob_Payload = tr_OutboxPayload req,
           ob_Status = OutboxStatusPending, ob_CreatedAt = tx_CreatedAt t\<rparr> d3 = Inr d4"
    and 5: "insert_audit_pending (lib_jsonb L) (at_uuid env) (at_now env) ev d4 = Inr d'"
    using assms(2) by (auto simp: transfer_batch_def two_legs_def run_batch_Cons_Inr simp del: run_batch.simps(2))
  note 1 = insert_transaction_Inr [OF 1]
  from insert_leg_Inr [OF 2] obtain n1 where n1: "numeric_in (Amount_Value ?A (je_Amount l1)) = Inr n1"
    "d2 = d1\<lparr>journal_entries := journal_entries d1 @ [leg_row l1 n1]\<rparr>"
    "has_account d1 (je_AccountID l1) (je_TenantID l1) (je_Currency l1)" by blast
  from insert_leg_Inr [OF 3] obtain n2 where n2: "numeric_in (Amount_Value ?A (je_Amount l2)) = Inr n2"
    "d3 = d2\<lparr>journal_entries := journal_entries d2 @ [leg_row l2 n2]\<rparr>"
    "has_account d2 (je_AccountID l2) (je_TenantID l2) (je_Currency l2)" by blast
  note 4 = insert_outbox_Inr [OF 4]
  from insert_audit_pending_Inr [OF 5] obtain e' where e': "store_event (lib_jsonb L) ev = Inr e'"
    "d' = d4\<lparr>audit_pending := audit_pending d4 @
         [\<lparr>pr_id = at_uuid env, pr_enqueued_at = pg_timestamp (at_now env), pr_event = e'\<rparr>]\<rparr>"
    "\<forall>q \<in> set (audit_pending d4). (env_TenantID (pr_event q), pr_id q) \<noteq> (env_TenantID e', at_uuid env)"
    by blast
  have amounts: "n1 = - units a" "n2 = units a" "\<bar>units a\<bar> < 10 ^ 19"
    using numeric_in_amount [OF assms(1) apd_lib.Neg_at_scale [OF assms(1,5)]] n1(1)
      numeric_in_amount [OF assms(1,5)] n2(1) assms(3,4) apd_lib.units_Neg [OF assms(1,5)] by auto
  let ?ob = "\<lparr>ob_ID = obid, ob_AggregateType = AggregateTypeTransaction, ob_AggregateID = tx_ID t,
     ob_EventSchema = tr_OutboxSchema req, ob_Payload = tr_OutboxPayload req,
     ob_Status = OutboxStatusPending, ob_CreatedAt = pg_timestamp (tx_CreatedAt t)\<rparr>"
  let ?p = "\<lparr>pr_id = at_uuid env, pr_enqueued_at = pg_timestamp (at_now env), pr_event = e'\<rparr>"
  have "posted t l1 l2 (units a) ?ob ?p d d'"
    using 1 n1(2,3) n2(2,3) 4 e'(2,3) amounts assms(2) ev store_event_Inr [OF e'(1)]
    by (auto simp: posted_def has_account_def transaction_row_def two_legs_def)
  with e'(1) show ?thesis by (intro exI [of _ ?ob] exI [of _ ?p]) simp
qed

section \<open>ExecuteTransfer\<close>

definition debit_of :: "apd \<Rightarrow> exec_env \<Rightarrow> TransferRequest \<Rightarrow> JournalEntry" where
  "debit_of A ex req = hd (tx_Entries (build_transaction A ex req))"

definition credit_of :: "apd \<Rightarrow> exec_env \<Rightarrow> TransferRequest \<Rightarrow> JournalEntry" where
  "credit_of A ex req = hd (tl (tx_Entries (build_transaction A ex req)))"

lemma build_legs:
  "two_legs (build_transaction A ex req) (debit_of A ex req) (credit_of A ex req)"
  "je_Amount (debit_of A ex req) = Amount_Neg A (tr_Amount req)"
  "je_Amount (credit_of A ex req) = tr_Amount req"
  "je_AccountID (debit_of A ex req) = tr_FromAccountID req"
  "je_AccountID (credit_of A ex req) = tr_ToAccountID req"
  "je_Currency (debit_of A ex req) = tr_Currency req"
  "je_Currency (credit_of A ex req) = tr_Currency req"
  by (simp_all add: two_legs_def build_transaction_def debit_of_def credit_of_def Let_def)

lemma tx_build:
  "tx_ID (build_transaction A ex req) = ex_ids ex 0"
  "tx_TenantID (build_transaction A ex req) = tr_TenantID req"
  "tx_IdempotencyKey (build_transaction A ex req) = tr_IdempotencyKey req"
  "tx_CreatedAt (build_transaction A ex req) = ex_now ex"
  "tx_Status (build_transaction A ex req) = TransactionStatusCommitted"
  "tx_RequestFingerprint (build_transaction A ex req) = tr_RequestFingerprint req"
  by (simp_all add: build_transaction_def Let_def)

lemma audit_event_of_simps [simp]:
  "ae_AggregateID (audit_event_of req t b) = tx_ID t"
  "env_TenantID (audit_event_of req t b) = env_TenantID (tr_AuditEnvelope req)"
  "env_OccurredAt (audit_event_of req t b) = env_OccurredAt (tr_AuditEnvelope req)"
  by (simp_all add: audit_event_of_def AuditEnvelope.extend_def AuditEvent.fields_def)

text \<open>A request whose amount came from \<open>NewAmount\<close>.\<close>

definition amount_in :: "Amount \<Rightarrow> bool" where
  "amount_in a \<longleftrightarrow> at_scale a \<or> Form a \<noteq> Finite"

lemma accepted_amount:
  assumes "apd_lib A" "amount_in (tr_Amount req)"
    and "validateTransferRequest A req = None" "AssertBalanced A (build_transaction A ex req) = None"
  shows "at_scale (tr_Amount req) \<and> 0 < units (tr_Amount req)"
proof -
  let ?t = "build_transaction A ex req"
  have es: "tx_Entries ?t = [debit_of A ex req, credit_of A ex req]" using build_legs(1) by (simp add: two_legs_def)
  have fin: "Form (tr_Amount req) = Finite"
    using apd_lib.unbalanced_special [OF assms(1), of "credit_of A ex req" ?t] assms(4) es build_legs(3) by auto
  then have at: "at_scale (tr_Amount req)" using assms(2) by (simp add: amount_in_def)
  moreover have "\<not> Amount_IsZero A (tr_Amount req)" "\<not> Amount_IsNegative A (tr_Amount req)"
    using assms(3) by (auto simp: validateTransferRequest_def split: if_splits)
  ultimately show ?thesis
    using apd_lib.IsZero_units [OF assms(1) at_scale_scaled] apd_lib.IsNegative_units [OF assms(1)] by force
qed

lemma breaker_allow_world [simp]:
  "lw_db (fst (breaker_allow w now k)) = lw_db w" "lw_pool (fst (breaker_allow w now k)) = lw_pool w"
  by (simp_all add: breaker_allow_def split: option.split prod.split)

lemma breaker_record_world [simp]:
  "lw_db (breaker_record w now k c) = lw_db w" "lw_pool (breaker_record w now k c) = lw_pool w"
  by (simp_all add: breaker_record_def split: option.split)

text \<open>Either the call ends before a transaction is opened, with an error and untouched tables, or
  its result and its tables are those of \<open>InTx\<close>.\<close>

lemma ExecuteTransfer_cases:
  assumes "ExecuteTransfer L r ex req w = (w', res)"
  shows "(\<exists>e. res = Inl e) \<and> lw_db w' = lw_db w \<and> lw_pool w' = lw_pool w
    \<or> (\<exists>body s err. validateTransferRequest (lib_apd L) req = None
         \<and> AssertBalanced (lib_apd L) (build_transaction (lib_apd L) ex req) = None
         \<and> InTx (lr_acquireCfg r) (lr_retry r)
             (transfer_tx L (build_transaction (lib_apd L) ex req) (ex_ids ex 3) req
               (audit_event_of req (build_transaction (lib_apd L) ex req) body)) (ex_attempts ex)
             \<lparr>ts_pool = lw_pool w, ts_db = lw_db w, ts_vars = ()\<rparr> = (s, err)
         \<and> lw_db w' = ts_db s \<and> lw_pool w' = ts_pool s
         \<and> res = (case err of Some e \<Rightarrow> Inl e | None \<Rightarrow> Inr (build_transaction (lib_apd L) ex req)))"
proof -
  let ?k = "BreakerKey (tr_TenantID req) ''ExecuteTransfer''"
  obtain w1 ok where b: "breaker_allow w (ex_br_allow ex) ?k = (w1, ok)"
    by (cases "breaker_allow w (ex_br_allow ex) ?k")
  have w1: "lw_db w1 = lw_db w" "lw_pool w1 = lw_pool w"
    using breaker_allow_world [of w "ex_br_allow ex" ?k] by (simp_all add: b)
  let ?t = "build_transaction (lib_apd L) ex req"
  show ?thesis
  proof (cases "validateTransferRequest (lib_apd L) req = None \<and> AssertBalanced (lib_apd L) ?t = None \<and> ok
      \<and> (\<exists>body. canonicalTransactionAudit L ?t = Inr body
            \<and> validateAuditEnvelope (audit_event_of req ?t body) = None)")
    case True
    then obtain body where body: "canonicalTransactionAudit L ?t = Inr body"
      "validateAuditEnvelope (audit_event_of req ?t body) = None" by blast
    obtain s err where tx: "InTx (lr_acquireCfg r) (lr_retry r)
        (transfer_tx L ?t (ex_ids ex 3) req (audit_event_of req ?t body)) (ex_attempts ex)
        \<lparr>ts_pool = lw_pool w, ts_db = lw_db w, ts_vars = ()\<rparr> = (s, err)" by (rule prod.exhaust)
    from assms True body tx have "lw_db w' = ts_db s \<and> lw_pool w' = ts_pool s
        \<and> res = (case err of Some e \<Rightarrow> Inl e | None \<Rightarrow> Inr ?t)"
      unfolding ExecuteTransfer_def Let_def b by (auto simp: w1)
    with True tx show ?thesis by blast
  next
    case False
    then have "(\<exists>e. res = Inl e) \<and> (w' = w \<or> w' = w1)"
      using assms unfolding ExecuteTransfer_def Let_def b
      by (auto split: option.splits sum.splits bool.splits)
    with w1 show ?thesis by auto
  qed
qed

lemma transfer_run_posted:
  assumes "apd_lib (lib_apd L)" "at_scale (tr_Amount req)"
    and "transfer_tx L (build_transaction (lib_apd L) ex req) obid req
           (audit_event_of req (build_transaction (lib_apd L) ex req) body) env v d = (d', v', None)"
  shows "\<exists>ob p. posted (build_transaction (lib_apd L) ex req) (debit_of (lib_apd L) ex req)
      (credit_of (lib_apd L) ex req) (units (tr_Amount req)) ob p d d'
      \<and> ob_Payload ob = tr_OutboxPayload req \<and> ob_EventSchema ob = tr_OutboxSchema req
      \<and> env_TenantID (pr_event p) = env_TenantID (tr_AuditEnvelope req)
      \<and> env_OccurredAt (pr_event p) = pg_timestamp (env_OccurredAt (tr_AuditEnvelope req))"
proof -
  from transfer_tx_posted [OF assms(1) build_legs(1) build_legs(2,3) assms(2) _ assms(3)]
  obtain ob p e' where "posted (build_transaction (lib_apd L) ex req) (debit_of (lib_apd L) ex req)
      (credit_of (lib_apd L) ex req) (units (tr_Amount req)) ob p d d'"
    "ob_Payload ob = tr_OutboxPayload req" "ob_EventSchema ob = tr_OutboxSchema req"
    "store_event (lib_jsonb L) (audit_event_of req (build_transaction (lib_apd L) ex req) body) = Inr (pr_event p)"
    by auto
  with store_event_Inr [OF this(4)] show ?thesis by (intro exI [of _ ob] exI [of _ p]) simp
qed

lemma ExecuteTransfer_ok:
  assumes "apd_lib (lib_apd L)" "amount_in (tr_Amount req)" "db_ok (lw_db w)"
    and "\<And>i d. db_ok d \<Longrightarrow> db_ok (at_before (ex_attempts ex i) d)"
    and "ExecuteTransfer L r ex req w = (w', res)"
  shows "db_ok (lw_db w') \<and> pl_acquired (lw_pool w') = pl_acquired (lw_pool w)
    \<and> (\<forall>t. res = Inr t \<longrightarrow> t = build_transaction (lib_apd L) ex req
         \<and> at_scale (tr_Amount req) \<and> 0 < units (tr_Amount req)
         \<and> (\<exists>d0 ob p. db_ok d0 \<and> posted t (debit_of (lib_apd L) ex req) (credit_of (lib_apd L) ex req)
               (units (tr_Amount req)) ob p d0 (lw_db w')
               \<and> ob_Payload ob = tr_OutboxPayload req \<and> ob_EventSchema ob = tr_OutboxSchema req
               \<and> env_TenantID (pr_event p) = env_TenantID (tr_AuditEnvelope req)))"
  using ExecuteTransfer_cases [OF assms(5)]
proof (elim disjE exE conjE)
  fix body s err
  let ?t = "build_transaction (lib_apd L) ex req"
  let ?fn = "transfer_tx L ?t (ex_ids ex 3) req (audit_event_of req ?t body)"
  assume v: "validateTransferRequest (lib_apd L) req = None" "AssertBalanced (lib_apd L) ?t = None"
    and tx: "InTx (lr_acquireCfg r) (lr_retry r) ?fn (ex_attempts ex)
        \<lparr>ts_pool = lw_pool w, ts_db = lw_db w, ts_vars = ()\<rparr> = (s, err)"
    and w': "lw_db w' = ts_db s" "lw_pool w' = ts_pool s"
    and res: "res = (case err of Some e \<Rightarrow> Inl e | None \<Rightarrow> Inr ?t)"
  have a: "at_scale (tr_Amount req)" "0 < units (tr_Amount req)"
    using accepted_amount [OF assms(1,2) v] by auto
  note post = transfer_run_posted [OF assms(1) a(1), of ex]
  have step: "db_ok d'" if "db_ok d" "?fn (ex_attempts ex i) u d = (d', u', None)" for i u d d' u'
    using post [OF that(2)] db_ok_posted [OF that(1)] build_legs(1) by blast
  have ok: "db_ok (ts_db \<lparr>ts_pool = lw_pool w, ts_db = lw_db w, ts_vars = ()\<rparr>)" using assms(3) by simp
  have inv: "db_ok (ts_db s) \<and> pl_acquired (ts_pool s) = pl_acquired (lw_pool w)"
  proof -
    have "db_ok (ts_db s) \<and> pl_acquired (ts_pool s) =
        pl_acquired (ts_pool \<lparr>ts_pool = lw_pool w, ts_db = lw_db w, ts_vars = ()\<rparr>)"
      by (rule InTx_invariant [where I = db_ok, OF tx ok]) (erule assms(4), erule (1) step)
    then show ?thesis by simp
  qed
  have "\<exists>d0 ob p. db_ok d0 \<and> posted ?t (debit_of (lib_apd L) ex req) (credit_of (lib_apd L) ex req)
      (units (tr_Amount req)) ob p d0 (ts_db s)
      \<and> ob_Payload ob = tr_OutboxPayload req \<and> ob_EventSchema ob = tr_OutboxSchema req
      \<and> env_TenantID (pr_event p) = env_TenantID (tr_AuditEnvelope req)" if "err = None"
  proof -
    note tx_ok = tx [unfolded that]
    have "\<exists>i u d. db_ok d \<and> at_commit (ex_attempts ex i) = CommitOk
        \<and> ?fn (ex_attempts ex i) u d = (ts_db s, ts_vars s, None)"
      by (rule InTx_ok [where I = db_ok, OF tx_ok ok]) (erule assms(4), erule (1) step)
    with post show ?thesis by blast
  qed
  with inv a res w' show ?thesis by (cases err) auto
qed (use assms(3) in auto)

lemma ExecuteTransfer_err:
  assumes "ExecuteTransfer L r ex req w = (w', Inl e)"
    and "\<And>i d. at_before (ex_attempts ex i) d = d"
    and "\<And>i e. at_commit (ex_attempts ex i) \<noteq> CommitFails e True"
  shows "lw_db w' = lw_db w"
  using ExecuteTransfer_cases [OF assms(1)]
proof (elim disjE exE conjE)
  fix body s err
  assume "InTx (lr_acquireCfg r) (lr_retry r)
      (transfer_tx L (build_transaction (lib_apd L) ex req) (ex_ids ex 3) req
        (audit_event_of req (build_transaction (lib_apd L) ex req) body)) (ex_attempts ex)
      \<lparr>ts_pool = lw_pool w, ts_db = lw_db w, ts_vars = ()\<rparr> = (s, err)"
    and "lw_db w' = ts_db s" "Inl e = (case err of Some e \<Rightarrow> Inl e | None \<Rightarrow> Inr (build_transaction (lib_apd L) ex req))"
  then show ?thesis using InTx_err_unchanged [OF _ assms(2,3)] by (cases err) force+
qed simp

end
