(* ===== verification/Ledger_Props.thy ===== *)
theory Ledger_Props
  imports Ledger_Invariant
begin

text \<open>
  The properties of \<open>ExecuteTransfer\<close> and of the reads: at-most-once posting whatever the driver
  answers, the invariant under concurrent sessions, the complete input-output behaviour on a
  healthy database, and the round trip from a committed transfer to the transaction read back.
\<close>

section \<open>At most once\<close>

text \<open>The same transaction cannot be posted on top of itself.\<close>

lemma not_posted_twice:
  assumes "posted t l1 l2 x ob p d d'" "posted t l1' l2' x' ob' p' d' d''"
  shows False
  using assms by (auto simp: posted_def tx_ids_def transaction_row_def)

text \<open>The tables after the transfer \<open>req\<close>, from \<open>d\<close>.\<close>

definition transferred :: "apd \<Rightarrow> exec_env \<Rightarrow> TransferRequest \<Rightarrow> db \<Rightarrow> db \<Rightarrow> bool" where
  "transferred A ex req d d' \<longleftrightarrow>
     (\<exists>ob p. posted (build_transaction A ex req) (debit_of A ex req) (credit_of A ex req)
        (units (tr_Amount req)) ob p d d'
        \<and> ob_Payload ob = tr_OutboxPayload req \<and> ob_EventSchema ob = tr_OutboxSchema req
        \<and> env_TenantID (pr_event p) = env_TenantID (tr_AuditEnvelope req))"

lemma transferred_not_twice: "transferred A ex req d d' \<Longrightarrow> \<not> transferred A ex req d' d''"
  unfolding transferred_def using not_posted_twice by blast

lemma transferred_balance:
  assumes "transferred A ex req d d'" "tr_FromAccountID req \<noteq> tr_ToAccountID req"
  shows "balance d' = (balance d)(tr_FromAccountID req := balance d (tr_FromAccountID req) - units (tr_Amount req),
      tr_ToAccountID req := balance d (tr_ToAccountID req) + units (tr_Amount req))"
  using assms by (auto simp: transferred_def fun_eq_iff balance_posted build_legs)

lemma ExecuteTransfer_once:
  assumes "apd_lib (lib_apd L)" "amount_in (tr_Amount req)"
    and quiet: "\<And>i d. at_before (ex_attempts ex i) d = d"
    and "ExecuteTransfer L r ex req w = (w', res)"
  shows "(lw_db w' = lw_db w \<or> transferred (lib_apd L) ex req (lw_db w) (lw_db w'))
    \<and> (\<forall>t. res = Inr t \<longrightarrow> t = build_transaction (lib_apd L) ex req
         \<and> transferred (lib_apd L) ex req (lw_db w) (lw_db w')
         \<and> validateTransferRequest (lib_apd L) req = None \<and> 0 < units (tr_Amount req))"
  using ExecuteTransfer_cases [OF assms(4)]
proof (elim disjE exE conjE)
  fix body s err
  let ?A = "lib_apd L" let ?t = "build_transaction ?A ex req"
  let ?fn = "transfer_tx L ?t (ex_ids ex 3) req (audit_event_of req ?t body)"
  let ?s = "\<lparr>ts_pool = lw_pool w, ts_db = lw_db w, ts_vars = ()\<rparr>"
  let ?I = "\<lambda>d. d = lw_db w \<or> transferred ?A ex req (lw_db w) d"
  assume v: "validateTransferRequest ?A req = None" "AssertBalanced ?A ?t = None"
    and tx: "InTx (lr_acquireCfg r) (lr_retry r) ?fn (ex_attempts ex) ?s = (s, err)"
    and w': "lw_db w' = ts_db s" "lw_pool w' = ts_pool s"
    and res: "res = (case err of Some e \<Rightarrow> Inl e | None \<Rightarrow> Inr ?t)"
  have a: "at_scale (tr_Amount req)" "0 < units (tr_Amount req)"
    using accepted_amount [OF assms(1,2) v] by auto
  have run: "transferred ?A ex req d d'" if "?fn (ex_attempts ex i) u d = (d', u', None)" for i u d d' u'
    using transfer_run_posted [OF assms(1) a(1) that] by (auto simp: transferred_def)
  have step: "?I d'" if "?I d" "?fn (ex_attempts ex i) u d = (d', u', None)" for i u d d' u'
    using run [OF that(2)] that(1) transferred_not_twice by blast
  have ok: "?I (ts_db ?s)" by simp
  have rely: "?I (at_before (ex_attempts ex i) d)" if "?I d" for i d using that quiet by simp
  have inv: "?I (ts_db s) \<and> pl_acquired (ts_pool s) = pl_acquired (ts_pool ?s)"
    by (rule InTx_invariant [where I = ?I, OF tx ok]) (erule rely, erule (1) step)
  have "transferred ?A ex req (lw_db w) (ts_db s)" if e: "err = None"
  proof -
    have "\<exists>i u d. ?I d \<and> at_commit (ex_attempts ex i) = CommitOk
        \<and> ?fn (ex_attempts ex i) u d = (ts_db s, ts_vars s, None)"
      by (rule InTx_ok [where I = ?I, OF tx [unfolded e] ok]) (erule rely, erule (1) step)
    then obtain d where "?I d" "transferred ?A ex req d (ts_db s)" using run by blast
    then show ?thesis using transferred_not_twice by blast
  qed
  with inv a v res w' show ?thesis by (cases err) auto
qed auto

section \<open>A healthy database\<close>

definition healthy :: "db attempt_env \<Rightarrow> bool" where
  "healthy env \<longleftrightarrow> at_acquire env = None \<and> at_begin env = None \<and> (\<forall>i. at_stmt env i = None)
     \<and> at_commit env = CommitOk \<and> at_rollback env = None \<and> (\<forall>d. at_before env d = d)"

lemma retry_first:
  assumes "fn 0 s = (s1, r)" "\<And>e. r = Some e \<Longrightarrow> \<not> IsSerializationFailure e"
  shows "WithRetryOnSerializationFailure rc fn stop s = (s1, r, [])"
proof -
  have "0 < MaxAttempts (effective_retry rc)" by (simp add: effective_retry_def DefaultRetryConfig_def)
  then obtain n where "nat (MaxAttempts (effective_retry rc)) = Suc n"
    by (cases "nat (MaxAttempts (effective_retry rc))") auto
  with assms show ?thesis
    by (cases r) (auto simp: WithRetryOnSerializationFailure_def Let_def)
qed

lemma InTx_healthy:
  assumes "healthy (envs 0)" "fn (envs 0) (ts_vars s) (ts_db s) = (d', v', r)"
    and "\<And>e. r = Some e \<Longrightarrow> \<not> IsSerializationFailure e"
  shows "\<exists>s'. InTx pc rc fn envs s = (s', r) \<and> ts_db s' = (if r = None then d' else ts_db s)"
proof -
  obtain s' where s': "tx_attempt pc fn (envs 0) s = (s', r)"
    "ts_db s' = (if r = None then d' else ts_db s)"
    using assms(1,2)
    by (cases r) (auto simp: healthy_def tx_attempt_def pool_defs Let_def)
  then show ?thesis
    using retry_first [of "\<lambda>i. tx_attempt pc fn (envs i)" s s' r] assms(3) by (simp add: InTx_def)
qed

text \<open>A request the columns can hold, with ids nobody used.\<close>

definition storable :: "libs \<Rightarrow> exec_env \<Rightarrow> TransferRequest \<Rightarrow> bytes \<Rightarrow> bool" where
  "storable L ex req body \<longleftrightarrow>
     varchar 128 (tr_TenantID req) \<and> varchar 255 (tr_IdempotencyKey req) \<and> varchar 64 (tr_RequestFingerprint req)
     \<and> units (tr_Amount req) < 10 ^ 19 \<and> varchar 80 (tr_OutboxSchema req)
     \<and> (\<exists>ev. store_event (lib_jsonb L) (audit_event_of req (build_transaction (lib_apd L) ex req) body) = Inr ev)"

definition fresh_ids :: "exec_env \<Rightarrow> string \<Rightarrow> string \<Rightarrow> db \<Rightarrow> bool" where
  "fresh_ids ex tenant atenant d \<longleftrightarrow> ex_ids ex 0 \<notin> tx_ids d \<and> ex_ids ex 1 \<noteq> ex_ids ex 2
     \<and> (\<forall>r \<in> set (journal_entries d). jer_id r \<notin> {ex_ids ex 1, ex_ids ex 2})
     \<and> ex_ids ex 3 \<notin> ob_ID ` set (outbox_events d)
     \<and> (\<forall>p \<in> set (audit_pending d). \<not> (env_TenantID (pr_event p) = atenant \<and> pr_id p = at_uuid (ex_attempts ex 0)))"

definition key_used :: "string \<Rightarrow> string \<Rightarrow> db \<Rightarrow> bool" where
  "key_used tenant key d \<longleftrightarrow>
     list_ex (\<lambda>r. txr_tenant_id r = tenant \<and> txr_idempotency_key r = key) (transactions d)"

lemma Currency_Valid_length: "Currency_Valid c \<Longrightarrow> length c = 3"
  by (simp add: Currency_Valid_def split: if_splits)

lemma insert_leg_eval:
  assumes "numeric_in (Amount_Value A (je_Amount leg)) = Inr n" "varchar 128 (je_TenantID leg)"
    "length (je_Currency leg) = 3"
    "\<forall>r \<in> set (journal_entries d). jer_id r \<noteq> je_ID leg"
    "list_ex (\<lambda>t. txr_id t = je_TransactionID leg \<and> txr_tenant_id t = je_TenantID leg) (transactions d)"
  shows "insert_leg A leg d =
    (if has_account d (je_AccountID leg) (je_TenantID leg) (je_Currency leg)
     then Inr (d\<lparr>journal_entries := journal_entries d @ [leg_row leg n]\<rparr>)
     else Inl (PgError pgForeignKeyViolationCode))"
  using assms
  by (auto simp: insert_leg_def insert_journal_entry_def has_account_def je_references_def leg_row_def
      varchar_def list_ex_iff Let_def)

lemma run_batch_healthy:
  "\<forall>i. at_stmt env i = None \<Longrightarrow>
   run_batch env i (f # fs) d = (case f d of Inl e \<Rightarrow> Inl (i, e) | Inr d' \<Rightarrow> run_batch env (i + 1) fs d')"
  by (simp add: exec_stmt_def)

lemma insert_transaction_eval:
  assumes "storable L ex req body" "fresh_ids ex (tr_TenantID req) ten d"
  shows "insert_transaction (transaction_row (build_transaction A ex req)) d =
    (if key_used (tr_TenantID req) (tr_IdempotencyKey req) d then Inl (PgError pgUniqueViolationCode)
     else Inr (d\<lparr>transactions := transactions d @
            [(transaction_row (build_transaction A ex req))\<lparr>txr_created_at := pg_timestamp (ex_now ex)\<rparr>]\<rparr>))"
proof -
  have "\<not> list_ex (\<lambda>q. txr_id q = ex_ids ex 0) (transactions d)"
    using assms(2) by (force simp: fresh_ids_def tx_ids_def list_ex_iff)
  then show ?thesis
    using assms(1)
    by (simp add: insert_transaction_def transaction_row_def tx_build key_used_def storable_def
        varchar_def TransactionStatus_Valid_def status_consts)
qed

lemma insert_outbox_eval:
  assumes "storable L ex req body" "fresh_ids ex (tr_TenantID req) ten d" "outbox_events d' = outbox_events d"
  shows "\<exists>d''. insert_outbox_event \<lparr>ob_ID = ex_ids ex 3, ob_AggregateType = AggregateTypeTransaction,
      ob_AggregateID = i, ob_EventSchema = tr_OutboxSchema req, ob_Payload = pl,
      ob_Status = OutboxStatusPending, ob_CreatedAt = now\<rparr> d' = Inr d'' \<and> audit_pending d'' = audit_pending d'"
  using assms
  by (force simp: insert_outbox_event_def storable_def fresh_ids_def varchar_def list_ex_iff
      AggregateTypeTransaction_def OutboxStatus_Valid_def status_consts)

text \<open>The two leg inserts after the transaction row.\<close>

lemma insert_legs_eval:
  assumes "apd_lib A" "at_scale (tr_Amount req)" "0 < units (tr_Amount req)" "Currency_Valid (tr_Currency req)"
    and "storable L ex req body" "fresh_ids ex (tr_TenantID req) ten d"
    and d1: "d1 = d\<lparr>transactions := transactions d @
            [(transaction_row (build_transaction A ex req))\<lparr>txr_created_at := pg_timestamp (ex_now ex)\<rparr>]\<rparr>"
    and d2: "d2 = d1\<lparr>journal_entries := journal_entries d @ [leg_row (debit_of A ex req) (- units (tr_Amount req))]\<rparr>"
    and d3: "d3 = d2\<lparr>journal_entries := journal_entries d2 @ [leg_row (credit_of A ex req) (units (tr_Amount req))]\<rparr>"
  shows "insert_leg A (debit_of A ex req) d1 =
      (if has_account d (tr_FromAccountID req) (tr_TenantID req) (tr_Currency req) then Inr d2
       else Inl (PgError pgForeignKeyViolationCode))"
    and "insert_leg A (credit_of A ex req) d2 =
      (if has_account d (tr_ToAccountID req) (tr_TenantID req) (tr_Currency req) then Inr d3
       else Inl (PgError pgForeignKeyViolationCode))"
proof -
  let ?l1 = "debit_of A ex req" and ?l2 = "credit_of A ex req"
  have legs: "je_TenantID ?l1 = tr_TenantID req" "je_TenantID ?l2 = tr_TenantID req"
    "je_TransactionID ?l1 = ex_ids ex 0" "je_TransactionID ?l2 = ex_ids ex 0"
    "je_ID ?l1 = ex_ids ex 1" "je_ID ?l2 = ex_ids ex 2"
    by (simp_all add: debit_of_def credit_of_def build_transaction_def Let_def)
  have n2: "numeric_in (Amount_Value A (je_Amount ?l2)) = Inr (units (tr_Amount req))"
    using numeric_in_amount_ok [OF assms(1,2)] assms(3,5) by (simp add: build_legs storable_def)
  have n1: "numeric_in (Amount_Value A (je_Amount ?l1)) = Inr (- units (tr_Amount req))"
    using numeric_in_amount_ok [OF assms(1) apd_lib.Neg_at_scale [OF assms(1,2)]]
      apd_lib.units_Neg [OF assms(1,2)] assms(3,5) by (simp add: build_legs storable_def)
  have cur: "length (tr_Currency req) = 3" using assms(4) by (rule Currency_Valid_length)
  have ref: "list_ex (\<lambda>t. txr_id t = ex_ids ex 0 \<and> txr_tenant_id t = tr_TenantID req) (transactions d1)"
    by (simp add: d1 transaction_row_def tx_build)
  show "insert_leg A ?l1 d1 =
      (if has_account d (tr_FromAccountID req) (tr_TenantID req) (tr_Currency req) then Inr d2
       else Inl (PgError pgForeignKeyViolationCode))"
    using insert_leg_eval [OF n1, of d1] assms(5,6) cur ref
    by (simp add: legs build_legs storable_def fresh_ids_def) (simp add: d1 d2 has_account_def)
  show "insert_leg A ?l2 d2 =
      (if has_account d (tr_ToAccountID req) (tr_TenantID req) (tr_Currency req) then Inr d3
       else Inl (PgError pgForeignKeyViolationCode))"
    using insert_leg_eval [OF n2, of d2] assms(5,6) cur ref
    by (simp add: legs build_legs storable_def fresh_ids_def d2 d3 leg_row_def)
      (simp add: d1 has_account_def)
qed

text \<open>The outcome of the batch on a healthy database.\<close>

definition transfer_outcome :: "TransferRequest \<Rightarrow> db \<Rightarrow> go_error option" where
  "transfer_outcome req d =
     (if key_used (tr_TenantID req) (tr_IdempotencyKey req) d then Some (Sentinel ErrDuplicateIdempotencyKey)
      else if \<not> (has_account d (tr_FromAccountID req) (tr_TenantID req) (tr_Currency req)
              \<and> has_account d (tr_ToAccountID req) (tr_TenantID req) (tr_Currency req))
        then Some (Sentinel ErrAccountTenantMismatch)
      else None)"

lemma transfer_tx_healthy:
  assumes "apd_lib (lib_apd L)" "healthy env" "env = ex_attempts ex 0"
    and "at_scale (tr_Amount req)" "0 < units (tr_Amount req)" "Currency_Valid (tr_Currency req)"
    and "storable L ex req body" "fresh_ids ex (tr_TenantID req) (env_TenantID (tr_AuditEnvelope req)) d"
  shows "\<exists>d'. transfer_tx L (build_transaction (lib_apd L) ex req) (ex_ids ex 3) req
      (audit_event_of req (build_transaction (lib_apd L) ex req) body) env v d = (d', v, transfer_outcome req d)"
proof -
  let ?A = "lib_apd L" let ?t = "build_transaction ?A ex req" let ?ev = "audit_event_of req ?t body"
  have st: "\<forall>i. at_stmt env i = None" using assms(2) by (simp add: healthy_def)
  have es: "tx_Entries ?t = [debit_of ?A ex req, credit_of ?A ex req]" using build_legs(1) by (simp add: two_legs_def)
  define d1 where "d1 = d\<lparr>transactions := transactions d @ [(transaction_row ?t)\<lparr>txr_created_at := pg_timestamp (ex_now ex)\<rparr>]\<rparr>"
  define d2 where "d2 = d1\<lparr>journal_entries := journal_entries d @ [leg_row (debit_of ?A ex req) (- units (tr_Amount req))]\<rparr>"
  define d3 where "d3 = d2\<lparr>journal_entries := journal_entries d2 @ [leg_row (credit_of ?A ex req) (units (tr_Amount req))]\<rparr>"
  have "outbox_events d3 = outbox_events d" "audit_pending d3 = audit_pending d"
    by (simp_all add: d3_def d2_def d1_def)
  then obtain d4 where ob: "insert_outbox_event \<lparr>ob_ID = ex_ids ex 3, ob_AggregateType = AggregateTypeTransaction,
      ob_AggregateID = tx_ID ?t, ob_EventSchema = tr_OutboxSchema req, ob_Payload = tr_OutboxPayload req,
      ob_Status = OutboxStatusPending, ob_CreatedAt = tx_CreatedAt ?t\<rparr> d3 = Inr d4"
    "audit_pending d4 = audit_pending d"
    using insert_outbox_eval [OF assms(7,8), of d3 "tx_ID ?t" "tr_OutboxPayload req" "tx_CreatedAt ?t"] by auto
  obtain ev where ev: "store_event (lib_jsonb L) ?ev = Inr ev" using assms(7) by (auto simp: storable_def)
  obtain d5 where au: "insert_audit_pending (lib_jsonb L) (at_uuid env) (at_now env) ?ev d4 = Inr d5"
    using assms(3,8) ev ob(2) by (auto simp: insert_audit_pending_def fresh_ids_def list_ex_iff)
  note eval = insert_transaction_eval [OF assms(7,8), of ?A, folded d1_def]
    insert_legs_eval [OF assms(1,4-8) d1_def d2_def d3_def] ob(1) au
  show ?thesis
    by (simp add: transfer_tx_def transfer_batch_def run_batch_healthy [OF st] es eval classifyBatchErr_def
        IsForeignKeyViolation_def IsUniqueViolation_def transfer_outcome_def del: run_batch.simps(2))
qed

lemma ExecuteTransfer_healthy:
  assumes "apd_lib (lib_apd L)" "amount_in (tr_Amount req)" "healthy (ex_attempts ex 0)" "lw_breaker w = None"
    and "validateTransferRequest (lib_apd L) req = None" "Form (tr_Amount req) = Finite"
    and "canonicalTransactionAudit L (build_transaction (lib_apd L) ex req) = Inr body"
    and "validateAuditEnvelope (audit_event_of req (build_transaction (lib_apd L) ex req) body) = None"
    and "storable L ex req body"
    and "fresh_ids ex (tr_TenantID req) (env_TenantID (tr_AuditEnvelope req)) (lw_db w)"
  shows "\<exists>w'. ExecuteTransfer L r ex req w = (w', case transfer_outcome req (lw_db w) of
       Some e \<Rightarrow> Inl e | None \<Rightarrow> Inr (build_transaction (lib_apd L) ex req))"
proof -
  let ?A = "lib_apd L" let ?t = "build_transaction ?A ex req"
  have at: "at_scale (tr_Amount req)" using assms(2,6) by (simp add: amount_in_def)
  have bal: "AssertBalanced ?A ?t = None"
    using apd_lib.balanced_pair [OF assms(1) at] build_legs by (auto simp: two_legs_def)
  have pos: "0 < units (tr_Amount req)" using accepted_amount [OF assms(1,2,5) bal] by simp
  have cur: "Currency_Valid (tr_Currency req)"
    using assms(5) by (auto simp: validateTransferRequest_def split: if_splits)
  let ?fn = "transfer_tx L ?t (ex_ids ex 3) req (audit_event_of req ?t body)"
  let ?s = "\<lparr>ts_pool = lw_pool w, ts_db = lw_db w, ts_vars = ()\<rparr>"
  obtain d' where run: "?fn (ex_attempts ex 0) (ts_vars ?s) (ts_db ?s) = (d', (), transfer_outcome req (lw_db w))"
    using transfer_tx_healthy [OF assms(1,3) refl at pos cur assms(9,10)] by auto
  have ns: "\<not> IsSerializationFailure e" if "transfer_outcome req (lw_db w) = Some e" for e
    using that by (auto simp: transfer_outcome_def IsSerializationFailure_def split: if_splits)
  obtain s where "InTx (lr_acquireCfg r) (lr_retry r) ?fn (ex_attempts ex) ?s = (s, transfer_outcome req (lw_db w))"
    using InTx_healthy [where s = ?s and envs = "ex_attempts ex" and fn = ?fn, OF assms(3) run ns] by blast
  with assms(4,5,7,8) bal show ?thesis
    by (auto simp: ExecuteTransfer_def Let_def breaker_allow_def)
qed

section \<open>Reading a transfer back\<close>

definition stored_leg :: "JournalEntry \<Rightarrow> JournalEntry" where
  "stored_leg e = e\<lparr>je_CreatedAt := pg_timestamp (je_CreatedAt e)\<rparr>"

text \<open>A transaction as the tables keep it: instants in microseconds.\<close>

definition stored_tx :: "Transaction \<Rightarrow> Transaction" where
  "stored_tx t = t\<lparr>tx_CreatedAt := pg_timestamp (tx_CreatedAt t), tx_Entries := map stored_leg (tx_Entries t)\<rparr>"

definition read_ok :: "read_env \<Rightarrow> bool" where
  "read_ok rd \<longleftrightarrow> rd_header rd = None \<and> rd_query rd = None \<and> rd_iter rd = None"

lemma amount_from_units:
  assumes "at_scale a" "units a \<noteq> 0"
  shows "a = \<lparr>Form = Finite, Negative = units a < 0, Exponent = LedgerScale, Coeff = nat \<bar>units a\<bar>\<rparr>"
  using assms units_at_scale [OF assms(1)]
  by (intro decimal.equality) (auto simp: at_scale_def dval_def)

lemma Scan_numeric_out:
  assumes "apd_lib A" "at_scale a" "units a \<noteq> 0"
  shows "Amount_Scan A (SrcString (numeric_out (units a))) = Inr a"
  using apd_lib.SetString_dec4 [OF assms(1)] amount_from_units [OF assms(2,3)]
  by (simp add: Amount_Scan_def numeric_out_def)

lemma scan_leg_rows:
  assumes "apd_lib A" "\<forall>(l, n) \<in> set lns. at_scale (je_Amount l) \<and> n = units (je_Amount l) \<and> n \<noteq> 0"
  shows "scan_entries A (map (\<lambda>(l, n). leg_row l n) lns) = Inr (map (stored_leg \<circ> fst) lns)"
  using assms(2)
proof (induction lns)
  case (Cons x lns)
  obtain l n where x: "x = (l, n)" by (cases x)
  then have "Amount_Scan A (SrcString (numeric_out n)) = Inr (je_Amount l)"
    using Cons.prems Scan_numeric_out [OF assms(1), of "je_Amount l"] by auto
  with Cons x show ?case by (simp add: leg_row_def stored_leg_def)
qed simp

lemma find_last: "\<forall>x \<in> set xs. \<not> P x \<Longrightarrow> P y \<Longrightarrow> find P (xs @ [y]) = Some y"
  by (induction xs) auto

lemma read_back:
  assumes "apd_lib A" "db_ok d" "transferred A ex req d d'" "at_scale (tr_Amount req)" "0 < units (tr_Amount req)"
    and "tr_TenantID req \<noteq> []" "tr_IdempotencyKey req \<noteq> []" "ex_ids ex 1 \<le> ex_ids ex 2" "read_ok rd"
  shows "GetTransactionByIdempotencyKey A rd (tr_TenantID req) (tr_IdempotencyKey req) d'
        = Inr (stored_tx (build_transaction A ex req))
    \<and> GetTransaction A rd (ex_ids ex 0) d' = Inr (stored_tx (build_transaction A ex req))"
proof -
  let ?t = "build_transaction A ex req" and ?l1 = "debit_of A ex req" and ?l2 = "credit_of A ex req"
  let ?x = "units (tr_Amount req)"
  let ?row = "(transaction_row ?t)\<lparr>txr_created_at := pg_timestamp (tx_CreatedAt ?t)\<rparr>"
  obtain ob p where post: "posted ?t ?l1 ?l2 ?x ob p d d'" using assms(3) by (auto simp: transferred_def)
  have rows: "find (\<lambda>r. txr_id r = ex_ids ex 0) (transactions d') = Some ?row"
    "find (\<lambda>r. txr_tenant_id r = tr_TenantID req \<and> txr_idempotency_key r = tr_IdempotencyKey req) (transactions d') = Some ?row"
    using post by (force simp: posted_def tx_build transaction_row_def tx_ids_def intro!: find_last)+
  have "legs_of d (ex_ids ex 0) = []"
    using post assms(2) by (intro legs_of_other) (auto simp: posted_def tx_build db_ok_def)
  with legs_of_posted [OF post build_legs(1)]
  have legs: "legs_of d' (ex_ids ex 0) = [leg_row ?l1 (- ?x), leg_row ?l2 ?x]" by (simp add: tx_build)
  have "(jer_created_at (leg_row ?l1 (- ?x)), jer_id (leg_row ?l1 (- ?x))) \<le> (jer_created_at (leg_row ?l2 ?x), jer_id (leg_row ?l2 ?x))"
    using assms(8) by (simp add: leg_row_def debit_of_def credit_of_def build_transaction_def Let_def)
  then have sel: "select_journal_entries (ex_ids ex 0) d' = map (\<lambda>(l, n). leg_row l n) [(?l1, - ?x), (?l2, ?x)]"
    using legs by (simp add: select_journal_entries_def legs_of_def)
  have scan: "scan_entries A (select_journal_entries (ex_ids ex 0) d') = Inr [stored_leg ?l1, stored_leg ?l2]"
    unfolding sel
    using scan_leg_rows [OF assms(1), of "[(?l1, - ?x), (?l2, ?x)]"] assms(4,5)
      apd_lib.Neg_at_scale [OF assms(1,4)] apd_lib.units_Neg [OF assms(1,4)]
    by (simp add: build_legs)
  have es: "tx_Entries ?t = [?l1, ?l2]" using build_legs(1) by (simp add: two_legs_def)
  show ?thesis
    using rows scan assms(6,7,9)
    by (simp add: GetTransactionByIdempotencyKey_def GetTransaction_def loadTransaction_def read_ok_def
        select_transaction_def select_transaction_by_key_def transaction_row_def tx_build stored_tx_def es Let_def)
qed

section \<open>Properties\<close>

text \<open>C8: a transfer is posted at most once. With any answers of the driver (failed or lost
  commits, serialization failures, retries), one call of \<open>ExecuteTransfer\<close> either leaves the
  tables as they were or appends exactly the rows of the transfer once: the transaction, the
  debit and the credit of the amount, one PENDING outbox event with the request's payload and
  one audit row; balances move by the amount from the one account to the other and nowhere
  else. A returned transaction means it was posted, and an error means it was not, unless the
  acknowledgement of an applied commit was lost.\<close>

theorem ExecuteTransfer_at_most_once:
  assumes "apd_lib (lib_apd L)" "amount_in (tr_Amount req)"
    and "\<forall>i d. at_before (ex_attempts ex i) d = d"
    and "ExecuteTransfer L r ex req w = (w', res)"
  shows "(lw_db w' = lw_db w \<or> transferred (lib_apd L) ex req (lw_db w) (lw_db w'))
    \<and> (\<forall>t. res = Inr t \<longrightarrow> t = build_transaction (lib_apd L) ex req
         \<and> transferred (lib_apd L) ex req (lw_db w) (lw_db w')
         \<and> 0 < units (tr_Amount req)
         \<and> balance (lw_db w') =
             (balance (lw_db w))(tr_FromAccountID req := balance (lw_db w) (tr_FromAccountID req) - units (tr_Amount req),
                tr_ToAccountID req := balance (lw_db w) (tr_ToAccountID req) + units (tr_Amount req)))
    \<and> (\<forall>e. res = Inl e \<and> (\<forall>i e. at_commit (ex_attempts ex i) \<noteq> CommitFails e True) \<longrightarrow> lw_db w' = lw_db w)"
proof -
  have quiet: "\<And>i d. at_before (ex_attempts ex i) d = d" using assms(3) by blast
  note once = ExecuteTransfer_once [OF assms(1,2) quiet assms(4)]
  have "tr_FromAccountID req \<noteq> tr_ToAccountID req" if "validateTransferRequest (lib_apd L) req = None"
    using that by (auto simp: validateTransferRequest_def split: if_splits)
  then have bal: "balance (lw_db w') =
      (balance (lw_db w))(tr_FromAccountID req := balance (lw_db w) (tr_FromAccountID req) - units (tr_Amount req),
         tr_ToAccountID req := balance (lw_db w) (tr_ToAccountID req) + units (tr_Amount req))"
    if "res = Inr t" for t
    using once that by (intro transferred_balance) auto
  have "lw_db w' = lw_db w" if "res = Inl e" "\<forall>i e. at_commit (ex_attempts ex i) \<noteq> CommitFails e True" for e
    using that assms(4) by (intro ExecuteTransfer_err [OF _ quiet]) auto
  then show ?thesis using once bal by (intro conjI allI impI) auto
qed

text \<open>C9: \<open>ExecuteTransfer\<close> keeps the ledger well formed under concurrency. Whatever other sessions
  commit between its attempts (as long as they keep the invariant) and whatever the driver
  answers: keys stay unique, every leg stays inside its tenant and currency, every transaction
  has two legs that sum to zero, one outbox event and one audit record; no pool connection is
  left checked out.\<close>

theorem ExecuteTransfer_keeps_ledger:
  assumes "apd_lib (lib_apd L)" "amount_in (tr_Amount req)" "db_ok (lw_db w)"
    and "\<forall>i d. db_ok d \<longrightarrow> db_ok (at_before (ex_attempts ex i) d)"
    and "ExecuteTransfer L r ex req w = (w', res)"
  shows "db_ok (lw_db w') \<and> sum_amounts (lw_db w') = 0 \<and> pl_acquired (lw_pool w') = pl_acquired (lw_pool w)"
  using ExecuteTransfer_ok [OF assms(1-3) _ assms(5)] assms(4) db_ok_sum_zero by blast

text \<open>C25: the complete behaviour on a healthy database. A valid request that fits the columns, with
  fresh ids, is answered with \<open>ErrDuplicateIdempotencyKey\<close> exactly when the tenant has used the
  key, else with \<open>ErrAccountTenantMismatch\<close> exactly when one of the accounts does not exist, is
  owned by another tenant or has another currency, and is posted in every other case; the status
  of the accounts plays no part.\<close>

theorem ExecuteTransfer_outcome:
  assumes "apd_lib (lib_apd L)" "amount_in (tr_Amount req)" "healthy (ex_attempts ex 0)" "lw_breaker w = None"
    and "validateTransferRequest (lib_apd L) req = None" "Form (tr_Amount req) = Finite"
    and "canonicalTransactionAudit L (build_transaction (lib_apd L) ex req) = Inr body"
    and "validateAuditEnvelope (audit_event_of req (build_transaction (lib_apd L) ex req) body) = None"
    and "storable L ex req body"
    and "fresh_ids ex (tr_TenantID req) (env_TenantID (tr_AuditEnvelope req)) (lw_db w)"
  shows "snd (ExecuteTransfer L r ex req w) =
    (if key_used (tr_TenantID req) (tr_IdempotencyKey req) (lw_db w) then Err ErrDuplicateIdempotencyKey
     else if has_account (lw_db w) (tr_FromAccountID req) (tr_TenantID req) (tr_Currency req)
           \<and> has_account (lw_db w) (tr_ToAccountID req) (tr_TenantID req) (tr_Currency req)
       then Inr (build_transaction (lib_apd L) ex req)
     else Err ErrAccountTenantMismatch)"
  using ExecuteTransfer_healthy [OF assms, of r] by (auto simp: transfer_outcome_def split: if_splits)

text \<open>C26: a posted transfer is read back as it was returned, with instants cut to microseconds:
  both \<open>GetTransaction\<close> and \<open>GetTransactionByIdempotencyKey\<close> give the transaction with the debit
  before the credit and the amounts equal to the ones sent.\<close>

theorem transfer_read_back:
  assumes "apd_lib (lib_apd L)" "amount_in (tr_Amount req)" "db_ok (lw_db w)"
    and "\<forall>i d. at_before (ex_attempts ex i) d = d"
    and "ExecuteTransfer L r ex req w = (w', Inr t)"
    and "ex_ids ex 1 \<le> ex_ids ex 2" "read_ok rd"
  shows "GetTransactionByIdempotencyKey (lib_apd L) rd (tr_TenantID req) (tr_IdempotencyKey req) (lw_db w')
        = Inr (stored_tx t)
    \<and> GetTransaction (lib_apd L) rd (tx_ID t) (lw_db w') = Inr (stored_tx t)"
proof -
  have quiet: "\<And>i d. at_before (ex_attempts ex i) d = d" using assms(4) by blast
  have t: "t = build_transaction (lib_apd L) ex req" "transferred (lib_apd L) ex req (lw_db w) (lw_db w')"
    "validateTransferRequest (lib_apd L) req = None" "0 < units (tr_Amount req)"
    using ExecuteTransfer_once [OF assms(1,2) quiet assms(5)] by auto
  have "at_scale (tr_Amount req)"
    using ExecuteTransfer_ok [OF assms(1,2,3) _ assms(5)] quiet by auto
  moreover have "tr_TenantID req \<noteq> []" "tr_IdempotencyKey req \<noteq> []"
    using t(3) by (auto simp: validateTransferRequest_def split: if_splits)
  ultimately show ?thesis
    using read_back [OF assms(1,3) t(2) _ t(4) _ _ assms(6,7)] by (simp add: t(1) tx_build)
qed

section \<open>Witnesses\<close>

definition sample_libs :: libs where
  "sample_libs = \<lparr>lib_apd = apd_ref, lib_json = (\<lambda>b. Inr ''{}''), lib_jsonb = Some\<rparr>"

definition sample_account :: "UUID \<Rightarrow> string \<Rightarrow> Account" where
  "sample_account i status = \<lparr>acc_ID = i, acc_TenantID = ''t'', acc_Currency = ''USD'', acc_Status = status,
     acc_CreatedAt = 0\<rparr>"

definition sample_amount :: Amount where
  "sample_amount = \<lparr>Form = Finite, Negative = False, Exponent = -4, Coeff = 125000\<rparr>"

definition sample_env :: AuditEnvelope where
  "sample_env = \<lparr>env_TenantID = ''t'', env_ActorSubject = ''alice'', env_ActorSession = [],
     env_RequestID = ''r1'', env_TraceID = [], env_OccurredAt = 7000\<rparr>"

definition sample_req :: "UUID \<Rightarrow> TransferRequest" where
  "sample_req to = \<lparr>tr_TenantID = ''t'', tr_IdempotencyKey = ''k'', tr_RequestFingerprint = ''f'',
     tr_FromAccountID = 1, tr_ToAccountID = to, tr_Amount = sample_amount, tr_Currency = ''USD'',
     tr_OutboxSchema = ''s'', tr_OutboxPayload = ''p'', tr_AuditEnvelope = sample_env\<rparr>"

definition sample_ex :: exec_env where
  "sample_ex = \<lparr>ex_now = 5001, ex_ids = (\<lambda>n. 100 + of_nat n), ex_br_allow = 0, ex_br_record = 0,
     ex_attempts = (\<lambda>_. plain_env)\<rparr>"

definition sample_world :: ledger_world where
  "sample_world = \<lparr>lw_pool = \<lparr>pl_acquired = 0, pl_obs = []\<rparr>,
     lw_db = empty_db\<lparr>accounts := [sample_account 1 AccountStatusActive, sample_account 2 AccountStatusFrozen]\<rparr>,
     lw_breaker = None\<rparr>"

definition sample_repo :: LedgerRepo where
  "sample_repo = NewLedgerRepo plain_pool"

lemmas sample_defs = sample_libs_def sample_account_def sample_amount_def sample_env_def sample_req_def
  sample_ex_def sample_world_def plain_env_def empty_db_def

lemma sample_facts:
  "apd_lib (lib_apd sample_libs)" "amount_in (tr_Amount (sample_req i))" "db_ok (lw_db sample_world)"
  "at_before (ex_attempts sample_ex j) d = d" "healthy (ex_attempts sample_ex 0)" "lw_breaker sample_world = None"
  "Form (tr_Amount (sample_req i)) = Finite" "ex_ids sample_ex 1 \<le> ex_ids sample_ex 2"
  using ref.apd_lib_axioms
  by (simp_all add: sample_defs amount_in_def at_scale_def LedgerScale_def healthy_def)
    (simp_all add: db_ok_def keys_ok_def legs_ok_def events_ok_def tx_ids_def)

lemma sample_valid: "i \<noteq> 0 \<Longrightarrow> i \<noteq> 1 \<Longrightarrow> validateTransferRequest (lib_apd sample_libs) (sample_req i) = None"
proof -
  assume i: "i \<noteq> 0" "i \<noteq> 1"
  have "Currency_Valid ''USD''" by code_simp
  with i show ?thesis
    by (simp add: validateTransferRequest_def sample_defs Amount_IsZero_def Amount_IsNegative_def apd_ref_def ref_Sign_def)
qed

lemma sample_storable:
  "canonicalTransactionAudit sample_libs (build_transaction (lib_apd sample_libs) sample_ex (sample_req i)) = Inr ''{}''"
  "validateAuditEnvelope (audit_event_of (sample_req i)
      (build_transaction (lib_apd sample_libs) sample_ex (sample_req i)) ''{}'') = None"
  "storable sample_libs sample_ex (sample_req i) ''{}''"
  "fresh_ids sample_ex (tr_TenantID (sample_req i)) (env_TenantID (tr_AuditEnvelope (sample_req i))) (lw_db sample_world)"
  by (simp_all add: canonicalTransactionAudit_def validateAuditEnvelope_def storable_def fresh_ids_def sample_defs
      audit_event_of_def AuditEnvelope.extend_def AuditEvent.fields_def AuditAggregateTransaction_def
      AuditOpTransferExecuted_def store_event_def jsonb_column_def audit_widths_def varchar_def units_def dval_def
      LedgerScale_def tx_ids_def)

lemma sample_accounts:
  "has_account (lw_db sample_world) 1 ''t'' ''USD''" "has_account (lw_db sample_world) 2 ''t'' ''USD''"
  "\<not> has_account (lw_db sample_world) 3 ''t'' ''USD''" "\<not> key_used ''t'' ''k'' (lw_db sample_world)"
  by (simp_all add: has_account_def key_used_def sample_defs)

theorem ExecuteTransfer_outcome_witness:
  "snd (ExecuteTransfer sample_libs sample_repo sample_ex (sample_req 2) sample_world)
     = Inr (build_transaction apd_ref sample_ex (sample_req 2))
   \<and> snd (ExecuteTransfer sample_libs sample_repo sample_ex (sample_req 3) sample_world) = Err ErrAccountTenantMismatch"
  using ExecuteTransfer_outcome [OF sample_facts(1,2,5,6) sample_valid sample_facts(7) sample_storable, of 2 sample_repo]
    ExecuteTransfer_outcome [OF sample_facts(1,2,5,6) sample_valid sample_facts(7) sample_storable, of 3 sample_repo]
    sample_accounts
  by (simp add: sample_req_def sample_libs_def)

lemma sample_run:
  "\<exists>w'. ExecuteTransfer sample_libs sample_repo sample_ex (sample_req 2) sample_world
     = (w', Inr (build_transaction apd_ref sample_ex (sample_req 2)))"
  using ExecuteTransfer_healthy [OF sample_facts(1,2,5,6) sample_valid sample_facts(7) sample_storable, of 2 sample_repo]
    sample_accounts
  by (auto simp: transfer_outcome_def sample_req_def sample_libs_def)

theorem ExecuteTransfer_at_most_once_witness:
  "\<exists>w'. ExecuteTransfer sample_libs sample_repo sample_ex (sample_req 2) sample_world
       = (w', Inr (build_transaction apd_ref sample_ex (sample_req 2)))
     \<and> balance (lw_db w') = (balance (lw_db sample_world))(1 := -125000, 2 := 125000)"
proof -
  obtain w' where w': "ExecuteTransfer sample_libs sample_repo sample_ex (sample_req 2) sample_world
      = (w', Inr (build_transaction apd_ref sample_ex (sample_req 2)))" using sample_run by blast
  have "units sample_amount = 125000" "balance (lw_db sample_world) i = 0" for i
    by (simp_all add: sample_defs units_def dval_def LedgerScale_def balance_def)
  then show ?thesis
    using ExecuteTransfer_at_most_once [OF sample_facts(1,2) _ w'] sample_facts(4) w'
    by (auto simp: sample_req_def)
qed

theorem ExecuteTransfer_keeps_ledger_witness:
  "\<exists>w' res. ExecuteTransfer sample_libs sample_repo sample_ex (sample_req 2) sample_world = (w', res)
     \<and> db_ok (lw_db w') \<and> sum_amounts (lw_db w') = 0 \<and> pl_acquired (lw_pool w') = 0"
proof -
  obtain w' res where w': "ExecuteTransfer sample_libs sample_repo sample_ex (sample_req 2) sample_world = (w', res)"
    by (rule prod.exhaust)
  show ?thesis
    using ExecuteTransfer_keeps_ledger [OF sample_facts(1,2,3) _ w'] sample_facts(4) w'
    by (auto simp: sample_world_def)
qed

theorem transfer_read_back_witness:
  "\<exists>w' t. ExecuteTransfer sample_libs sample_repo sample_ex (sample_req 2) sample_world = (w', Inr t)
     \<and> GetTransaction apd_ref \<lparr>rd_header = None, rd_query = None, rd_iter = None\<rparr> (tx_ID t) (lw_db w') = Inr (stored_tx t)
     \<and> tx_CreatedAt t = 5001 \<and> tx_CreatedAt (stored_tx t) = 5000"
proof -
  obtain w' where w': "ExecuteTransfer sample_libs sample_repo sample_ex (sample_req 2) sample_world
      = (w', Inr (build_transaction apd_ref sample_ex (sample_req 2)))" using sample_run by blast
  have "tx_CreatedAt (build_transaction apd_ref sample_ex (sample_req 2)) = 5001"
    by (simp add: tx_build sample_ex_def)
  then show ?thesis
    using transfer_read_back [OF sample_facts(1,2,3) _ w' sample_facts(8),
        of "\<lparr>rd_header = None, rd_query = None, rd_iter = None\<rparr>"] sample_facts(4) w'
    by (auto simp: read_ok_def stored_tx_def pg_timestamp_def sample_libs_def)
qed

end
