(* ===== verification/Outbox_Props.thy ===== *)
theory Outbox_Props
  imports Outbox Ledger_Props
begin

text \<open>
  What the transactional outbox promises. The contract between the drain and whatever it publishes
  to is the locale \<open>drain_publisher\<close>; both producers of the program meet it when delivery reports
  are truthful. The theorems: an event marked PUBLISHED is in the topic, whatever fails; a drain
  moves nothing but the status of selected rows, and its count is exact; healthy turns empty the
  outbox; and what the reconciler's checks say of the ledger.
\<close>

section \<open>One drain\<close>

text \<open>The three shapes a drain can have: nothing published, published without marking, marked.\<close>

definition drain_shape ::
    "OutboxEvent list \<Rightarrow> ('k \<times> UUID list result) \<Rightarrow> db \<Rightarrow> 'k \<Rightarrow> 'k outbox_world \<Rightarrow> nat result \<Rightarrow> bool" where
  "drain_shape events p d k w' r \<longleftrightarrow>
     (ow_db w' = d \<and> (ow_kafka w' = k \<or> ow_kafka w' = fst p) \<and> (\<forall>n. r = Inr n \<longrightarrow> n = 0))
     \<or> (\<exists>ids. snd p = Inr ids \<and> ow_kafka w' = fst p \<and> ow_db w' = fst (mark_published ids d)
          \<and> (\<forall>n. r = Inr n \<longrightarrow> n = snd (mark_published ids d)))"

lemmas drain_unfold = drain_def drain_tx_def drop_rollback_def pool_defs Let_def

lemma drain_shape_holds:
  assumes "drain pc env sel (Some pub) w = (w', r)"
  shows "drain_shape (sel (at_before env (ow_db w))) (pub (sel (at_before env (ow_db w))) (ow_kafka w))
           (at_before env (ow_db w)) (ow_kafka w) w' r"
  using assms unfolding drain_shape_def
  by (auto simp: drain_unfold split: option.splits prod.splits sum.splits if_splits commit_outcome.splits)

lemma drain_pool:
  assumes "drain pc env sel pub w = (w', r)"
  shows "pl_acquired (ow_pool w') = pl_acquired (ow_pool w)"
  using assms
  by (auto simp: drain_unfold conn_Release_def ObserveAcquire_def
      split: option.splits prod.splits sum.splits if_splits commit_outcome.splits)

lemma select_pending_in:
  "set (select_pending c n locked d) \<subseteq> {e \<in> set (outbox_events d). ob_Status e = OutboxStatusPending \<and> ob_ID e \<notin> locked}"
  by (auto simp: select_pending_def dest!: in_set_takeD)

section \<open>The contract of a publisher\<close>

text \<open>\<open>delivered k e\<close>: what was published to \<open>k\<close> includes event \<open>e\<close>. A publisher loses nothing, and
  confirms only events of the batch that it delivered.\<close>

definition relay_inv :: "('k \<Rightarrow> OutboxEvent \<Rightarrow> bool) \<Rightarrow> 'k \<Rightarrow> db \<Rightarrow> bool" where
  "relay_inv delivered k d \<longleftrightarrow> distinct (map ob_ID (outbox_events d))
     \<and> (\<forall>e \<in> set (outbox_events d). ob_Status e = OutboxStatusPublished \<longrightarrow> delivered k e)"

locale drain_publisher =
  fixes publish :: "'k publisher" and delivered :: "'k \<Rightarrow> OutboxEvent \<Rightarrow> bool"
  assumes keeps: "publish events k = (k', r) \<Longrightarrow> delivered k e \<Longrightarrow> delivered k' e"
    and confirms: "publish events k = (k', Inr ids) \<Longrightarrow> i \<in> set ids \<Longrightarrow> \<exists>e \<in> set events. ob_ID e = i \<and> delivered k' e"
    and status_free: "delivered k (e\<lparr>ob_Status := s\<rparr>) = delivered k e"
begin

lemma relay_inv_publish: "relay_inv delivered k d \<Longrightarrow> relay_inv delivered (fst (publish events k)) d"
  using keeps [of events k] by (cases "publish events k") (auto simp: relay_inv_def)

lemma relay_inv_mark:
  assumes "relay_inv delivered k d" "set events \<subseteq> set (outbox_events d)" "publish events k = (k', Inr ids)"
  shows "relay_inv delivered k' (fst (mark_published ids d))"
proof -
  have inj: "e = e'" if "e \<in> set (outbox_events d)" "e' \<in> set (outbox_events d)" "ob_ID e = ob_ID e'" for e e'
    using assms(1) that by (auto simp: relay_inv_def distinct_map dest: inj_onD)
  have "delivered k' e" if "e \<in> set (outbox_events d)" "ob_ID e \<in> set ids" for e
    using confirms [OF assms(3) that(2)] inj that(1) assms(2) by blast
  then show ?thesis
    using assms(1) keeps [OF assms(3)]
    by (auto simp: relay_inv_def mark_published_def status_free comp_def if_distrib cong: if_cong)
qed

lemma drain_relay_inv:
  assumes "drain pc env sel (Some publish) w = (w', r)"
    and "relay_inv delivered (ow_kafka w) (at_before env (ow_db w))"
    and "set (sel (at_before env (ow_db w))) \<subseteq> set (outbox_events (at_before env (ow_db w)))"
  shows "relay_inv delivered (ow_kafka w') (ow_db w')"
proof -
  let ?d = "at_before env (ow_db w)"
  obtain k' res where p: "publish (sel ?d) (ow_kafka w) = (k', res)" by (cases "publish (sel ?d) (ow_kafka w)")
  show ?thesis
    using drain_shape_holds [OF assms(1)] relay_inv_publish [OF assms(2), of "sel ?d"] assms(2)
      relay_inv_mark [OF assms(2,3)] p
    by (auto simp: drain_shape_def)
qed

end

section \<open>The two producers meet it\<close>

text \<open>A message carries an event when it has its key, payload and id header.\<close>

definition carries :: "(UUID \<Rightarrow> string) \<Rightarrow> OutboxEvent \<Rightarrow> KafkaMessage \<Rightarrow> bool" where
  "carries ustr e m \<longleftrightarrow> km_Key m = ustr (ob_AggregateID e) \<and> km_Value m = ob_Payload e
     \<and> list_ex (\<lambda>h. h = \<lparr>kh_Key = ''outbox_event_id'', kh_Value = ustr (ob_ID e)\<rparr>) (km_Headers m)"

definition in_topic :: "(UUID \<Rightarrow> string) \<Rightarrow> KafkaMessage list \<Rightarrow> OutboxEvent \<Rightarrow> bool" where
  "in_topic ustr topic e \<longleftrightarrow> list_ex (carries ustr e) topic"

text \<open>With \<open>acks=all\<close> a delivery report without an error means that the brokers wrote the message.\<close>

definition truthful_reports :: "kafka_env \<Rightarrow> bool" where
  "truthful_reports ke \<longleftrightarrow> list_all (\<lambda>ev. case ev of Report i None \<Rightarrow> i \<in> set (ke_written ke) | _ \<Rightarrow> True) (ke_events ke)"

lemma await_reports_written:
  assumes "await_reports timeout cnt n evs acc = (idxs, err)" "set acc \<subseteq> X"
    and "\<And>i. Report i None \<in> set evs \<Longrightarrow> i \<in> X"
  shows "set idxs \<subseteq> X"
  using assms by (induction timeout cnt n evs acc rule: await_reports.induct) auto

lemma ProduceBatch_written:
  assumes "ProduceBatch timeout ke msgs = (idxs, err)" "truthful_reports ke"
  shows "set idxs \<subseteq> set (ke_written ke)"
proof -
  have "i \<in> set (ke_written ke)" if "Report i None \<in> set (ke_events ke)" for i
    using assms(2) that by (force simp: truthful_reports_def list_all_iff)
  then show ?thesis
    using assms(1) await_reports_written [of timeout "length msgs" "length msgs" "ke_events ke" "[]" idxs err]
    by (auto simp: ProduceBatch_def split: if_splits option.splits)
qed

lemma in_topic_append: "in_topic ustr topic e \<Longrightarrow> in_topic ustr (broker_append ke msgs topic) e"
  by (auto simp: in_topic_def broker_append_def list_ex_iff)

lemma succeeded_in_topic:
  assumes "set idxs \<subseteq> set (ke_written ke)" "\<And>e. carries ustr e (msg e)" "i \<in> set (succeeded_ids events idxs)"
  shows "\<exists>e \<in> set events. ob_ID e = i \<and> in_topic ustr (broker_append ke (map msg events) topic) e"
proof -
  obtain j where j: "j \<in> set idxs" "j < length events" "i = ob_ID (events ! j)"
    using assms(3) by (auto simp: succeeded_ids_def)
  have "msg (events ! j) \<in> set (broker_append ke (map msg events) topic)"
    using j assms(1) by (auto simp: broker_append_def image_iff intro!: bexI [of _ j])
  then have "in_topic ustr (broker_append ke (map msg events) topic) (events ! j)"
    using assms(2) by (auto simp: in_topic_def list_ex_iff)
  with j show ?thesis using nth_mem by blast
qed

lemma carries_event_message: "carries ustr e (event_message ustr tp e)"
  by (simp add: carries_def event_message_def)

lemma carries_stale_message: "carries ustr e (stale_message ustr tp e)"
  by (simp add: carries_def stale_message_def event_message_def)

lemma in_topic_status: "in_topic ustr k (e\<lparr>ob_Status := s\<rparr>) = in_topic ustr k e"
  by (simp add: in_topic_def list_ex_iff carries_def)

lemma publishBatch_contract:
  assumes "truthful_reports ke"
  shows "drain_publisher (publishBatch ustr cfg timeout ke) (in_topic ustr)"
proof
  show "in_topic ustr k' e" if "publishBatch ustr cfg timeout ke events k = (k', r)" "in_topic ustr k e" for events k k' r e
    using that by (auto simp: publishBatch_def Let_def intro: in_topic_append split: if_splits prod.splits)
  show "\<exists>e\<in>set events. ob_ID e = i \<and> in_topic ustr k' e"
    if "publishBatch ustr cfg timeout ke events k = (k', Inr ids)" "i \<in> set ids" for events k k' ids i
    using that succeeded_in_topic [OF ProduceBatch_written [OF _ assms] carries_event_message]
    by (auto simp: publishBatch_def Let_def split: if_splits prod.splits option.splits)
qed (rule in_topic_status)

lemma publishStaleBatch_contract:
  assumes "truthful_reports ke"
  shows "drain_publisher (publishStaleBatch ustr tp timeout ke) (in_topic ustr)"
proof
  show "in_topic ustr k' e" if "publishStaleBatch ustr tp timeout ke events k = (k', r)" "in_topic ustr k e" for events k k' r e
    using that by (auto simp: publishStaleBatch_def Let_def intro: in_topic_append split: if_splits prod.splits)
  show "\<exists>e\<in>set events. ob_ID e = i \<and> in_topic ustr k' e"
    if "publishStaleBatch ustr tp timeout ke events k = (k', Inr ids)" "i \<in> set ids" for events k k' ids i
    using that succeeded_in_topic [OF ProduceBatch_written [OF _ assms] carries_stale_message]
    by (auto simp: publishStaleBatch_def Let_def split: if_splits prod.splits option.splits)
qed (rule in_topic_status)

text \<open>Brokers that write and acknowledge the first \<open>n\<close> messages of a batch in order.\<close>

definition acking :: "nat \<Rightarrow> kafka_env" where
  "acking n = \<lparr>ke_produce = (\<lambda>_. None), ke_events = map (\<lambda>i. Report i None) [0..<n], ke_written = [0..<n]\<rparr>"

lemma acking_truthful [simp]: "truthful_reports (acking n)"
  by (simp add: truthful_reports_def acking_def list_all_iff)

interpretation relay: drain_publisher "publishBatch ustr cfg timeout (acking n)" "in_topic ustr"
  by (rule publishBatch_contract) simp

interpretation stale_relay: drain_publisher "publishStaleBatch ustr tp timeout (acking n)" "in_topic ustr"
  by (rule publishStaleBatch_contract) simp

section \<open>What a drain changes\<close>

definition pending_count :: "db \<Rightarrow> nat" where
  "pending_count d = length (filter (\<lambda>e. ob_Status e = OutboxStatusPending) (outbox_events d))"

definition status_moves :: "db \<Rightarrow> db \<Rightarrow> bool" where
  "status_moves d d' \<longleftrightarrow> d' = d\<lparr>outbox_events := outbox_events d'\<rparr>
     \<and> list_all2 (\<lambda>e e'. e' = e \<or> ob_Status e = OutboxStatusPending \<and> e' = e\<lparr>ob_Status := OutboxStatusPublished\<rparr>)
         (outbox_events d) (outbox_events d')"

lemma status_moves_refl: "status_moves d d"
  by (simp add: status_moves_def list_all2_same)

lemma status_moves_trans: "status_moves d d1 \<Longrightarrow> status_moves d1 d2 \<Longrightarrow> status_moves d d2"
proof -
  let ?R = "\<lambda>e e'. e' = e \<or> ob_Status e = OutboxStatusPending \<and> e' = e\<lparr>ob_Status := OutboxStatusPublished\<rparr>"
  assume 1: "status_moves d d1" and 2: "status_moves d1 d2"
  have "list_all2 ?R (outbox_events d) (outbox_events d2)"
    by (rule list_all2_trans [where ?P1.0 = ?R and ?P2.0 = ?R]) (use 1 2 in \<open>auto simp: status_moves_def\<close>)
  moreover have "d2 = d\<lparr>outbox_events := outbox_events d2\<rparr>" using 1 2 unfolding status_moves_def by (metis db.update_convs(4) db.surjective)
  ultimately show ?thesis by (simp add: status_moves_def)
qed

lemma status_neq [simp]: "OutboxStatusPublished \<noteq> OutboxStatusPending"
  by (simp add: OutboxStatusPublished_def OutboxStatusPending_def)

lemma count_marked:
  assumes "\<forall>e \<in> set es. ob_ID e \<in> S \<longrightarrow> ob_Status e = OutboxStatusPending"
  shows "length (filter (\<lambda>e. ob_Status e = OutboxStatusPending)
           (map (\<lambda>e. if ob_ID e \<in> S then e\<lparr>ob_Status := OutboxStatusPublished\<rparr> else e) es))
       + length (filter (\<lambda>e. ob_ID e \<in> S) es)
       = length (filter (\<lambda>e. ob_Status e = OutboxStatusPending) es)"
  using assms by (induction es) auto

lemma mark_published_moves:
  assumes "\<And>e. e \<in> set (outbox_events d) \<Longrightarrow> ob_ID e \<in> set ids \<Longrightarrow> ob_Status e = OutboxStatusPending"
  shows "status_moves d (fst (mark_published ids d))"
    and "pending_count (fst (mark_published ids d)) + snd (mark_published ids d) = pending_count d"
proof -
  show "status_moves d (fst (mark_published ids d))"
    unfolding status_moves_def mark_published_def fst_conv
    using assms by (simp add: list_all2_map2 list_all2_same)
  have "\<forall>e \<in> set (outbox_events d). ob_ID e \<in> set ids \<longrightarrow> ob_Status e = OutboxStatusPending"
    using assms by blast
  from count_marked [OF this]
  show "pending_count (fst (mark_published ids d)) + snd (mark_published ids d) = pending_count d"
    by (simp add: pending_count_def mark_published_def)
qed

lemma selected_pending:
  assumes "distinct (map ob_ID (outbox_events d))" "set ids \<subseteq> ob_ID ` set (select_pending c n locked d)"
    and "e \<in> set (outbox_events d)" "ob_ID e \<in> set ids"
  shows "ob_Status e = OutboxStatusPending"
proof -
  obtain e' where e': "e' \<in> set (outbox_events d)" "ob_ID e' = ob_ID e" "ob_Status e' = OutboxStatusPending"
    using assms(2,4) select_pending_in [of c n locked d] by fastforce
  with assms(1,3) have "e' = e" by (auto simp: distinct_map dest: inj_onD)
  with e' show ?thesis by simp
qed

lemma succeeded_ids_sub: "set (succeeded_ids events idxs) \<subseteq> ob_ID ` set events"
  by (auto simp: succeeded_ids_def)

lemma publish_sub:
  "publishBatch ustr cfg timeout ke events k = (k', Inr ids) \<Longrightarrow> set ids \<subseteq> ob_ID ` set events"
  "publishStaleBatch ustr tp timeout ke events k = (k', Inr ids) \<Longrightarrow> set ids \<subseteq> ob_ID ` set events"
  using succeeded_ids_sub
  by (fastforce simp: publishBatch_def publishStaleBatch_def Let_def split: if_splits prod.splits option.splits)+

text \<open>A drain of selected rows by a publisher that confirms only rows of its batch.\<close>

lemma drain_moves:
  assumes "drain pc env (select_pending c n locked) (Some pub) w = (w', r)"
    and "\<And>events k k' ids. pub events k = (k', Inr ids) \<Longrightarrow> set ids \<subseteq> ob_ID ` set events"
    and "distinct (map ob_ID (outbox_events (at_before env (ow_db w))))"
  shows "status_moves (at_before env (ow_db w)) (ow_db w')
    \<and> (\<forall>n. r = Inr n \<longrightarrow> pending_count (ow_db w') + n = pending_count (at_before env (ow_db w)))"
proof -
  let ?d = "at_before env (ow_db w)"
  obtain k' res where p: "pub (select_pending c n locked ?d) (ow_kafka w) = (k', res)"
    by (cases "pub (select_pending c n locked ?d) (ow_kafka w)")
  from drain_shape_holds [OF assms(1)] consider (same) "ow_db w' = ?d" "\<forall>n. r = Inr n \<longrightarrow> n = 0"
    | (marked) ids where "res = Inr ids" "ow_db w' = fst (mark_published ids ?d)"
        "\<forall>n. r = Inr n \<longrightarrow> n = snd (mark_published ids ?d)"
    unfolding drain_shape_def p by auto
  then show ?thesis
  proof cases
    case same
    then show ?thesis by (simp add: status_moves_refl)
  next
    case marked
    have "set ids \<subseteq> ob_ID ` set (select_pending c n locked ?d)" using assms(2) p marked(1) by blast
    note moves = mark_published_moves [of ?d ids, OF selected_pending [OF assms(3) this]]
    from moves(1) moves(2) marked show ?thesis by (metis (no_types))
  qed
qed

lemma tick_moves:
  assumes "outbox_tick ustr pc cfg timeout env locked ke w = (w', r)"
    and "distinct (map ob_ID (outbox_events (at_before env (ow_db w))))"
  shows "status_moves (at_before env (ow_db w)) (ow_db w')
    \<and> (\<forall>m. r = Inr m \<longrightarrow> pending_count (ow_db w') + m = pending_count (at_before env (ow_db w)))"
  by (rule drain_moves [OF assms(1) [unfolded outbox_tick_def Drain_def] _ assms(2)]) (rule publish_sub(1))

lemma stale_moves:
  assumes "DrainStale pc env locked now stale n (Some (publishStaleBatch ustr tp timeout ke)) w = (w', r)"
    and "distinct (map ob_ID (outbox_events (at_before env (ow_db w))))"
  shows "status_moves (at_before env (ow_db w)) (ow_db w')
    \<and> (\<forall>m. r = Inr m \<longrightarrow> pending_count (ow_db w') + m = pending_count (at_before env (ow_db w)))"
  by (rule drain_moves [OF assms(1) [unfolded DrainStale_def Let_def] _ assms(2)]) (rule publish_sub(2))

lemma status_moves_ids: "status_moves d d' \<Longrightarrow> map ob_ID (outbox_events d') = map ob_ID (outbox_events d)"
proof -
  assume "status_moves d d'"
  then have "list_all2 (\<lambda>e e'. ob_ID e = ob_ID e') (outbox_events d) (outbox_events d')"
    by (auto simp: status_moves_def elim!: list_all2_mono)
  then show ?thesis by (induction rule: list_all2_induct) auto
qed

text \<open>Such a step keeps the ledger invariant.\<close>

lemma outbox_count_moves: "status_moves d d' \<Longrightarrow> outbox_count d' i = outbox_count d i"
proof -
  assume "status_moves d d'"
  then have "list_all2 (\<lambda>e e'. ob_AggregateID e = ob_AggregateID e') (outbox_events d) (outbox_events d')"
    by (auto simp: status_moves_def elim!: list_all2_mono)
  then show ?thesis unfolding outbox_count_def by (induction rule: list_all2_induct) auto
qed

lemma aggregates_moves: "status_moves d d' \<Longrightarrow> ob_AggregateID ` set (outbox_events d') = ob_AggregateID ` set (outbox_events d)"
proof -
  assume "status_moves d d'"
  then have "list_all2 (\<lambda>e e'. ob_AggregateID e = ob_AggregateID e') (outbox_events d) (outbox_events d')"
    by (auto simp: status_moves_def elim!: list_all2_mono)
  then show ?thesis by (induction rule: list_all2_induct) auto
qed

lemma db_ok_moves:
  assumes "db_ok d" "status_moves d d'"
  shows "db_ok d'"
proof -
  have same: "accounts d' = accounts d" "transactions d' = transactions d" "journal_entries d' = journal_entries d"
    "audit_pending d' = audit_pending d" "audit_log d' = audit_log d"
    using assms(2) unfolding status_moves_def by (metis db.select_convs db.surjective db.update_convs(4))+
  have "legs_ok d'" "keys_ok d'"
    using assms(1) same status_moves_ids [OF assms(2)]
    by (simp_all add: db_ok_def legs_ok_def keys_ok_def je_references_def tx_ids_def legs_of_def tx_sum_def)
  moreover have "events_ok d'"
    using assms(1) same outbox_count_moves [OF assms(2)] aggregates_moves [OF assms(2)]
    by (simp add: db_ok_def events_ok_def tx_ids_def audit_count_def)
  ultimately show ?thesis by (simp add: db_ok_def)
qed

section \<open>Healthy turns empty the outbox\<close>

lemma enqueue_all_ok: "(\<And>i. produce i = None) \<Longrightarrow> enqueue_all produce i ms = None"
  by (induction ms arbitrary: i) auto

lemma await_acks:
  "await_reports timeout cnt n (map (\<lambda>i. Report i None) is @ evs) acc = (acc @ is, None)" if "length is = n" for "is"
  using that by (induction "is" arbitrary: n acc) auto

definition acks_in_order :: "nat \<Rightarrow> kafka_env \<Rightarrow> bool" where
  "acks_in_order n ke \<longleftrightarrow> (\<forall>i. ke_produce ke i = None) \<and> take n (ke_events ke) = map (\<lambda>i. Report i None) [0..<n]"

lemma publishBatch_acks:
  assumes "acks_in_order n ke" "length events \<le> n"
  shows "snd (publishBatch ustr cfg timeout ke events k) = Inr (map ob_ID events)"
proof -
  let ?m = "length events"
  have "take ?m (ke_events ke) = take ?m (take n (ke_events ke))" using assms(2) by simp
  also have "\<dots> = map (\<lambda>i. Report i None) [0..<?m]" using assms by (simp add: acks_in_order_def take_map)
  finally have "ke_events ke = map (\<lambda>i. Report i None) [0..<?m] @ drop ?m (ke_events ke)"
    by (metis append_take_drop_id)
  then have "await_reports timeout ?m ?m (ke_events ke) [] = ([0..<?m], None)"
    using await_acks [of "[0..<?m]" ?m timeout ?m "drop ?m (ke_events ke)" "[]"] by simp
  moreover have "succeeded_ids events [0..<?m] = map ob_ID events"
    by (auto simp: succeeded_ids_def intro!: nth_equalityI)
  moreover have "enqueue_all (ke_produce ke) 0 (map (event_message ustr (ow_Topic cfg)) events) = None"
    using assms(1) by (intro enqueue_all_ok) (simp add: acks_in_order_def)
  ultimately show ?thesis by (auto simp: publishBatch_def ProduceBatch_def Let_def)
qed

lemma select_pending_all:
  "length (select_pending None n {} d) = min n (pending_count d)"
  by (simp add: select_pending_def pending_count_def)

lemma select_pending_sub: "set (select_pending c n locked d) \<subseteq> set (outbox_events d)"
  using select_pending_in by fast

lemma mark_selected:
  assumes "distinct (map ob_ID (outbox_events d))"
  shows "snd (mark_published (map ob_ID (select_pending c n locked d)) d) = length (select_pending c n locked d)"
proof -
  let ?s = "select_pending c n locked d"
  note sub = select_pending_sub [of c n locked d]
  have "distinct ?s" using assms by (simp add: select_pending_def distinct_map)
  moreover have "set (filter (\<lambda>e. ob_ID e \<in> ob_ID ` set ?s) (outbox_events d)) = set ?s"
    using sub assms by (auto simp: distinct_map inj_on_def)
  moreover have "distinct (filter (\<lambda>e. ob_ID e \<in> ob_ID ` set ?s) (outbox_events d))"
    using assms by (auto simp: distinct_map)
  ultimately have "length (filter (\<lambda>e. ob_ID e \<in> ob_ID ` set ?s) (outbox_events d)) = length ?s"
    using distinct_card [of ?s] distinct_card [of "filter (\<lambda>e. ob_ID e \<in> ob_ID ` set ?s) (outbox_events d)"] by simp
  then show ?thesis by (simp add: mark_published_def)
qed

lemma healthy_tick:
  assumes "healthy env" "acks_in_order (nat (ow_BatchSize cfg)) ke" "0 < ow_BatchSize cfg"
    and "distinct (map ob_ID (outbox_events (ow_db w)))"
  shows "\<exists>w'. outbox_tick ustr pc cfg timeout env {} ke w = (w', Inr (min (nat (ow_BatchSize cfg)) (pending_count (ow_db w))))"
proof -
  let ?n = "nat (ow_BatchSize cfg)"
  let ?s = "select_pending None ?n {} (ow_db w)"
  obtain k' where k': "publishBatch ustr cfg timeout ke ?s (ow_kafka w) = (k', Inr (map ob_ID ?s))"
    using publishBatch_acks [OF assms(2), of ?s ustr cfg timeout "ow_kafka w"] select_pending_all [of ?n "ow_db w"]
    by (cases "publishBatch ustr cfg timeout ke ?s (ow_kafka w)") auto
  have n: "snd (mark_published (map ob_ID ?s) (ow_db w)) = min ?n (pending_count (ow_db w))"
    using mark_selected [OF assms(4)] by (simp add: select_pending_all)
  have "?s = [] \<longleftrightarrow> pending_count (ow_db w) = 0"
    using select_pending_all [of ?n "ow_db w"] assms(3) by (cases "pending_count (ow_db w) = 0") auto
  with assms(1) k' n show ?thesis
    by (cases "?s = []") (auto simp: outbox_tick_def Drain_def healthy_def drain_unfold split: prod.splits)
qed

section \<open>Properties\<close>

text \<open>The brokers' reports of a turn are truthful, and what other sessions commit before it keeps
  the invariant.\<close>

definition honest_turn :: "(UUID \<Rightarrow> string) \<Rightarrow> outbox_turn \<Rightarrow> bool" where
  "honest_turn ustr t \<longleftrightarrow> truthful_reports (ot_kafka t)
     \<and> (\<forall>k d. relay_inv (in_topic ustr) k d \<longrightarrow> relay_inv (in_topic ustr) k (at_before (ot_env t) d))"

lemma tick_relay_inv:
  assumes "outbox_tick ustr pc cfg timeout (ot_env t) locked (ot_kafka t) w = (w', r)" "honest_turn ustr t"
    and "relay_inv (in_topic ustr) (ow_kafka w) (ow_db w)"
  shows "relay_inv (in_topic ustr) (ow_kafka w') (ow_db w')"
proof -
  have "truthful_reports (ot_kafka t)" using assms(2) by (simp add: honest_turn_def)
  then show ?thesis
    using assms select_pending_sub
    by (intro drain_publisher.drain_relay_inv [OF publishBatch_contract assms(1) [unfolded outbox_tick_def Drain_def]])
      (auto simp: honest_turn_def)
qed

text \<open>One turn of the relay is at most one drain.\<close>

lemma outbox_turn_cases:
  assumes "runOne ustr pc cfg timeout [t] w = (w', waits, stopped)"
  obtains "w' = w" | r where "outbox_tick ustr pc cfg timeout (ot_env t) (ot_locked t) (ot_kafka t) w = (w', r)"
  using assms by (auto simp: Let_def split: if_splits prod.splits)

definition sample_outbox_event :: "UUID \<Rightarrow> OutboxEvent" where
  "sample_outbox_event i = \<lparr>ob_ID = i, ob_AggregateType = ''Transaction'', ob_AggregateID = 7, ob_EventSchema = ''s'',
     ob_Payload = ''p'', ob_Status = OutboxStatusPending, ob_CreatedAt = 1000\<rparr>"

definition sample_outbox :: "KafkaMessage list outbox_world" where
  "sample_outbox = \<lparr>ow_pool = \<lparr>pl_acquired = 0, pl_obs = []\<rparr>,
     ow_db = empty_db\<lparr>outbox_events := [sample_outbox_event 1, sample_outbox_event 2, sample_outbox_event 3]\<rparr>, ow_kafka = []\<rparr>"

definition sample_worker :: OutboxWorkerConfig where
  "sample_worker = defaultWorkerConfig\<lparr>ow_BatchSize := 2\<rparr>"

definition sample_turn :: outbox_turn where
  "sample_turn = \<lparr>ot_ctx_err = False, ot_env = plain_env, ot_locked = {}, ot_kafka = acking 2, ot_cancel = None\<rparr>"

definition sample_ustr :: "UUID \<Rightarrow> string" where
  "sample_ustr u = FormatInt (uint u)"

lemmas sample_outbox_defs = sample_outbox_event_def sample_outbox_def sample_worker_def sample_turn_def empty_db_def

lemma sample_honest: "honest_turn ustr sample_turn"
  by (simp add: honest_turn_def sample_turn_def plain_env_def)

lemma sample_relay_inv: "relay_inv (in_topic ustr) (ow_kafka sample_outbox) (ow_db sample_outbox)"
  by (simp add: relay_inv_def sample_outbox_defs OutboxStatusPending_def OutboxStatusPublished_def)

text \<open>A drain, by the relay or by the reconciler and whatever the driver and the brokers do,
  changes nothing but the status of rows that were PENDING to PUBLISHED, gives its connection
  back, and on success returns exactly the number of rows that left PENDING; in particular it
  keeps the ledger invariant.\<close>

theorem drain_effect:
  assumes "outbox_tick ustr pc cfg timeout env locked ke w = (w', r)
           \<or> DrainStale pc env locked now stale n (Some (publishStaleBatch ustr tp timeout ke)) w = (w', r)"
    and "db_ok (at_before env (ow_db w))"
  shows "status_moves (at_before env (ow_db w)) (ow_db w') \<and> db_ok (ow_db w')
    \<and> pl_acquired (ow_pool w') = pl_acquired (ow_pool w)
    \<and> (\<forall>m. r = Inr m \<longrightarrow> pending_count (ow_db w') + m = pending_count (at_before env (ow_db w)))"
proof -
  have d: "distinct (map ob_ID (outbox_events (at_before env (ow_db w))))"
    using assms(2) by (simp add: db_ok_def keys_ok_def)
  show ?thesis
    using assms(1)
  proof
    assume t: "outbox_tick ustr pc cfg timeout env locked ke w = (w', r)"
    show ?thesis
      using tick_moves [OF t d] drain_pool [OF t [unfolded outbox_tick_def Drain_def]] db_ok_moves [OF assms(2)] by blast
  next
    assume t: "DrainStale pc env locked now stale n (Some (publishStaleBatch ustr tp timeout ke)) w = (w', r)"
    show ?thesis
      using stale_moves [OF t d] drain_pool [OF t [unfolded DrainStale_def Let_def]] db_ok_moves [OF assms(2)] by blast
  qed
qed

text \<open>A world whose database has one posted transfer.\<close>

definition posted_outbox :: "KafkaMessage list outbox_world" where
  "posted_outbox = sample_outbox\<lparr>ow_db :=
     lw_db (fst (ExecuteTransfer sample_libs sample_repo sample_ex (sample_req 2) sample_world))\<rparr>"

lemma posted_outbox_ok: "db_ok (ow_db posted_outbox)"
proof -
  obtain w' res where w': "ExecuteTransfer sample_libs sample_repo sample_ex (sample_req 2) sample_world = (w', res)"
    by (rule prod.exhaust)
  from ExecuteTransfer_ok [OF sample_facts(1,2,3) _ w'] w' show ?thesis
    by (simp add: posted_outbox_def sample_facts(4))
qed

theorem drain_effect_witness:
  "\<exists>w' r. outbox_tick sample_ustr plain_pool sample_worker 5 plain_env {} (acking 2) posted_outbox = (w', r)
     \<and> status_moves (ow_db posted_outbox) (ow_db w') \<and> db_ok (ow_db w') \<and> pl_acquired (ow_pool w') = 0"
proof -
  obtain w' r where t: "outbox_tick sample_ustr plain_pool sample_worker 5 plain_env {} (acking 2) posted_outbox = (w', r)"
    by (rule prod.exhaust)
  have "at_before plain_env (ow_db posted_outbox) = ow_db posted_outbox" by (simp add: plain_env_def)
  moreover have "pl_acquired (ow_pool posted_outbox) = 0" by (simp add: posted_outbox_def sample_outbox_def)
  ultimately show ?thesis
    using drain_effect [OF disjI1 [OF t]] posted_outbox_ok t by auto
qed

text \<open>A turn in which nothing fails and the brokers acknowledge in order.\<close>

definition good_turn :: "OutboxWorkerConfig \<Rightarrow> outbox_turn \<Rightarrow> bool" where
  "good_turn cfg t \<longleftrightarrow> \<not> ot_ctx_err t \<and> healthy (ot_env t) \<and> ot_locked t = {} \<and> ot_cancel t = None
     \<and> acks_in_order (nat (ow_BatchSize cfg)) (ot_kafka t)"

text \<open>The outbox is emptied. In good turns every turn publishes a full batch as long as one is
  pending: after \<open>n\<close> turns the backlog is what it was less \<open>n\<close> times the batch size, and the loop
  waits the poll interval after a turn that published and the idle interval after one that did
  not.\<close>

theorem outbox_drains:
  assumes "list_all (good_turn cfg) ts" "0 < ow_BatchSize cfg"
    and "distinct (map ob_ID (outbox_events (ow_db w)))"
    and "runOne ustr pc cfg timeout ts w = (w', waits, stopped)"
  shows "pending_count (ow_db w') = pending_count (ow_db w) - length ts * nat (ow_BatchSize cfg)
    \<and> waits = map (\<lambda>i. if i * nat (ow_BatchSize cfg) < pending_count (ow_db w) then ow_PollInterval cfg
                       else ow_IdleInterval cfg) [0..<length ts]
    \<and> \<not> stopped"
  using assms(1,3,4)
proof (induction ts arbitrary: w w' waits stopped)
  case (Cons t ts)
  let ?n = "nat (ow_BatchSize cfg)"
  have g: "good_turn cfg t" "list_all (good_turn cfg) ts" using Cons.prems(1) by simp_all
  obtain w1 where tick: "outbox_tick ustr pc cfg timeout (ot_env t) (ot_locked t) (ot_kafka t) w
      = (w1, Inr (min ?n (pending_count (ow_db w))))"
    using healthy_tick [OF _ _ assms(2) Cons.prems(2)] g(1) by (metis good_turn_def)
  have b: "at_before (ot_env t) (ow_db w) = ow_db w" using g(1) by (simp add: good_turn_def healthy_def)
  have m: "status_moves (ow_db w) (ow_db w1) \<and> (\<forall>m. Inr (min ?n (pending_count (ow_db w))) = (Inr m :: nat result)
      \<longrightarrow> pending_count (ow_db w1) + m = pending_count (ow_db w))"
    using tick_moves [OF tick] Cons.prems(2) by (simp add: b)
  then have p: "pending_count (ow_db w1) = pending_count (ow_db w) - ?n" by auto
  obtain w2 ds st where run: "runOne ustr pc cfg timeout ts w1 = (w2, ds, st)" by (metis prod_cases3)
  have "distinct (map ob_ID (outbox_events (ow_db w1)))"
    using m status_moves_ids Cons.prems(2) by metis
  note IH = Cons.IH [OF g(2) this run, unfolded p]
  have w: "w' = w2" "stopped = st" "waits = turn_wait cfg (Inr (min ?n (pending_count (ow_db w)))) # ds"
    using Cons.prems(3) tick run g(1) by (auto simp: good_turn_def Let_def)
  have "[0..<length (t # ts)] = 0 # map Suc [0..<length ts]"
    by (simp add: map_Suc_upt upt_conv_Cons del: upt_Suc)
  then show ?case
    using IH w assms(2) by (auto simp: turn_wait_def less_diff_conv min_def)
qed simp

text \<open>The turns of the loop in which no other session commits anything only move statuses.\<close>

lemma runOne_moves:
  assumes "runOne ustr pc cfg timeout ts w = (w', waits, stopped)" "\<And>t d. t \<in> set ts \<Longrightarrow> at_before (ot_env t) d = d"
    and "distinct (map ob_ID (outbox_events (ow_db w)))"
  shows "status_moves (ow_db w) (ow_db w')"
  using assms
proof (induction ts arbitrary: w w' waits stopped)
  case (Cons t ts)
  obtain w1 r where tick: "outbox_tick ustr pc cfg timeout (ot_env t) (ot_locked t) (ot_kafka t) w = (w1, r)"
    by (rule prod.exhaust)
  have m: "status_moves (ow_db w) (ow_db w1)" using tick_moves [OF tick] Cons.prems(2,3) by simp
  have "distinct (map ob_ID (outbox_events (ow_db w1)))" using status_moves_ids [OF m] Cons.prems(3) by simp
  then have "status_moves (ow_db w1) (ow_db w2)" if "runOne ustr pc cfg timeout ts w1 = (w2, ds, st)" for w2 ds st
    using Cons.IH [OF that] Cons.prems(2) by simp
  with m tick Cons.prems(1) show ?case
    by (auto simp: Let_def status_moves_refl split: if_splits prod.splits intro: status_moves_trans)
qed (simp add: status_moves_refl)

theorem outbox_drains_sample:
  "\<exists>w'. runOne sample_ustr plain_pool sample_worker 5 [sample_turn, sample_turn, sample_turn] sample_outbox
      = (w', [100 * Millisecond, 100 * Millisecond, 500 * Millisecond], False) \<and> pending_count (ow_db w') = 0"
proof -
  obtain w' waits stopped where
    run: "runOne sample_ustr plain_pool sample_worker 5 [sample_turn, sample_turn, sample_turn] sample_outbox
      = (w', waits, stopped)" by (metis prod_cases3)
  have cfg: "ow_BatchSize sample_worker = 2" "ow_PollInterval sample_worker = 100 * Millisecond"
    "ow_IdleInterval sample_worker = 500 * Millisecond"
    by (simp_all add: sample_worker_def defaultWorkerConfig_def)
  have "good_turn sample_worker sample_turn"
    by (simp add: good_turn_def sample_turn_def cfg acks_in_order_def acking_def healthy_def plain_env_def)
  moreover have "distinct (map ob_ID (outbox_events (ow_db sample_outbox)))" "pending_count (ow_db sample_outbox) = 3"
    by (simp_all add: sample_outbox_defs pending_count_def)
  ultimately show ?thesis
    using outbox_drains [OF _ _ _ run] run cfg by (simp add: upt_rec)
qed

section \<open>The reconciler\<close>

lemma numeric_out_zero_iff: "numeric_out n = ''0.0000'' \<longleftrightarrow> n = 0"
proof -
  have "numeric_out 0 = ''0.0000''" by code_simp
  moreover have "n = 0" if "numeric_out n = numeric_out 0"
    using arg_cong [OF that, of ref_SetString] by (simp add: numeric_out_def ref_SetString_dec4)
  ultimately show ?thesis by auto
qed

lemma numeric_out_not_0: "numeric_out n \<noteq> ''0''"
proof
  assume a: "numeric_out n = ''0''"
  have "ref_SetString (numeric_out n) = Inr \<lparr>Form = Finite, Negative = n < 0, Exponent = -4, Coeff = nat \<bar>n\<bar>\<rparr>"
    by (simp add: numeric_out_def ref_SetString_dec4)
  moreover have "ref_SetString ''0'' = Inr \<lparr>Form = Finite, Negative = False, Exponent = 0, Coeff = 0\<rparr>" by code_simp
  ultimately show False using a by simp
qed

lemma LedgerSumZeroCheck_ok: "\<exists>s. LedgerSumZeroCheck None d = Inr (s, sum_amounts d = 0)"
  by (auto simp: LedgerSumZeroCheck_def Let_def numeric_out_zero_iff numeric_out_not_0 sum_amounts_def)

lemma nonzero_sum_has_culprit: "sum_amounts d \<noteq> 0 \<Longrightarrow> 0 < n \<Longrightarrow> select_unbalanced n d \<noteq> []"
proof -
  let ?is = "remdups (map jer_transaction_id (journal_entries d))"
  assume "sum_amounts d \<noteq> 0" "0 < n"
  have "sum_amounts d = (\<Sum>i\<leftarrow>?is. tx_sum d i)"
    unfolding sum_amounts_def tx_sum_def by (rule sum_by_tx) simp_all
  moreover have "(\<Sum>i\<leftarrow>?is. tx_sum d i) = 0" if "\<forall>i \<in> set ?is. tx_sum d i = 0"
  proof -
    have "map (tx_sum d) ?is = map (\<lambda>_. 0) ?is" using that by (intro map_cong) auto
    then show ?thesis by (simp only: sum_list_triv mult_zero_right)
  qed
  ultimately obtain i where "i \<in> set ?is" "tx_sum d i \<noteq> 0" using \<open>sum_amounts d \<noteq> 0\<close> by fastforce
  with \<open>0 < n\<close> show ?thesis by (auto simp: select_unbalanced_def filter_empty_conv)
qed

text \<open>C27: the reconciler's verdict. When its sum query answers, a cycle reports the invariant as
  holding exactly when the amounts of the ledger sum to zero (through PostgreSQL's decimal text,
  at any magnitude); a well-formed ledger is therefore never flagged, and when the verdict is
  negative and the drill-down query answers, the cycle names at least one transaction and only
  transactions that are unbalanced.\<close>

theorem RunOnce_verdict:
  assumes "re_sum re = None" "re_drill re = None" "re_drill_scan re = None" "re_drill_iter re = None"
    and "0 < DrilldownLimit (rc_cfg r)"
    and "RunOnce ustr pc timeout r re w = (w', res)"
  shows "LedgerInvariantOK res = (sum_amounts (ow_db w') = 0)
    \<and> (db_ok (ow_db w') \<longrightarrow> LedgerInvariantOK res \<and> UnbalancedTxIDs res = [])
    \<and> (UnbalancedTxIDs res = [] \<longleftrightarrow> LedgerInvariantOK res)
    \<and> list_all (\<lambda>i. tx_sum (ow_db w') i \<noteq> 0) (UnbalancedTxIDs res)"
proof -
  obtain s where s: "LedgerSumZeroCheck None (ow_db w') = Inr (s, sum_amounts (ow_db w') = 0)"
    using LedgerSumZeroCheck_ok by blast
  have "list_all (\<lambda>i. tx_sum (ow_db w') i \<noteq> 0) (select_unbalanced n (ow_db w'))" for n
    by (auto simp: select_unbalanced_def list_all_iff dest!: in_set_takeD)
  moreover have "0 < nat (DrilldownLimit (rc_cfg r))" using assms(5) by simp
  ultimately show ?thesis
    using assms s nonzero_sum_has_culprit [of "ow_db w'"] db_ok_sum_zero [of "ow_db w'"]
    by (auto simp: RunOnce_def Let_def UnbalancedTransactionIDs_def split: prod.splits sum.splits if_splits)
qed

definition sample_recon :: recon_env where
  "sample_recon = \<lparr>re_now_count = 0, re_now_drain = 0, re_count = None, re_env = plain_env, re_locked = {},
     re_kafka = acking 0, re_sum = None, re_drill = None, re_drill_scan = None, re_drill_iter = None\<rparr>"

definition sample_leg :: "UUID \<Rightarrow> int \<Rightarrow> je_row" where
  "sample_leg t n = \<lparr>jer_id = 1, jer_transaction_id = t, jer_tenant_id = ''t'', jer_account_id = 1, jer_amount = n,
     jer_currency = ''USD'', jer_created_at = 0\<rparr>"

definition broken_outbox :: "KafkaMessage list outbox_world" where
  "broken_outbox = sample_outbox\<lparr>ow_db := empty_db\<lparr>journal_entries := [sample_leg 1 5, sample_leg 2 (-3)]\<rparr>\<rparr>"

theorem RunOnce_verdict_witness:
  "\<exists>w' res. RunOnce sample_ustr plain_pool 5 (NewReconciler [] defaultReconcilerConfig) sample_recon broken_outbox = (w', res)
     \<and> LedgerInvariantOK res = (sum_amounts (ow_db w') = 0) \<and> (UnbalancedTxIDs res = [] \<longleftrightarrow> LedgerInvariantOK res)"
proof -
  let ?r = "NewReconciler [] defaultReconcilerConfig"
  obtain w' res where run: "RunOnce sample_ustr plain_pool 5 ?r sample_recon broken_outbox = (w', res)"
    by (rule prod.exhaust)
  have "0 < DrilldownLimit (rc_cfg ?r)" "re_sum sample_recon = None" "re_drill sample_recon = None"
    "re_drill_scan sample_recon = None" "re_drill_iter sample_recon = None"
    by (simp_all add: NewReconciler_def Let_def defaultReconcilerConfig_def sample_recon_def)
  with RunOnce_verdict [OF _ _ _ _ _ run] run show ?thesis by blast
qed

text \<open>The verdict is only as fine as the global sum. Two transactions, each unbalanced, whose
  errors cancel pass the check, and no transaction is named.\<close>

theorem offsetting_errors_pass:
  "\<exists>d. snd (RunOnce ustr pc timeout r (sample_recon\<lparr>re_env := plain_env\<lparr>at_begin := Some (PgError ''08006'')\<rparr>\<rparr>)
          (sample_outbox\<lparr>ow_db := d\<rparr>))
        = \<lparr>OutboxDrained = 0, StalePendingObserved = 0, LedgerSum = ''0.0000'', LedgerInvariantOK = True, UnbalancedTxIDs = []\<rparr>
     \<and> select_unbalanced 50 d = [1, 2]"
proof (intro exI conjI)
  let ?d = "empty_db\<lparr>journal_entries := [sample_leg 1 5, sample_leg 2 (-5)]\<rparr>"
  show "select_unbalanced 50 ?d = [1, 2]"
    by (simp add: select_unbalanced_def tx_sum_def sample_leg_def)
  have "numeric_out 0 = ''0.0000''" by (simp add: numeric_out_zero_iff)
  then show "snd (RunOnce ustr pc timeout r (sample_recon\<lparr>re_env := plain_env\<lparr>at_begin := Some (PgError ''08006'')\<rparr>\<rparr>)
          (sample_outbox\<lparr>ow_db := ?d\<rparr>))
        = \<lparr>OutboxDrained = 0, StalePendingObserved = 0, LedgerSum = ''0.0000'', LedgerInvariantOK = True, UnbalancedTxIDs = []\<rparr>"
    by (simp add: RunOnce_def Let_def CountStalePending_def count_stale_pending_def sample_recon_def
        DrainStale_def drain_unfold plain_env_def LedgerSumZeroCheck_def sum_amounts_def sample_leg_def empty_db_def
        sample_outbox_def)
qed

end
