(* ===== verification/Request_Context.thy ===== *)
theory Request_Context
  imports Domain
begin

text \<open>
  The values a request carries through \<open>context.Context\<close>: incoming gRPC metadata, the actor
  claims installed by \<open>EdgeIdentity\<close> (\<open>interceptors/auth.go\<close>), the request id
  (\<open>interceptors/requestid.go\<close>), the trace id of the active span, the deadline, the peer and the
  attributes of the request logger (\<open>interceptors/logging.go\<close>), with the accessors of those
  files.
\<close>

record Claims =
  Subject :: string
  Tenant :: string
  Session :: string

text \<open>\<open>metadata.MD\<close>: header name to values; \<open>md.Get\<close> of an absent header is empty.\<close>

type_synonym MD = "(string \<times> string list) list"

definition md_Get :: "MD \<Rightarrow> string \<Rightarrow> string list" where
  "md_Get md k = (case map_of md k of None \<Rightarrow> [] | Some vs \<Rightarrow> vs)"

type_synonym log_attrs = "(string \<times> string) list"

record req_ctx =
  ctx_md :: "MD option"
  ctx_claims :: "Claims option"
  ctx_request_id :: "string option"
  ctx_trace_id :: "string option"
  ctx_deadline :: "instant option"
  ctx_peer :: "string option"
  ctx_logger :: "log_attrs option"

definition background :: req_ctx where
  "background = \<lparr>ctx_md = None, ctx_claims = None, ctx_request_id = None, ctx_trace_id = None,
                 ctx_deadline = None, ctx_peer = None, ctx_logger = None\<rparr>"

definition ClaimsFromContext :: "req_ctx \<Rightarrow> Claims option" where
  "ClaimsFromContext ctx = ctx_claims ctx"

definition WithClaims :: "req_ctx \<Rightarrow> Claims \<Rightarrow> req_ctx" where
  "WithClaims ctx c = ctx\<lparr>ctx_claims := Some c\<rparr>"

definition RequestIDFromContext :: "req_ctx \<Rightarrow> string" where
  "RequestIDFromContext ctx = (case ctx_request_id ctx of None \<Rightarrow> [] | Some v \<Rightarrow> v)"

definition WithRequestID :: "req_ctx \<Rightarrow> string \<Rightarrow> req_ctx" where
  "WithRequestID ctx i = ctx\<lparr>ctx_request_id := Some i\<rparr>"

text \<open>The default logger has no attributes.\<close>

definition LoggerFromContext :: "req_ctx \<Rightarrow> log_attrs" where
  "LoggerFromContext ctx = (case ctx_logger ctx of Some l \<Rightarrow> l | None \<Rightarrow> [])"

definition WithLogger :: "req_ctx \<Rightarrow> log_attrs \<Rightarrow> req_ctx" where
  "WithLogger ctx l = ctx\<lparr>ctx_logger := Some l\<rparr>"

lemmas ctx_defs = ClaimsFromContext_def WithClaims_def RequestIDFromContext_def WithRequestID_def
  LoggerFromContext_def WithLogger_def

end
