(* ===== verification/Sha256.thy ===== *)
theory Sha256
  imports Prelude
begin

text \<open>
  \<open>crypto/sha256.Sum256\<close> of the Go standard library (FIPS 180-4), on 32-bit words. The request
  fingerprint and the audit chain are built on it. No theorem assumes that it has no
  collisions: a statement about equal hashes ends in ``equal inputs, or these two inputs
  collide''.
\<close>

unbundle bit_operations_syntax

type_synonym w32 = "32 word"

definition rotr32 :: "nat \<Rightarrow> w32 \<Rightarrow> w32" where
  "rotr32 n x = drop_bit n x OR push_bit (32 - n) x"

text \<open>The constants of the standard: the first 32 bits of the fractional parts of the cube roots
  of the first 64 primes, and of the square roots of the first 8. \<open>root_frac k p\<close> finds the
  largest \<open>r\<close> with \<open>r ^ k \<le> p * 2 ^ (32 * k)\<close> bit by bit and keeps its low 32 bits.\<close>

definition root_frac :: "nat \<Rightarrow> int \<Rightarrow> w32" where
  "root_frac k p =
     word_of_int (foldl (\<lambda>r i. if (r + 2 ^ i) ^ k \<le> p * 2 ^ (32 * k) then r + 2 ^ i else r)
       0 (rev [0..<40]))"

definition primes_below :: "int \<Rightarrow> int list" where
  "primes_below n = filter (\<lambda>p. list_all (\<lambda>d. p mod d \<noteq> 0) [2..p - 1]) [2..n - 1]"

definition K256 :: "w32 list" where
  "K256 = map (root_frac 3) (primes_below 312)"

definition H256 :: "w32 list" where
  "H256 = map (root_frac 2) [2, 3, 5, 7, 11, 13, 17, 19]"

definition sigma0 :: "w32 \<Rightarrow> w32" where
  "sigma0 x = rotr32 7 x XOR rotr32 18 x XOR drop_bit 3 x"

definition sigma1 :: "w32 \<Rightarrow> w32" where
  "sigma1 x = rotr32 17 x XOR rotr32 19 x XOR drop_bit 10 x"

text \<open>The message schedule: 48 further words after the 16 of the block.\<close>

fun schedule :: "nat \<Rightarrow> w32 list \<Rightarrow> w32 list" where
  "schedule 0 w = w"
| "schedule (Suc n) w =
     schedule n (w @ [sigma1 (w ! (length w - 2)) + w ! (length w - 7)
                    + sigma0 (w ! (length w - 15)) + w ! (length w - 16)])"

fun round256 :: "w32 list \<Rightarrow> w32 \<times> w32 \<Rightarrow> w32 list" where
  "round256 [a, b, c, d, e, f, g, h] (k, w) =
     (let t1 = h + (rotr32 6 e XOR rotr32 11 e XOR rotr32 25 e)
                 + ((e AND f) XOR (NOT e AND g)) + k + w;
          t2 = (rotr32 2 a XOR rotr32 13 a XOR rotr32 22 a)
                 + ((a AND b) XOR (a AND c) XOR (b AND c))
      in [t1 + t2, a, b, c, d + t1, e, f, g])"
| "round256 hs _ = hs"

definition sha_block :: "w32 list \<Rightarrow> w32 list \<Rightarrow> w32 list" where
  "sha_block H M = map2 (+) H (foldl round256 H (zip K256 (schedule 48 M)))"

definition be_word :: "bytes \<Rightarrow> w32" where
  "be_word cs = foldl (\<lambda>a c. push_bit 8 a OR of_char c) 0 cs"

definition word_be :: "w32 \<Rightarrow> bytes" where
  "word_be w = map (\<lambda>n. char_of (uint (drop_bit n w))) [24, 16, 8, 0]"

fun chunks :: "nat \<Rightarrow> 'a list \<Rightarrow> 'a list list" where
  "chunks n [] = []"
| "chunks 0 (x # xs) = [x # xs]"
| "chunks (Suc n) (x # xs) = take (Suc n) (x # xs) # chunks (Suc n) (drop (Suc n) (x # xs))"

definition sha_pad :: "bytes \<Rightarrow> bytes" where
  "sha_pad m =
     m @ [char_of (128 :: nat)]
       @ replicate ((119 - length m mod 64) mod 64) (char_of (0 :: nat))
       @ map (\<lambda>n. char_of (uint (drop_bit n (word_of_int (8 * int (length m)) :: 64 word))))
             [56, 48, 40, 32, 24, 16, 8, 0]"

definition sha256 :: "bytes \<Rightarrow> bytes" where
  "sha256 m =
     concat (map word_be
       (foldl (\<lambda>H b. sha_block H (map be_word (chunks 4 b))) H256 (chunks 64 (sha_pad m))))"

text \<open>Two distinct byte strings with one hash.\<close>

definition sha256_collision :: "bytes \<Rightarrow> bytes \<Rightarrow> bool" where
  "sha256_collision a b \<longleftrightarrow> a \<noteq> b \<and> sha256 a = sha256 b"

section \<open>The hash is 32 bytes\<close>

lemma length_round256: "length (round256 hs kw) = length hs"
  by (induction hs kw rule: round256.induct) (auto simp: Let_def)

lemma length_foldl_round256: "length (foldl round256 hs kws) = length hs"
  by (induction kws arbitrary: hs) (auto simp: length_round256)

lemma length_sha_block: "length (sha_block H M) = length H"
  by (simp add: sha_block_def length_foldl_round256)

lemma length_foldl_sha_block:
  "length (foldl (\<lambda>H b. sha_block H (f b)) H bs) = length H"
  by (induction bs arbitrary: H) (auto simp: length_sha_block)

lemma length_concat_word_be: "length (concat (map word_be ws)) = 4 * length ws"
  by (induction ws) (auto simp: word_be_def)

lemma length_sha256 [simp]: "length (sha256 m) = 32"
  by (simp add: sha256_def length_concat_word_be length_foldl_sha_block H256_def)

lemma sha256_eqD: "sha256 a = sha256 b \<Longrightarrow> a = b \<or> sha256_collision a b"
  by (auto simp: sha256_collision_def)

end
