(* ===== verification/Audit_Hash.thy ===== *)
theory Audit_Hash
  imports Request_Context Sha256
begin

text \<open>
  \<open>internal/audit\<close>: the audit envelope of a request (\<open>context.go\<close>) and the canonical encoding and
  chain hash of an audit event (\<open>hasher.go\<close>). The encoding is shown to be injective, and from
  that a chain anchored at \<open>GenesisHash\<close> is tamper-evident up to a SHA-256 collision.
\<close>

section \<open>Envelope\<close>

text \<open>\<open>now\<close> is the value of \<open>time.Now().UTC()\<close> at the call.\<close>

definition EnvelopeFromContext :: "req_ctx \<Rightarrow> instant \<Rightarrow> AuditEnvelope result" where
  "EnvelopeFromContext ctx now =
     (case ClaimsFromContext ctx of
        None \<Rightarrow> Err ErrEnvelopeIncomplete
      | Some claims \<Rightarrow>
          if Tenant claims = [] \<or> Subject claims = [] then Err ErrEnvelopeIncomplete
          else let reqID = RequestIDFromContext ctx
               in if reqID = [] then Err ErrEnvelopeIncomplete
                  else let traceID = (case ctx_trace_id ctx of Some t \<Rightarrow> t | None \<Rightarrow> [])
                       in Inr \<lparr>env_TenantID = Tenant claims, env_ActorSubject = Subject claims,
                               env_ActorSession = Session claims, env_RequestID = reqID,
                               env_TraceID = traceID, env_OccurredAt = now\<rparr>)"

section \<open>Canonical bytes and the chain hash\<close>

definition GenesisHash :: bytes where
  "GenesisHash = replicate 32 (char_of (0 :: nat))"

definition appendBytes :: "bytes \<Rightarrow> bytes \<Rightarrow> bytes" where
  "appendBytes buf b = AppendUint32 buf (length b) @ b"

definition appendString :: "bytes \<Rightarrow> string \<Rightarrow> bytes" where
  "appendString buf s = appendBytes buf s"

text \<open>The 16 bytes of a UUID, most significant first; a nil slice has no bytes.\<close>

definition uuid_bytes :: "UUID \<Rightarrow> bytes" where
  "uuid_bytes u = map (\<lambda>i. char_of (unat u div 256 ^ i mod 256 :: nat)) (rev [0..<16])"

definition slice_bytes :: "bytes option \<Rightarrow> bytes" where
  "slice_bytes b = (case b of None \<Rightarrow> [] | Some bs \<Rightarrow> bs)"

definition CanonicalBytes :: "AuditEvent \<Rightarrow> bytes \<Rightarrow> bytes" where
  "CanonicalBytes e prevHash =
     (let buf = [];
          buf = appendBytes buf prevHash;
          buf = appendString buf (env_TenantID e);
          buf = appendString buf (env_ActorSubject e);
          buf = appendString buf (env_ActorSession e);
          buf = appendString buf (env_RequestID e);
          buf = appendString buf (env_TraceID e);
          buf = appendString buf (FormatInt (UnixNano (env_OccurredAt e)));
          buf = appendString buf (ae_AggregateType e);
          buf = appendBytes buf (uuid_bytes (ae_AggregateID e));
          buf = appendString buf (ae_Operation e);
          buf = appendBytes buf (slice_bytes (ae_BeforeState e));
          buf = appendBytes buf (slice_bytes (ae_AfterState e))
      in buf)"

definition EntryHash :: "AuditEvent \<Rightarrow> bytes \<Rightarrow> bytes" where
  "EntryHash e prevHash = sha256 (CanonicalBytes e prevHash)"

definition EntryHashHex :: "AuditEvent \<Rightarrow> bytes \<Rightarrow> string" where
  "EntryHashHex e prevHash = hex_EncodeToString (EntryHash e prevHash)"

section \<open>Specification notions\<close>

text \<open>The fields the encoding covers, in its order.\<close>

definition audit_strings :: "AuditEvent \<Rightarrow> bytes list" where
  "audit_strings e =
     [env_TenantID e, env_ActorSubject e, env_ActorSession e, env_RequestID e, env_TraceID e,
      FormatInt (UnixNano (env_OccurredAt e)), ae_AggregateType e, uuid_bytes (ae_AggregateID e),
      ae_Operation e, slice_bytes (ae_BeforeState e), slice_bytes (ae_AfterState e)]"

definition encodable :: "AuditEvent \<Rightarrow> bool" where
  "encodable e \<longleftrightarrow> list_all (\<lambda>s. length s < 2 ^ 32) (audit_strings e)"

text \<open>The event with nil states replaced by empty ones, which the encoding identifies.\<close>

definition nonnil :: "AuditEvent \<Rightarrow> AuditEvent" where
  "nonnil e = e\<lparr>ae_BeforeState := Some (slice_bytes (ae_BeforeState e)),
               ae_AfterState := Some (slice_bytes (ae_AfterState e))\<rparr>"

text \<open>Rows \<open>(event, prev_hash, entry_hash)\<close> chained from a starting hash.\<close>

fun chain_from :: "bytes \<Rightarrow> (AuditEvent \<times> bytes \<times> bytes) list \<Rightarrow> bool" where
  "chain_from h [] = True"
| "chain_from h ((e, p, x) # rows) = (p = h \<and> x = EntryHash e p \<and> chain_from x rows)"

definition head_of :: "bytes \<Rightarrow> (AuditEvent \<times> bytes \<times> bytes) list \<Rightarrow> bytes" where
  "head_of h rows = (if rows = [] then h else snd (snd (last rows)))"

section \<open>Lemmas\<close>

definition prefixed :: "bytes \<Rightarrow> bytes" where
  "prefixed b = be32 (length b mod 2 ^ 32) @ b"

lemma CanonicalBytes_concat:
  "CanonicalBytes e prev = concat (map prefixed (prev # audit_strings e))"
  by (simp add: CanonicalBytes_def appendBytes_def appendString_def AppendUint32_def prefixed_def
      audit_strings_def Let_def)

lemma concat_prefixed_inj:
  "length xs = length ys \<Longrightarrow> list_all (\<lambda>s. length s < 2 ^ 32) xs \<Longrightarrow>
   list_all (\<lambda>s. length s < 2 ^ 32) ys \<Longrightarrow>
   concat (map prefixed xs) = concat (map prefixed ys) \<Longrightarrow> xs = ys"
proof (induction xs ys rule: list_induct2)
  case (Cons x xs y ys)
  have "prefixed x = be32 (length x) @ x" "prefixed y = be32 (length y) @ y"
    using Cons.prems(1,2) by (simp_all add: prefixed_def)
  then have "be32 (length x) @ x @ concat (map prefixed xs) = be32 (length y) @ y @ concat (map prefixed ys)"
    using Cons.prems(3) by simp
  then have "x = y \<and> concat (map prefixed xs) = concat (map prefixed ys)"
    using Cons.prems by (intro prefixed_inj) simp_all
  with Cons show ?case by simp
qed simp

lemma digits256_inj:
  fixes m n :: nat
  shows "m < 256 ^ k \<Longrightarrow> n < 256 ^ k \<Longrightarrow>
    (\<forall>i < k. m div 256 ^ i mod 256 = n div 256 ^ i mod 256) \<Longrightarrow> m = n"
proof (induction k arbitrary: m n)
  case (Suc k)
  have "m div 256 = n div 256"
  proof (rule Suc.IH)
    show "m div 256 < 256 ^ k" "n div 256 < 256 ^ k"
      using Suc.prems(1,2) by (simp_all add: less_mult_imp_div_less mult.commute)
    show "\<forall>i < k. m div 256 div 256 ^ i mod 256 = n div 256 div 256 ^ i mod 256"
    proof (intro allI impI)
      fix i assume "i < k"
      then have "m div 256 ^ Suc i mod 256 = n div 256 ^ Suc i mod 256" using Suc.prems(3) by blast
      then show "m div 256 div 256 ^ i mod 256 = n div 256 div 256 ^ i mod 256"
        by (simp add: div_mult2_eq)
    qed
  qed
  moreover have "m mod 256 = n mod 256" using Suc.prems(3) by (auto dest: spec [of _ 0])
  ultimately show ?case by (metis div_mult_mod_eq)
qed simp

lemma length_uuid_bytes [simp]: "length (uuid_bytes u) = 16"
  by (simp add: uuid_bytes_def)

lemma uuid_bytes_inj: "uuid_bytes u = uuid_bytes v \<Longrightarrow> u = v"
proof -
  assume eq: "uuid_bytes u = uuid_bytes v"
  have "unat u = unat v"
  proof (rule digits256_inj [of _ 16])
    show "unat u < 256 ^ 16" "unat v < 256 ^ 16"
      using unsigned_less [of u] unsigned_less [of v] by simp_all
    show "\<forall>i<16. unat u div 256 ^ i mod 256 = unat v div 256 ^ i mod 256"
      using eq by (auto simp: uuid_bytes_def intro: char_of_nat_inj)
  qed
  then show ?thesis by (simp only: word_unat_eq_iff)
qed

lemma nat_digits_inj: "nat_digits m = nat_digits n \<Longrightarrow> m = n"
  by (metis digits_val_nat_digits)

lemma nat_digits_not_minus: "CHR ''-'' # ds \<noteq> nat_digits n"
proof
  assume "CHR ''-'' # ds = nat_digits n"
  then have "list_all is_digit (CHR ''-'' # ds)" by simp
  then show False by (simp add: is_digit_def)
qed

lemma FormatInt_inj: "FormatInt m = FormatInt n \<Longrightarrow> m = n"
  by (auto simp: FormatInt_def nat_digits_not_minus nat_digits_not_minus [symmetric]
      split: if_splits dest!: nat_digits_inj)

lemma audit_strings_inj:
  assumes "audit_strings e = audit_strings e'"
    and "in_int64 (env_OccurredAt e)" "in_int64 (env_OccurredAt e')"
  shows "nonnil e = nonnil e'"
proof -
  have "UnixNano (env_OccurredAt e) = UnixNano (env_OccurredAt e')"
    using assms(1) by (auto simp: audit_strings_def dest: FormatInt_inj)
  then have "env_OccurredAt e = env_OccurredAt e'"
    using assms(2,3) by (simp add: UnixNano_def to_int64_id)
  moreover have "ae_AggregateID e = ae_AggregateID e'"
    using assms(1) by (auto simp: audit_strings_def dest: uuid_bytes_inj)
  ultimately show ?thesis
    using assms(1) by (auto simp: audit_strings_def nonnil_def intro!: AuditEvent.equality)
qed

lemma CanonicalBytes_inj:
  assumes "CanonicalBytes e p = CanonicalBytes e' p'"
    and "encodable e" "encodable e'" "length p < 2 ^ 32" "length p' < 2 ^ 32"
  shows "p = p' \<and> audit_strings e = audit_strings e'"
proof -
  have "p # audit_strings e = p' # audit_strings e'"
    using assms unfolding CanonicalBytes_concat encodable_def
    by (intro concat_prefixed_inj) (simp_all add: audit_strings_def)
  then show ?thesis by simp
qed

lemma EntryHash_inj:
  assumes "EntryHash e p = EntryHash e' p'"
    and "encodable e" "encodable e'" "length p < 2 ^ 32" "length p' < 2 ^ 32"
    and "in_int64 (env_OccurredAt e)" "in_int64 (env_OccurredAt e')"
  shows "p = p' \<and> nonnil e = nonnil e' \<or> sha256_collision (CanonicalBytes e p) (CanonicalBytes e' p')"
  using sha256_eqD [OF assms(1) [unfolded EntryHash_def]] CanonicalBytes_inj [OF _ assms(2-5)]
    audit_strings_inj [OF _ assms(6,7)] by blast

lemma length_EntryHash [simp]: "length (EntryHash e p) = 32"
  by (simp add: EntryHash_def)

lemma chain_from_snoc:
  "chain_from h (rows @ [(e, p, x)]) \<longleftrightarrow>
     chain_from h rows \<and> p = head_of h rows \<and> x = EntryHash e p"
  by (induction h rows rule: chain_from.induct) (auto simp: head_of_def)

lemma chain_from_append:
  "chain_from h (xs @ ys) \<longleftrightarrow> chain_from h xs \<and> chain_from (head_of h xs) ys"
  by (induction h xs rule: chain_from.induct) (auto simp: head_of_def)

lemma length_head_of: "chain_from h rows \<Longrightarrow> length h = 32 \<Longrightarrow> length (head_of h rows) = 32"
  by (cases rows rule: rev_cases) (auto simp: head_of_def chain_from_append)

definition wf_event :: "AuditEvent \<Rightarrow> bool" where
  "wf_event e \<longleftrightarrow> encodable e \<and> in_int64 (env_OccurredAt e)"

text \<open>Two chains of the same length with the same head hash.\<close>

lemma chain_head_inj:
  assumes "length xs = length ys" "chain_from h xs" "chain_from h ys" "length h = 32"
    and "list_all (wf_event \<circ> fst) xs" "list_all (wf_event \<circ> fst) ys"
    and "head_of h xs = head_of h ys"
  shows "map (nonnil \<circ> fst) xs = map (nonnil \<circ> fst) ys \<or> (\<exists>a b. sha256_collision a b)"
  using assms
proof (induction xs arbitrary: ys rule: rev_induct)
  case (snoc r xs)
  obtain ys' s where ys: "ys = ys' @ [s]" using snoc.prems(1) by (cases ys rule: rev_cases) auto
  obtain e p x e' p' x' where r: "r = (e, p, x)" "s = (e', p', x')" by (cases r, cases s)
  have c: "chain_from h xs" "p = head_of h xs" "x = EntryHash e p"
    "chain_from h ys'" "p' = head_of h ys'" "x' = EntryHash e' p'"
    using snoc.prems(2,3) by (auto simp: ys r chain_from_snoc)
  have "length p = 32" "length p' = 32" using c snoc.prems(4) by (simp_all add: length_head_of)
  moreover have "EntryHash e p = EntryHash e' p'" using snoc.prems(7) c by (simp add: ys r head_of_def)
  ultimately have "p = p' \<and> nonnil e = nonnil e' \<or> (\<exists>a b. sha256_collision a b)"
    using EntryHash_inj [of e p e' p'] snoc.prems(5,6) by (auto simp: ys r wf_event_def)
  then show ?case
    using snoc.IH [of ys'] snoc.prems c by (auto simp: ys r)
qed simp

section \<open>Properties\<close>


definition sample_event :: "bytes option \<Rightarrow> AuditEvent" where
  "sample_event before = \<lparr>env_TenantID = ''t'', env_ActorSubject = ''alice'', env_ActorSession = [],
     env_RequestID = ''r1'', env_TraceID = [], env_OccurredAt = 5,
     ae_AggregateType = AuditAggregateTransaction, ae_AggregateID = 7,
     ae_Operation = AuditOpTransferExecuted, ae_BeforeState = before, ae_AfterState = Some ''{}''\<rparr>"

lemma wf_sample_event: "wf_event (sample_event None)" "wf_event (sample_event (Some []))"
proof -
  have "to_int64 5 = 5" by (rule to_int64_id) (simp add: in_int64_def)
  then show "wf_event (sample_event None)" "wf_event (sample_event (Some []))"
    by (simp_all add: wf_event_def encodable_def audit_strings_def sample_event_def in_int64_def
        slice_bytes_def AuditAggregateTransaction_def AuditOpTransferExecuted_def FormatInt_def
        UnixNano_def nat_digits.simps [of 5])
qed


end
