(* ===== verification/Audit_Drain.thy ===== *)
theory Audit_Drain
  imports Audit_Hash Ledger_Repo
begin

text \<open>
  The asynchronous audit path: the drain of \<open>repository/audit_drain.go\<close> (with the head lookup of
  \<open>audit_repo.go\<close>) that turns \<open>audit_pending\<close> rows into chained \<open>audit_log\<close> rows, and the worker
  loop of \<open>infrastructure/audit_worker.go\<close>. Statements of a drain are numbered in the order they
  run, so that a fault can hit any of them.
\<close>

section \<open>The chain head\<close>

definition latestAuditHash :: "db attempt_env \<Rightarrow> nat \<Rightarrow> string \<Rightarrow> db \<Rightarrow> bytes result" where
  "latestAuditHash env n tenantID d =
     (case at_stmt env n of
        Some err \<Rightarrow> if errors_Is err PgxErrNoRows then Inr GenesisHash else Inl err
      | None \<Rightarrow> (case select_latest_audit_hash tenantID d of None \<Rightarrow> Inr GenesisHash | Some prev \<Rightarrow> Inr prev))"

section \<open>Draining\<close>

definition claimPendingBatch ::
    "db attempt_env \<Rightarrow> (string \<times> UUID) set \<Rightarrow> int \<Rightarrow> db \<Rightarrow> pending_row list result" where
  "claimPendingBatch env locked batchSize d =
     (case at_stmt env 0 of
        Some err \<Rightarrow> Inl (Errorf [Lit ''audit: select pending: '', W err])
      | None \<Rightarrow>
          let out = select_audit_pending_batch (nat batchSize) locked d
          in (case (if out = [] then None else at_stmt env 1) of
                Some err \<Rightarrow> Inl (Errorf [Lit ''audit: scan pending: '', W err])
              | None \<Rightarrow> (case at_stmt env 2 of
                  Some err \<Rightarrow> Inl (Errorf [Lit ''audit: iterate pending: '', W err])
                | None \<Rightarrow> Inr out)))"

text \<open>The inserts of one tenant's run, from statement \<open>n\<close> and chain head \<open>prev\<close> on; the result is the
  number of the next statement and the tables.\<close>

fun insert_run ::
    "jsonb_in \<Rightarrow> db attempt_env \<Rightarrow> nat \<Rightarrow> bytes \<Rightarrow> pending_row list \<Rightarrow> db \<Rightarrow> (nat \<times> db) result" where
  "insert_run jsonb env n prev [] d = Inr (n, d)"
| "insert_run jsonb env n prev (p # ps) d =
     (let entry = EntryHash (pr_event p) prev
      in case exec_stmt env n (insert_audit_event jsonb (pr_id p) (pr_event p) prev entry) d of
           Inl err \<Rightarrow> Inl (Errorf [Lit ''audit: insert audit_log: '', W err])
         | Inr d' \<Rightarrow> insert_run jsonb env (n + 1) entry ps d')"

definition chainTenantRun ::
    "jsonb_in \<Rightarrow> db attempt_env \<Rightarrow> nat \<Rightarrow> string \<Rightarrow> pending_row list \<Rightarrow> db \<Rightarrow> (nat \<times> db) result" where
  "chainTenantRun jsonb env n tenantID rows d =
     (case latestAuditHash env n tenantID d of
        Inl err \<Rightarrow> Inl (Errorf [Lit ''audit: load chain head for tenant '', Q tenantID, Lit '': '', W err])
      | Inr prev \<Rightarrow>
          (case insert_run jsonb env (n + 1) prev rows d of
             Inl err \<Rightarrow> Inl err
           | Inr (n', d') \<Rightarrow>
               (case at_stmt env n' of
                  Some err \<Rightarrow> Inl (Errorf [Lit ''audit: delete pending: '', W err])
                | None \<Rightarrow> Inr (n' + 1, delete_audit_pending tenantID (map pr_id rows) d'))))"

text \<open>The two index loops over \<open>pending\<close>: the longest run of the first row's tenant, then the rest.\<close>

function chainAndForward :: "jsonb_in \<Rightarrow> db attempt_env \<Rightarrow> nat \<Rightarrow> pending_row list \<Rightarrow> db \<Rightarrow> db result" where
  "chainAndForward jsonb env n [] d = Inr d"
| "chainAndForward jsonb env n (p # ps) d =
     (let tenantID = env_TenantID (pr_event p);
          same = (\<lambda>q. env_TenantID (pr_event q) = tenantID)
      in case chainTenantRun jsonb env n tenantID (p # takeWhile same ps) d of
           Inl err \<Rightarrow> Inl err
         | Inr (n', d') \<Rightarrow> chainAndForward jsonb env n' (dropWhile same ps) d')"
  by pat_completeness auto
termination
  by (relation "measure (\<lambda>(jsonb, env, n, ps, d). length ps)") (simp_all add: le_imp_less_Suc length_dropWhile_le)

record audit_world =
  au_pool :: pool_state
  au_db :: db

text \<open>\<open>inTx\<close>: the function runs on its own copy of the tables and may set the captured variable \<open>v\<close>;
  a failing attempt is rolled back and the rollback's error dropped.\<close>

definition audit_inTx ::
    "PoolConfig \<Rightarrow> db attempt_env \<Rightarrow> (db \<Rightarrow> 'v \<Rightarrow> db result \<times> 'v) \<Rightarrow> 'v \<Rightarrow> audit_world
      \<Rightarrow> audit_world \<times> 'v \<times> go_error option" where
  "audit_inTx acquireCfg env fn v w =
     (case BeginTxWithAcquire acquireCfg env (au_pool w) of
        (p, Inl err) \<Rightarrow> (w\<lparr>au_pool := p\<rparr>, v, Some (Errorf [Lit ''audit: begin tx: '', W err]))
      | (p, Inr tx) \<Rightarrow>
          (case fn (au_db w) v of
             (Inl err, v1) \<Rightarrow> (w\<lparr>au_pool := fst (rt_Rollback env p tx)\<rparr>, v1, Some err)
           | (Inr d', v1) \<Rightarrow>
               (case rt_Commit env p tx of
                  (p1, tx1, Some err) \<Rightarrow>
                    (w\<lparr>au_pool := fst (rt_Rollback env p1 tx1),
                       au_db := (case at_commit env of CommitFails e applied \<Rightarrow> if applied then d' else au_db w
                                 | CommitOk \<Rightarrow> d')\<rparr>,
                     v1, Some (Errorf [Lit ''audit: commit: '', W err]))
                | (p1, tx1, None) \<Rightarrow> (w\<lparr>au_pool := p1, au_db := d'\<rparr>, v1, None))))"

text \<open>The function \<open>Drain\<close> passes, with its captured count.\<close>

definition drain_fn ::
    "jsonb_in \<Rightarrow> db attempt_env \<Rightarrow> (string \<times> UUID) set \<Rightarrow> int \<Rightarrow> db \<Rightarrow> nat \<Rightarrow> db result \<times> nat" where
  "drain_fn jsonb env locked batchSize d drained =
     (case claimPendingBatch env locked batchSize d of
        Inl err \<Rightarrow> (Inl err, drained)
      | Inr pending \<Rightarrow>
          if length pending = 0 then (Inr d, drained)
          else (case chainAndForward jsonb env 3 pending d of
                  Inl err \<Rightarrow> (Inl err, drained)
                | Inr d' \<Rightarrow> (Inr d', length pending)))"

definition audit_Drain ::
    "jsonb_in \<Rightarrow> PoolConfig \<Rightarrow> db attempt_env \<Rightarrow> (string \<times> UUID) set \<Rightarrow> int \<Rightarrow> audit_world
      \<Rightarrow> audit_world \<times> nat \<times> go_error option" where
  "audit_Drain jsonb acquireCfg env locked batchSize w =
     (if batchSize \<le> 0
      then (w, 0, Some (Errorf [Lit ''audit: drain batch size must be positive (got '', D batchSize, Lit '')'']))
      else audit_inTx acquireCfg env (drain_fn jsonb env locked batchSize) 0
             (w\<lparr>au_db := at_before env (au_db w)\<rparr>))"

text \<open>\<open>now\<close> is the repository's clock; \<open>conn\<close> says what the acquisition and the query answer.\<close>

definition OldestPendingAge ::
    "PoolConfig \<Rightarrow> db attempt_env \<Rightarrow> instant \<Rightarrow> audit_world \<Rightarrow> audit_world \<times> duration result" where
  "OldestPendingAge acquireCfg conn now w =
     (case AcquireConn acquireCfg conn (au_pool w) of
        (p, Some err) \<Rightarrow> (w\<lparr>au_pool := p\<rparr>, Inl err)
      | (p, None) \<Rightarrow>
          (w\<lparr>au_pool := conn_Release p\<rparr>,
           (case at_stmt conn 0 of
              Some err \<Rightarrow> Inl (Errorf [Lit ''audit: oldest pending: '', W err])
            | None \<Rightarrow> (case select_oldest_pending (au_db w) of
                None \<Rightarrow> Inr 0
              | Some oldest \<Rightarrow> let age = now - oldest in if age < 0 then Inr 0 else Inr age))))"

section \<open>The worker\<close>

record AuditWorkerConfig =
  aw_BatchSize :: int
  aw_PollInterval :: duration
  aw_IdleInterval :: duration
  aw_BackoffOnError :: duration

definition defaultAuditWorkerConfig :: AuditWorkerConfig where
  "defaultAuditWorkerConfig = \<lparr>aw_BatchSize = 1000, aw_PollInterval = 50 * Millisecond,
     aw_IdleInterval = 500 * Millisecond, aw_BackoffOnError = 1 * Second\<rparr>"

text \<open>The optional gauge and counter are their current values (the gauge in nanoseconds).\<close>

record AuditWorker =
  aw_cfg :: AuditWorkerConfig
  aw_lag :: "duration option"
  aw_drained :: "nat option"

definition NewAuditWorker :: "AuditWorkerConfig \<Rightarrow> AuditWorker" where
  "NewAuditWorker cfg =
     (let def = defaultAuditWorkerConfig;
          cfg = (if aw_BatchSize cfg \<le> 0 then cfg\<lparr>aw_BatchSize := aw_BatchSize def\<rparr> else cfg);
          cfg = (if aw_PollInterval cfg \<le> 0 then cfg\<lparr>aw_PollInterval := aw_PollInterval def\<rparr> else cfg);
          cfg = (if aw_IdleInterval cfg \<le> 0 then cfg\<lparr>aw_IdleInterval := aw_IdleInterval def\<rparr> else cfg);
          cfg = (if aw_BackoffOnError cfg \<le> 0 then cfg\<lparr>aw_BackoffOnError := aw_BackoffOnError def\<rparr> else cfg)
      in \<lparr>aw_cfg = cfg, aw_lag = None, aw_drained = None\<rparr>)"

definition WithLagGauge :: "AuditWorker \<Rightarrow> duration \<Rightarrow> AuditWorker" where
  "WithLagGauge w g = w\<lparr>aw_lag := Some g\<rparr>"

definition WithDrainCounter :: "AuditWorker \<Rightarrow> nat \<Rightarrow> AuditWorker" where
  "WithDrainCounter w c = w\<lparr>aw_drained := Some c\<rparr>"

text \<open>One turn: whether the context is done before it, the answers to the drain and to the lag probe,
  the clock, and when, if at all, the context is cancelled during the sleep.\<close>

record audit_turn =
  at_ctx_err :: bool
  at_env :: "db attempt_env"
  at_locked :: "(string \<times> UUID) set"
  at_probe :: "db attempt_env"
  at_probe_now :: instant
  at_cancel :: "duration option"

definition publishLag :: "PoolConfig \<Rightarrow> audit_turn \<Rightarrow> AuditWorker \<Rightarrow> audit_world \<Rightarrow> AuditWorker \<times> audit_world" where
  "publishLag pc t wk w =
     (case aw_lag wk of
        None \<Rightarrow> (wk, w)
      | Some g \<Rightarrow> (case OldestPendingAge pc (at_probe t) (at_probe_now t) w of
          (w', Inl err) \<Rightarrow> (wk, w')
        | (w', Inr age) \<Rightarrow> (wk\<lparr>aw_lag := Some age\<rparr>, w')))"

text \<open>As \<open>sleep\<close> of the outbox worker.\<close>

definition sleepCtx :: "duration option \<Rightarrow> duration \<Rightarrow> bool" where
  "sleepCtx cancel d = (case cancel of None \<Rightarrow> True | Some c \<Rightarrow> d < c)"

lemma sleepCtx_completes [simp]: "sleepCtx None d"
  by (simp add: sleepCtx_def)

text \<open>The loop over a list of turns; the result has the waits and whether the loop returned.\<close>

fun runLoop ::
    "jsonb_in \<Rightarrow> PoolConfig \<Rightarrow> audit_turn list \<Rightarrow> AuditWorker \<Rightarrow> audit_world
      \<Rightarrow> (AuditWorker \<times> audit_world) \<times> duration list \<times> bool" where
  "runLoop jsonb pc [] wk w = ((wk, w), [], False)"
| "runLoop jsonb pc (t # ts) wk w =
     (if at_ctx_err t then ((wk, w), [], True)
      else case audit_Drain jsonb pc (at_env t) (at_locked t) (aw_BatchSize (aw_cfg wk)) w of
             (w1, drained, Some err) \<Rightarrow>
               if errors_Is err ContextCanceled then ((wk, w1), [], True)
               else if \<not> sleepCtx (at_cancel t) (aw_BackoffOnError (aw_cfg wk)) then ((wk, w1), [aw_BackoffOnError (aw_cfg wk)], True)
               else (case runLoop jsonb pc ts wk w1 of (s, ds, stopped) \<Rightarrow> (s, aw_BackoffOnError (aw_cfg wk) # ds, stopped))
           | (w1, drained, None) \<Rightarrow>
               if drained = 0
               then (case publishLag pc t wk w1 of (wk2, w2) \<Rightarrow>
                       if \<not> sleepCtx (at_cancel t) (aw_IdleInterval (aw_cfg wk)) then ((wk2, w2), [aw_IdleInterval (aw_cfg wk)], True)
                       else (case runLoop jsonb pc ts wk2 w2 of (s, ds, stopped) \<Rightarrow> (s, aw_IdleInterval (aw_cfg wk) # ds, stopped)))
               else let wk1 = wk\<lparr>aw_drained := map_option (\<lambda>c. c + drained) (aw_drained wk)\<rparr>
                    in if \<not> sleepCtx (at_cancel t) (aw_PollInterval (aw_cfg wk)) then ((wk1, w1), [aw_PollInterval (aw_cfg wk)], True)
                       else (case runLoop jsonb pc ts wk1 w1 of (s, ds, stopped) \<Rightarrow> (s, aw_PollInterval (aw_cfg wk) # ds, stopped)))"

end
