(* ===== verification/Audit_Props.thy ===== *)
theory Audit_Props
  imports Audit_Drain Ledger_Props "HOL-Library.Multiset"
begin

text \<open>
  What the audit drain promises. The records of a tenant are one sequence, the logged rows followed
  by the queued rows in id order; a drain moves the border of that sequence and nothing else. When
  the sequence is also in the order of \<open>(occurred_at, id)\<close>, the order the head lookup uses, the log
  of every tenant stays one hash chain; when it is not, the chain forks.
\<close>

section \<open>Specification\<close>

definition tenant_of :: "pending_row \<Rightarrow> string" where
  "tenant_of p = env_TenantID (pr_event p)"

definition log_of :: "string \<Rightarrow> db \<Rightarrow> audit_row list" where
  "log_of t d = filter (\<lambda>r. env_TenantID (ar_event r) = t) (audit_log d)"

definition queue_of :: "string \<Rightarrow> db \<Rightarrow> pending_row list" where
  "queue_of t d = sort_key pr_id (filter (\<lambda>p. tenant_of p = t) (audit_pending d))"

definition audit_seq :: "string \<Rightarrow> db \<Rightarrow> (UUID \<times> AuditEvent) list" where
  "audit_seq t d = map (\<lambda>r. (ar_id r, ar_event r)) (log_of t d) @ map (\<lambda>p. (pr_id p, pr_event p)) (queue_of t d)"

definition chain_ok :: "string \<Rightarrow> db \<Rightarrow> bool" where
  "chain_ok t d \<longleftrightarrow> chain_from GenesisHash (map (\<lambda>r. (ar_event r, ar_prev_hash r, ar_entry_hash r)) (log_of t d))"

definition in_order :: "string \<Rightarrow> db \<Rightarrow> bool" where
  "in_order t d \<longleftrightarrow> sorted (map (\<lambda>(i, e). (env_OccurredAt e, i)) (audit_seq t d))"

text \<open>Queue keys are unique and queued events have the form the columns store.\<close>

definition queue_ok :: "jsonb_in \<Rightarrow> db \<Rightarrow> bool" where
  "queue_ok jsonb d \<longleftrightarrow> distinct (map (\<lambda>p. (tenant_of p, pr_id p)) (audit_pending d))
     \<and> (\<forall>p \<in> set (audit_pending d). store_event jsonb (pr_event p) = Inr (pr_event p))"

section \<open>Sorting\<close>

lemma insort_key_cong:
  "(\<And>y. y \<in> set ys \<Longrightarrow> (f x \<le> f y) = (g x \<le> g y)) \<Longrightarrow> insort_key f x ys = insort_key g x ys"
  by (induction ys) auto

lemma sort_key_cong:
  assumes "\<And>x y. x \<in> set xs \<Longrightarrow> y \<in> set xs \<Longrightarrow> (f x \<le> f y) = (g x \<le> g y)"
  shows "sort_key f xs = sort_key g xs"
  using assms
proof (induction xs)
  case (Cons x xs)
  then have "sort_key f xs = sort_key g xs" by simp
  with Cons.prems show ?case by (auto intro: insort_key_cong)
qed simp

text \<open>What a batch takes of each tenant is a prefix of the tenant's queue.\<close>

definition heads_batch :: "pending_row list \<Rightarrow> db \<Rightarrow> bool" where
  "heads_batch ps d \<longleftrightarrow> (\<forall>t. \<exists>rest. queue_of t d = filter (\<lambda>p. tenant_of p = t) ps @ rest)"

lemma batch_heads: "heads_batch (select_audit_pending_batch n {} d) d"
  unfolding heads_batch_def
proof
  fix t
  let ?s = "sort_key (\<lambda>p. (tenant_of p, pr_id p)) (audit_pending d)"
  have "queue_of t d = sort_key (\<lambda>p. (tenant_of p, pr_id p)) (filter (\<lambda>p. tenant_of p = t) (audit_pending d))"
    unfolding queue_of_def by (rule sort_key_cong) auto
  also have "\<dots> = filter (\<lambda>p. tenant_of p = t) ?s" by (simp add: filter_sort)
  also have "\<dots> = filter (\<lambda>p. tenant_of p = t) (take n ?s) @ filter (\<lambda>p. tenant_of p = t) (drop n ?s)"
    by (simp flip: filter_append)
  finally show "\<exists>rest. queue_of t d = filter (\<lambda>p. tenant_of p = t) (select_audit_pending_batch n {} d) @ rest"
    by (auto simp: select_audit_pending_batch_def tenant_of_def)
qed

section \<open>One tenant's run\<close>

fun chained :: "bytes \<Rightarrow> pending_row list \<Rightarrow> audit_row list" where
  "chained prev [] = []"
| "chained prev (p # ps) =
     \<lparr>ar_id = pr_id p, ar_event = pr_event p, ar_prev_hash = prev, ar_entry_hash = EntryHash (pr_event p) prev\<rparr>
     # chained (EntryHash (pr_event p) prev) ps"

lemma chained_chain: "chain_from prev (map (\<lambda>r. (ar_event r, ar_prev_hash r, ar_entry_hash r)) (chained prev ps))"
  by (induction prev ps rule: chained.induct) auto

lemma chained_records: "map (\<lambda>r. (ar_id r, ar_event r)) (chained prev ps) = map (\<lambda>p. (pr_id p, pr_event p)) ps"
  by (induction prev ps rule: chained.induct) auto

lemma chained_tenant: "r \<in> set (chained prev ps) \<Longrightarrow> \<exists>p \<in> set ps. ar_event r = pr_event p"
  by (induction prev ps rule: chained.induct) auto

lemma insert_run_effect:
  assumes "insert_run jsonb env n prev ps d = Inr (n', d')"
    and "\<forall>p \<in> set ps. store_event jsonb (pr_event p) = Inr (pr_event p)"
  shows "d' = d\<lparr>audit_log := audit_log d @ chained prev ps\<rparr>"
  using assms
proof (induction jsonb env n prev ps d rule: insert_run.induct)
  case (2 jsonb env n prev p ps d)
  then obtain d1 where d1: "exec_stmt env n (insert_audit_event jsonb (pr_id p) (pr_event p) prev (EntryHash (pr_event p) prev)) d = Inr d1"
    and rest: "insert_run jsonb env (n + 1) (EntryHash (pr_event p) prev) ps d1 = Inr (n', d')"
    by (auto simp: Let_def split: sum.splits)
  have "d1 = d\<lparr>audit_log := audit_log d @ chained prev [p]\<rparr>"
    using d1 2(3) by (auto simp: exec_stmt_def insert_audit_event_def split: option.splits sum.splits if_splits)
  then show ?case using 2(1) [OF refl d1 rest] 2(3) by simp
qed simp

text \<open>The effect of a run of tenant \<open>t\<close>.\<close>

definition run_moved :: "string \<Rightarrow> bytes \<Rightarrow> pending_row list \<Rightarrow> db \<Rightarrow> db \<Rightarrow> bool" where
  "run_moved t prev rows d d' \<longleftrightarrow>
     d' = d\<lparr>audit_log := audit_log d @ chained prev rows,
            audit_pending := filter (\<lambda>p. \<not> (tenant_of p = t \<and> pr_id p \<in> set (map pr_id rows))) (audit_pending d)\<rparr>"

lemma chainTenantRun_effect:
  assumes "chainTenantRun jsonb env n t rows d = Inr (n', d')"
    and "\<forall>p \<in> set rows. store_event jsonb (pr_event p) = Inr (pr_event p)"
  shows "\<exists>prev. latestAuditHash env n t d = Inr prev \<and> run_moved t prev rows d d'"
proof -
  obtain prev n1 d1 where h: "latestAuditHash env n t d = Inr prev" "insert_run jsonb env (n + 1) prev rows d = Inr (n1, d1)"
    "d' = delete_audit_pending t (map pr_id rows) d1"
    using assms(1) by (auto simp: chainTenantRun_def split: sum.splits option.splits)
  with insert_run_effect [OF h(2) assms(2)] show ?thesis
    by (simp add: run_moved_def delete_audit_pending_def tenant_of_def)
qed

lemma queue_set: "set (queue_of t d) = {p \<in> set (audit_pending d). tenant_of p = t}"
  by (auto simp: queue_of_def)

lemma queue_distinct: "queue_ok jsonb d \<Longrightarrow> distinct (map pr_id (queue_of t d))"
proof -
  assume "queue_ok jsonb d"
  then have "distinct (filter (\<lambda>p. tenant_of p = t) (audit_pending d))"
    "inj_on pr_id (set (filter (\<lambda>p. tenant_of p = t) (audit_pending d)))"
    by (auto simp: queue_ok_def distinct_map inj_on_def)
  then show ?thesis by (simp add: queue_of_def distinct_map)
qed

lemma run_moved_queue:
  assumes "run_moved t prev rows d d'" "queue_of t d = rows @ rest" "queue_ok jsonb d"
  shows "queue_of t d' = rest" and "u \<noteq> t \<Longrightarrow> queue_of u d' = queue_of u d"
proof -
  have "queue_of t d' = filter (\<lambda>p. pr_id p \<notin> set (map pr_id rows)) (queue_of t d)"
    using assms(1) by (simp add: run_moved_def queue_of_def filter_sort filter_filter conj_commute cong: conj_cong)
  also have "\<dots> = rest"
    using queue_distinct [OF assms(3), of t] unfolding assms(2)
    by (auto simp: filter_empty_conv filter_id_conv disjoint_iff)
  finally show "queue_of t d' = rest" .
  show "queue_of u d' = queue_of u d" if "u \<noteq> t"
  proof -
    have "filter (\<lambda>p. tenant_of p = u) (audit_pending d') = filter (\<lambda>p. tenant_of p = u) (audit_pending d)"
      using assms(1) that by (auto simp: run_moved_def filter_filter intro!: filter_cong)
    then show ?thesis by (simp add: queue_of_def)
  qed
qed

lemma run_moved_log:
  assumes "run_moved t prev rows d d'" "\<forall>p \<in> set rows. tenant_of p = t"
  shows "log_of t d' = log_of t d @ chained prev rows" and "u \<noteq> t \<Longrightarrow> log_of u d' = log_of u d"
  using assms chained_tenant [of _ prev rows]
  by (auto simp: run_moved_def log_of_def tenant_of_def filter_id_conv filter_empty_conv; fastforce)+

lemma run_moved_seq:
  assumes "run_moved t prev rows d d'" "queue_of t d = rows @ rest" "queue_ok jsonb d"
  shows "audit_seq u d' = audit_seq u d" and "queue_ok jsonb d'"
proof -
  have "\<forall>p \<in> set rows. tenant_of p = t" using queue_set [of t d] assms(2) by auto
  then show "audit_seq u d' = audit_seq u d"
    using run_moved_log [OF assms(1)] run_moved_queue [OF assms] assms(2)
    by (cases "u = t") (auto simp: audit_seq_def chained_records)
  show "queue_ok jsonb d'"
    using assms(1,3) by (auto simp: queue_ok_def run_moved_def distinct_map_filter)
qed

text \<open>The rows leave the queue exactly once, and the ledger invariant counts them in the log.\<close>

lemma run_moved_mset:
  assumes "run_moved t prev rows d d'" "queue_of t d = rows @ rest" "queue_ok jsonb d"
  shows "mset (audit_pending d) = mset rows + mset (audit_pending d')"
proof -
  let ?P = "\<lambda>p. tenant_of p = t \<and> pr_id p \<in> set (map pr_id rows)"
  have "sort_key pr_id (filter ?P (audit_pending d)) = filter (\<lambda>p. pr_id p \<in> set (map pr_id rows)) (queue_of t d)"
    by (simp add: queue_of_def filter_sort conj_commute cong: conj_cong)
  also have "\<dots> = rows"
    using queue_distinct [OF assms(3), of t] unfolding assms(2)
    by (auto simp: filter_empty_conv filter_id_conv disjoint_iff)
  finally have "mset (filter ?P (audit_pending d)) = mset rows"
    using mset_sort [of pr_id "filter ?P (audit_pending d)"] by simp
  moreover have "audit_pending d' = filter (\<lambda>p. \<not> ?P p) (audit_pending d)" using assms(1) by (simp add: run_moved_def)
  moreover have "mset (audit_pending d) = mset (filter ?P (audit_pending d)) + mset (filter (\<lambda>p. \<not> ?P p) (audit_pending d))"
    unfolding mset_filter by (rule multiset_partition)
  ultimately show ?thesis by (simp only:)
qed

lemma size_filter_mset: "size (filter_mset P (mset xs)) = length (filter P xs)"
  by (metis mset_filter size_mset)

lemma audit_count_mset:
  "audit_count d i = size (filter_mset (\<lambda>p. ae_AggregateID (pr_event p) = i) (mset (audit_pending d)))
     + length (filter (\<lambda>e. ae_AggregateID e = i) (map ar_event (audit_log d)))"
  by (simp add: audit_count_def filter_map comp_def size_filter_mset)

lemma chained_events: "map ar_event (chained prev ps) = map pr_event ps"
  by (induction prev ps rule: chained.induct) auto

lemma run_moved_db_ok:
  assumes "run_moved t prev rows d d'" "queue_of t d = rows @ rest" "queue_ok jsonb d" "db_ok d"
  shows "db_ok d'"
proof -
  have same: "accounts d' = accounts d" "transactions d' = transactions d" "journal_entries d' = journal_entries d"
    "outbox_events d' = outbox_events d" "audit_log d' = audit_log d @ chained prev rows"
    using assms(1) by (simp_all add: run_moved_def)
  have sub: "set rows \<subseteq> set (audit_pending d)" "set (audit_pending d') \<subseteq> set (audit_pending d)"
    using queue_set [of t d] assms(1,2) by (auto simp: run_moved_def)
  have "legs_ok d'" using assms(4) same by (simp add: db_ok_def legs_ok_def je_references_def tx_ids_def legs_of_def tx_sum_def)
  moreover have "keys_ok d'"
    using assms(4) unfolding assms(1) [unfolded run_moved_def] by (simp add: db_ok_def keys_ok_def distinct_map_filter)
  moreover have "audit_count d' i = audit_count d i" for i
    unfolding audit_count_mset run_moved_mset [OF assms(1-3)] same(5) map_append chained_events
    by (simp add: size_filter_mset filter_map comp_def)
  moreover have "(\<lambda>r. ae_AggregateID (ar_event r)) ` set (audit_log d') \<subseteq> tx_ids d"
  proof -
    have "(\<lambda>r. ae_AggregateID (ar_event r)) ` set (chained prev rows) = (\<lambda>p. ae_AggregateID (pr_event p)) ` set rows"
      using arg_cong [OF chained_events, of "\<lambda>xs. ae_AggregateID ` set xs" prev rows] by (simp add: image_image)
    also have "\<dots> \<subseteq> (\<lambda>p. ae_AggregateID (pr_event p)) ` set (audit_pending d)" using sub(1) by (rule image_mono)
    also have "\<dots> \<subseteq> tx_ids d" using assms(4) by (simp add: db_ok_def events_ok_def)
    finally show ?thesis using assms(4) by (simp add: same(5) db_ok_def events_ok_def image_Un)
  qed
  moreover have "(\<lambda>p. ae_AggregateID (pr_event p)) ` set (audit_pending d') \<subseteq> tx_ids d"
    using image_mono [OF sub(2)] assms(4) unfolding db_ok_def events_ok_def by (meson order_trans)
  ultimately show ?thesis
    using assms(4) same(1-4) by (simp add: db_ok_def events_ok_def outbox_count_def tx_ids_def)
qed

section \<open>The chain\<close>

lemma latest_is_last:
  "in_order t d \<Longrightarrow> select_latest_audit_hash t d = (if log_of t d = [] then None else Some (ar_entry_hash (last (log_of t d))))"
proof -
  assume "in_order t d"
  then have "sorted (map (\<lambda>r. (env_OccurredAt (ar_event r), ar_id r)) (log_of t d))"
    by (simp add: in_order_def audit_seq_def sorted_append comp_def)
  then have "sort_key (\<lambda>r. (env_OccurredAt (ar_event r), ar_id r)) (log_of t d) = log_of t d"
    by (rule sort_key_id_if_sorted)
  then show ?thesis
    by (cases "log_of t d" rule: rev_cases) (simp_all add: select_latest_audit_hash_def flip: log_of_def)
qed

text \<open>The driver reports \<open>pgx.ErrNoRows\<close> only for an empty result.\<close>

definition honest_rows :: "db attempt_env \<Rightarrow> bool" where
  "honest_rows env \<longleftrightarrow> (\<forall>n err. at_stmt env n = Some err \<longrightarrow> \<not> errors_Is err PgxErrNoRows)"

lemma run_moved_chain:
  assumes "run_moved t prev rows d d'" "queue_of t d = rows @ rest" "queue_ok jsonb d"
    and "latestAuditHash env n t d = Inr prev" "honest_rows env" "in_order t d" "chain_ok u d"
  shows "chain_ok u d'"
proof (cases "u = t")
  case True
  have rows: "\<forall>p \<in> set rows. tenant_of p = t" using queue_set [of t d] assms(2) by auto
  have "prev = head_of GenesisHash (map (\<lambda>r. (ar_event r, ar_prev_hash r, ar_entry_hash r)) (log_of t d))"
    using assms(4,5) latest_is_last [OF assms(6)]
    by (auto simp: latestAuditHash_def honest_rows_def head_of_def last_map split: option.splits if_splits)
  then show ?thesis
    using assms(7) True run_moved_log(1) [OF assms(1) rows] chained_chain [of prev rows]
    by (simp add: chain_ok_def chain_from_append)
next
  case False
  have "\<forall>p \<in> set rows. tenant_of p = t" using queue_set [of t d] assms(2) by auto
  then show ?thesis using assms(7) run_moved_log(2) [OF assms(1) _ False] by (simp add: chain_ok_def)
qed

section \<open>The whole batch\<close>

text \<open>One run: the head of a tenant's queue moves to the end of the log.\<close>

definition tenant_run :: "db \<Rightarrow> db \<Rightarrow> bool" where
  "tenant_run d d' \<longleftrightarrow> (\<exists>t prev rows rest. run_moved t prev rows d d' \<and> queue_of t d = rows @ rest)"

lemma tenant_run_ok: "tenant_run d d' \<Longrightarrow> queue_ok jsonb d \<Longrightarrow> queue_ok jsonb d' \<and> (db_ok d \<longrightarrow> db_ok d')"
  unfolding tenant_run_def by (blast intro: run_moved_seq(2) run_moved_db_ok)

text \<open>What a forward from \<open>d\<close> to \<open>d'\<close> of \<open>k\<close> rows guarantees.\<close>

definition forwarded :: "jsonb_in \<Rightarrow> db attempt_env \<Rightarrow> nat \<Rightarrow> db \<Rightarrow> db \<Rightarrow> bool" where
  "forwarded jsonb env k d d' \<longleftrightarrow> tenant_run\<^sup>*\<^sup>* d d' \<and> (\<forall>t. audit_seq t d' = audit_seq t d) \<and> queue_ok jsonb d'
     \<and> length (audit_pending d') + k = length (audit_pending d)
     \<and> (db_ok d \<longrightarrow> db_ok d')
     \<and> (honest_rows env \<longrightarrow> (\<forall>t. in_order t d \<and> chain_ok t d) \<longrightarrow> (\<forall>t. chain_ok t d'))"

lemma forwarded_refl: "queue_ok jsonb d \<Longrightarrow> forwarded jsonb env 0 d d"
  by (simp add: forwarded_def)

lemma forwarded_trans:
  "forwarded jsonb env j d d1 \<Longrightarrow> forwarded jsonb env k d1 d2 \<Longrightarrow> forwarded jsonb env (j + k) d d2"
  by (auto simp: forwarded_def in_order_def intro: rtranclp_trans)

lemma run_forwarded:
  assumes "chainTenantRun jsonb env n t rows d = Inr (n', d')" "queue_of t d = rows @ rest" "queue_ok jsonb d"
  shows "forwarded jsonb env (length rows) d d' \<and> (\<exists>prev. run_moved t prev rows d d')"
proof -
  have "\<forall>p \<in> set rows. store_event jsonb (pr_event p) = Inr (pr_event p)"
    using queue_set [of t d] assms(2,3) by (auto simp: queue_ok_def)
  then obtain prev where prev: "latestAuditHash env n t d = Inr prev" and m: "run_moved t prev rows d d'"
    using chainTenantRun_effect [OF assms(1)] by blast
  note m' = m assms(2,3)
  have "length (audit_pending d') + length rows = length (audit_pending d)"
    using arg_cong [OF run_moved_mset [OF m'], of size] by simp
  moreover have "tenant_run\<^sup>*\<^sup>* d d'" using m assms(2) unfolding tenant_run_def by blast
  ultimately show ?thesis using m
    using run_moved_seq [OF m'] run_moved_db_ok [OF m'] run_moved_chain [OF m' prev]
    unfolding forwarded_def by blast
qed

lemma chainAndForward_forwarded:
  assumes "chainAndForward jsonb env n ps d = Inr d'" "heads_batch ps d" "queue_ok jsonb d"
  shows "forwarded jsonb env (length ps) d d'"
  using assms
proof (induction jsonb env n ps d rule: chainAndForward.induct)
  case (2 jsonb env n p ps d)
  let ?t = "tenant_of p" and ?same = "\<lambda>q. env_TenantID (pr_event q) = env_TenantID (pr_event p)"
  let ?run = "p # takeWhile ?same ps" and ?rest = "dropWhile ?same ps"
  obtain n1 d1 where run: "chainTenantRun jsonb env n ?t ?run d = Inr (n1, d1)"
    and more: "chainAndForward jsonb env n1 ?rest d1 = Inr d'"
    using 2(2) by (auto simp: Let_def tenant_of_def split: sum.splits)
  have split: "p # ps = ?run @ ?rest" by simp
  have runt: "filter (\<lambda>q. tenant_of q = ?t) ?run = ?run"
    by (auto simp: filter_id_conv tenant_of_def dest: set_takeWhileD)
  obtain q where q: "queue_of ?t d = ?run @ filter (\<lambda>q. tenant_of q = ?t) ?rest @ q"
    using 2(3) unfolding heads_batch_def split filter_append by (metis append.assoc runt)
  obtain prev where f: "forwarded jsonb env (length ?run) d d1" and m: "run_moved ?t prev ?run d d1"
    using run_forwarded [OF run q 2(4)] by blast
  have "heads_batch ?rest d1"
    unfolding heads_batch_def
  proof
    fix u
    show "\<exists>r. queue_of u d1 = filter (\<lambda>p. tenant_of p = u) ?rest @ r"
    proof (cases "u = ?t")
      case True
      then show ?thesis using run_moved_queue(1) [OF m q 2(4)] by blast
    next
      case False
      have "filter (\<lambda>p. tenant_of p = u) ?run = []" using runt False by (auto simp: filter_empty_conv tenant_of_def dest: set_takeWhileD)
      then show ?thesis
        using run_moved_queue(2) [OF m q 2(4) False] 2(3) unfolding heads_batch_def split filter_append
        by (metis append_Nil append.assoc)
    qed
  qed
  moreover have "queue_ok jsonb d1" using f by (simp add: forwarded_def)
  ultimately have "forwarded jsonb env (length ?rest) d1 d'"
    using 2(1) [OF refl refl run [unfolded tenant_of_def] refl more] by blast
  from forwarded_trans [OF f this] show ?case unfolding length_append [symmetric] split [symmetric] .
qed (simp add: forwarded_refl)

section \<open>One drain\<close>

lemma drain_fn_forwarded:
  assumes "drain_fn jsonb env {} n d 0 = (Inr d', k)" "queue_ok jsonb d"
  shows "forwarded jsonb env k d d' \<and> k = min (nat n) (length (audit_pending d))"
proof -
  let ?b = "select_audit_pending_batch (nat n) {} d"
  have len: "length ?b = min (nat n) (length (audit_pending d))" by (simp add: select_audit_pending_batch_def)
  have "claimPendingBatch env {} n d = Inr ?b"
    using assms(1) by (auto simp: drain_fn_def claimPendingBatch_def Let_def split: option.splits if_splits sum.splits)
  with assms(1) consider "?b = []" "d' = d" "k = 0"
    | "chainAndForward jsonb env 3 ?b d = Inr d'" "k = length ?b"
    by (auto simp: drain_fn_def split: if_splits sum.splits)
  then show ?thesis
  proof cases
    case 1
    then show ?thesis using len forwarded_refl [OF assms(2)] by simp
  next
    case 2
    then show ?thesis using len chainAndForward_forwarded [OF 2(1) batch_heads assms(2)] by simp
  qed
qed

lemma audit_inTx_cases:
  assumes "audit_inTx pc env fn v w = (w', v', err)"
  shows "pl_acquired (au_pool w') = pl_acquired (au_pool w)
    \<and> (au_db w' = au_db w \<or> (\<exists>d'. fn (au_db w) v = (Inr d', v') \<and> au_db w' = d'))
    \<and> (err = None \<longrightarrow> (\<exists>d'. fn (au_db w) v = (Inr d', v') \<and> au_db w' = d'))"
  using assms
  by (auto simp: audit_inTx_def pool_defs conn_Release_def ObserveAcquire_def Let_def
      split: option.splits prod.splits sum.splits if_splits commit_outcome.splits)

lemma audit_Drain_plain:
  assumes "au_db w = d" "drain_fn jsonb plain_env locked n d 0 = (Inr d', k)" "0 < n"
  shows "\<exists>p. audit_Drain jsonb pc plain_env locked n w = (\<lparr>au_pool = p, au_db = d'\<rparr>, k, None)"
proof -
  have "BeginTxWithAcquire pc (plain_env :: db attempt_env) (au_pool w)
      = (ObserveAcquire ((au_pool w)\<lparr>pl_acquired := pl_acquired (au_pool w) + 1\<rparr>) 0 ''ok'', Inr \<lparr>rt_closed = False, rt_released = False\<rparr>)"
    by (simp add: BeginTxWithAcquire_def AcquireConn_def plain_env_def)
  moreover have "\<exists>q t. rt_Commit (plain_env :: db attempt_env) p \<lparr>rt_closed = False, rt_released = False\<rparr> = (q, t, None)" for p
    by (simp add: rt_Commit_def rt_release_def plain_env_def)
  moreover have "at_before plain_env d = d" by (simp add: plain_env_def)
  ultimately show ?thesis
    using assms by (cases w) (auto simp: audit_Drain_def audit_inTx_def split: prod.splits option.splits; metis prod.inject option.distinct(1))
qed

section \<open>Properties\<close>

text \<open>C12: the drain of the single writer loses, repeats and reorders no audit record, whatever fails.
  For every tenant the sequence of logged records followed by the queued records in id order is
  the same before and after; the ledger invariant (one audit record per transaction) is kept and
  the connection is returned; without an error the count is the size of the batch and exactly
  that many rows left the queue.\<close>

theorem audit_drain_exact:
  assumes "audit_Drain jsonb pc env {} n w = (w', k, err)" "queue_ok jsonb (at_before env (au_db w))" "0 < n"
  shows "(\<forall>t. audit_seq t (au_db w') = audit_seq t (at_before env (au_db w)))
    \<and> queue_ok jsonb (au_db w') \<and> pl_acquired (au_pool w') = pl_acquired (au_pool w)
    \<and> (db_ok (at_before env (au_db w)) \<longrightarrow> db_ok (au_db w'))
    \<and> (err = None \<longrightarrow> k = min (nat n) (length (audit_pending (at_before env (au_db w))))
         \<and> length (audit_pending (au_db w')) + k = length (audit_pending (at_before env (au_db w))))"
proof -
  let ?d = "at_before env (au_db w)"
  have "audit_inTx pc env (drain_fn jsonb env {} n) 0 (w\<lparr>au_db := ?d\<rparr>) = (w', k, err)"
    using assms(1,3) by (simp add: audit_Drain_def)
  note c = audit_inTx_cases [OF this, simplified]
  have f: "forwarded jsonb env k ?d d' \<and> k = min (nat n) (length (audit_pending ?d))"
    if "drain_fn jsonb env {} n ?d 0 = (Inr d', k)" for d'
    by (rule drain_fn_forwarded [OF that assms(2)])
  show ?thesis using c
  proof (elim conjE disjE)
    assume "au_db w' = ?d"
    with c f assms(2) show ?thesis by (auto simp: forwarded_def)
  next
    assume "drain_fn jsonb env {} n ?d 0 = (Inr (au_db w'), k)"
    with c f show ?thesis by (auto simp: forwarded_def)
  qed
qed

text \<open>Records queued in the order of the head lookup, and turns of the single writer that keep it so.\<close>

definition orderly :: "jsonb_in \<Rightarrow> db \<Rightarrow> bool" where
  "orderly jsonb d \<longleftrightarrow> queue_ok jsonb d \<and> (\<forall>t. in_order t d \<and> chain_ok t d)"

lemma audit_drain_orderly:
  assumes "audit_Drain jsonb pc env {} n w = (w', k, err)" "orderly jsonb (at_before env (au_db w))" "honest_rows env"
    and "at_before env (au_db w) = au_db w \<or> 0 < n"
  shows "orderly jsonb (au_db w')"
proof (cases "0 < n")
  case True
  let ?d = "at_before env (au_db w)"
  have "audit_inTx pc env (drain_fn jsonb env {} n) 0 (w\<lparr>au_db := ?d\<rparr>) = (w', k, err)"
    using assms(1) True by (simp add: audit_Drain_def)
  from audit_inTx_cases [OF this] consider "au_db w' = ?d" | "drain_fn jsonb env {} n ?d 0 = (Inr (au_db w'), k)" by auto
  then show ?thesis
  proof cases
    case 2
    have "queue_ok jsonb ?d" using assms(2) by (simp add: orderly_def)
    from drain_fn_forwarded [OF 2 this] assms(2,3) show ?thesis
      by (auto simp: orderly_def forwarded_def in_order_def)
  qed (use assms(2) in simp)
next
  case False
  then show ?thesis using assms by (auto simp: audit_Drain_def)
qed

definition orderly_turn :: "jsonb_in \<Rightarrow> audit_turn \<Rightarrow> bool" where
  "orderly_turn jsonb t \<longleftrightarrow> at_locked t = {} \<and> honest_rows (at_env t)
     \<and> (\<forall>d. orderly jsonb d \<longrightarrow> orderly jsonb (at_before (at_env t) d))"

lemma publishLag_frame:
  "publishLag pc t wk w = (wk', w') \<Longrightarrow> au_db w' = au_db w \<and> aw_cfg wk' = aw_cfg wk"
  by (auto simp: publishLag_def OldestPendingAge_def split: option.splits prod.splits sum.splits)

lemma runLoop_orderly:
  assumes "runLoop jsonb pc ts wk w = ((wk', w'), waits, stopped)" "orderly jsonb (au_db w)"
    and "list_all (orderly_turn jsonb) ts" "0 < aw_BatchSize (aw_cfg wk)"
  shows "orderly jsonb (au_db w')"
  using assms
proof (induction ts arbitrary: wk w waits)
  case (Cons t ts)
  obtain w1 k err where d: "audit_Drain jsonb pc (at_env t) (at_locked t) (aw_BatchSize (aw_cfg wk)) w = (w1, k, err)"
    by (metis prod_cases3)
  have t: "at_locked t = {}" "honest_rows (at_env t)" "orderly jsonb (at_before (at_env t) (au_db w))"
    using Cons.prems(2,3) by (simp_all add: orderly_turn_def)
  have o: "orderly jsonb (au_db w1)"
    using audit_drain_orderly [OF d [unfolded t(1)] t(3,2)] Cons.prems(4) by blast
  obtain wk2 w2 where p: "publishLag pc t wk w1 = (wk2, w2)" by (metis surj_pair)
  then have "au_db w2 = au_db w1" "aw_cfg wk2 = aw_cfg wk" using publishLag_frame by blast+
  with Cons d o p show ?case
    by (cases err) (auto simp: Let_def split: if_splits prod.splits)
qed simp

text \<open>C11: the audit log of every tenant stays one hash chain from the genesis hash through any
  sequence of drains of the worker, whatever fails, as long as records are queued in the order
  of \<open>(occurred_at, id)\<close> by which the head of the chain is looked up.\<close>

theorem audit_log_chained:
  assumes "runLoop jsonb pc ts wk w = ((wk', w'), waits, stopped)" "orderly jsonb (au_db w)"
    and "list_all (orderly_turn jsonb) ts" "0 < aw_BatchSize (aw_cfg wk)"
  shows "chain_from GenesisHash (map (\<lambda>r. (ar_event r, ar_prev_hash r, ar_entry_hash r)) (log_of t (au_db w')))"
  using runLoop_orderly [OF assms] by (simp add: orderly_def chain_ok_def)

definition sample_queued :: "UUID \<Rightarrow> instant \<Rightarrow> pending_row" where
  "sample_queued i ts = \<lparr>pr_id = i, pr_enqueued_at = 0, pr_event = (sample_event (Some ''{}''))\<lparr>env_OccurredAt := ts\<rparr>\<rparr>"

definition sample_audit :: "pending_row list \<Rightarrow> audit_world" where
  "sample_audit ps = \<lparr>au_pool = \<lparr>pl_acquired = 0, pl_obs = []\<rparr>, au_db = empty_db\<lparr>audit_pending := ps\<rparr>\<rparr>"

definition sample_audit_turn :: audit_turn where
  "sample_audit_turn = \<lparr>at_ctx_err = False, at_env = plain_env, at_locked = {}, at_probe = plain_env, at_probe_now = 0,
     at_cancel = None\<rparr>"

lemmas sample_audit_defs = sample_queued_def sample_audit_def sample_event_def empty_db_def
  AuditAggregateTransaction_def AuditOpTransferExecuted_def

lemma sample_store: "pg_timestamp ts = ts \<Longrightarrow> store_event Some (pr_event (sample_queued i ts)) = Inr (pr_event (sample_queued i ts))"
  by (simp add: sample_audit_defs store_event_def jsonb_column_def audit_widths_def varchar_def)

lemma sample_tenant: "env_TenantID (pr_event (sample_queued i ts)) = ''t''" "env_OccurredAt (pr_event (sample_queued i ts)) = ts"
  "pr_id (sample_queued i ts) = i" "tenant_of (sample_queued i ts) = ''t''"
  by (simp_all add: sample_audit_defs tenant_of_def)

lemma sample_queue_ok:
  "queue_ok Some (au_db (sample_audit [sample_queued 1 1000, sample_queued 2 2000, sample_queued 3 2000]))"
  using sample_store [of 1000] sample_store [of 2000]
  by (simp add: queue_ok_def sample_audit_def empty_db_def sample_tenant pg_timestamp_def)

theorem audit_drain_exact_witness:
  "\<exists>w' k err. audit_Drain Some plain_pool plain_env {} 2 (sample_audit [sample_queued 1 1000, sample_queued 2 2000, sample_queued 3 2000])
       = (w', k, err)
     \<and> (\<forall>t. audit_seq t (au_db w') = audit_seq t (au_db (sample_audit [sample_queued 1 1000, sample_queued 2 2000, sample_queued 3 2000])))
     \<and> (err = None \<longrightarrow> k = 2)"
proof -
  let ?w = "sample_audit [sample_queued 1 1000, sample_queued 2 2000, sample_queued 3 2000]"
  obtain w' k err where r: "audit_Drain Some plain_pool plain_env {} 2 ?w = (w', k, err)" by (metis prod_cases3)
  have "at_before plain_env d = d" for d :: db by (simp add: plain_env_def)
  then show ?thesis
    using audit_drain_exact [OF r] sample_queue_ok r by (simp add: sample_audit_def empty_db_def)
qed

lemma sample_orderly:
  "orderly Some (au_db (sample_audit [sample_queued 1 1000, sample_queued 2 2000, sample_queued 3 2000]))"
proof -
  let ?d = "au_db (sample_audit [sample_queued 1 1000, sample_queued 2 2000, sample_queued 3 2000])"
  have "log_of t ?d = []" for t by (simp add: log_of_def sample_audit_def empty_db_def)
  moreover have "queue_of t ?d = (if t = ''t'' then [sample_queued 1 1000, sample_queued 2 2000, sample_queued 3 2000] else [])" for t
    by (auto simp: queue_of_def sample_audit_def empty_db_def sample_tenant)
  ultimately show ?thesis
    using sample_queue_ok by (auto simp: orderly_def in_order_def audit_seq_def chain_ok_def sample_tenant)
qed

theorem audit_log_chained_witness:
  "\<exists>wk' w' waits stopped. runLoop Some plain_pool [sample_audit_turn, sample_audit_turn]
       (NewAuditWorker (defaultAuditWorkerConfig\<lparr>aw_BatchSize := 2\<rparr>))
       (sample_audit [sample_queued 1 1000, sample_queued 2 2000, sample_queued 3 2000]) = ((wk', w'), waits, stopped)
     \<and> (\<forall>t. chain_from GenesisHash (map (\<lambda>r. (ar_event r, ar_prev_hash r, ar_entry_hash r)) (log_of t (au_db w'))))"
proof -
  let ?wk = "NewAuditWorker (defaultAuditWorkerConfig\<lparr>aw_BatchSize := 2\<rparr>)"
  obtain wk' w' waits stopped where r: "runLoop Some plain_pool [sample_audit_turn, sample_audit_turn] ?wk
      (sample_audit [sample_queued 1 1000, sample_queued 2 2000, sample_queued 3 2000]) = ((wk', w'), waits, stopped)"
    by (metis prod_cases3 surj_pair)
  have "orderly_turn Some sample_audit_turn"
    by (simp add: orderly_turn_def sample_audit_turn_def plain_env_def honest_rows_def)
  moreover have "0 < aw_BatchSize (aw_cfg ?wk)"
    by (simp add: NewAuditWorker_def defaultAuditWorkerConfig_def Let_def)
  ultimately show ?thesis using audit_log_chained [OF r sample_orderly] r by simp
qed


end
