(* ===== verification/Table_Types.thy ===== *)
theory Table_Types
  imports Outbox_Props Audit_Props
begin

text \<open>
  The column types of the migrations as a typing of rows: widths of \<open>VARCHAR\<close> columns, the CHECK
  constraints on the status columns, the range of \<open>NUMERIC(19,4)\<close>, instants in microseconds. Every
  statement the repository executes adds typed rows only, so a well-typed database stays one.
\<close>

section \<open>Typed rows\<close>

definition account_typed :: "Account \<Rightarrow> bool" where
  "account_typed a \<longleftrightarrow> varchar 128 (acc_TenantID a) \<and> varchar 3 (acc_Currency a) \<and> AccountStatus_Valid (acc_Status a)
     \<and> pg_timestamp (acc_CreatedAt a) = acc_CreatedAt a"

definition tx_typed :: "tx_row \<Rightarrow> bool" where
  "tx_typed r \<longleftrightarrow> varchar 128 (txr_tenant_id r) \<and> varchar 255 (txr_idempotency_key r) \<and> varchar 64 (txr_request_fingerprint r)
     \<and> TransactionStatus_Valid (txr_status r) \<and> pg_timestamp (txr_created_at r) = txr_created_at r"

definition leg_typed :: "je_row \<Rightarrow> bool" where
  "leg_typed r \<longleftrightarrow> varchar 128 (jer_tenant_id r) \<and> varchar 3 (jer_currency r) \<and> \<bar>jer_amount r\<bar> < 10 ^ 19
     \<and> pg_timestamp (jer_created_at r) = jer_created_at r"

definition event_typed :: "OutboxEvent \<Rightarrow> bool" where
  "event_typed e \<longleftrightarrow> varchar 50 (ob_AggregateType e) \<and> varchar 80 (ob_EventSchema e) \<and> OutboxStatus_Valid (ob_Status e)
     \<and> pg_timestamp (ob_CreatedAt e) = ob_CreatedAt e"

definition audit_typed :: "AuditEvent \<Rightarrow> bool" where
  "audit_typed e \<longleftrightarrow> audit_widths e \<and> pg_timestamp (env_OccurredAt e) = env_OccurredAt e"

definition pending_typed :: "pending_row \<Rightarrow> bool" where
  "pending_typed p \<longleftrightarrow> audit_typed (pr_event p) \<and> pg_timestamp (pr_enqueued_at p) = pr_enqueued_at p"

definition log_typed :: "audit_row \<Rightarrow> bool" where
  "log_typed r \<longleftrightarrow> audit_typed (ar_event r) \<and> length (ar_entry_hash r) = 32"

lemmas row_types = account_typed_def tx_typed_def leg_typed_def event_typed_def audit_typed_def pending_typed_def log_typed_def

definition well_typed :: "db \<Rightarrow> bool" where
  "well_typed d \<longleftrightarrow> list_all account_typed (accounts d) \<and> list_all tx_typed (transactions d)
     \<and> list_all leg_typed (journal_entries d) \<and> list_all event_typed (outbox_events d)
     \<and> list_all pending_typed (audit_pending d) \<and> list_all log_typed (audit_log d)"

lemma well_typed_empty: "well_typed empty_db"
  by (simp add: well_typed_def empty_db_def)

section \<open>Statements that add typed rows\<close>

text \<open>\<open>grows P xs ys\<close>: every row of \<open>ys\<close> is one of \<open>xs\<close> or of type \<open>P\<close>.\<close>

definition grows :: "('a \<Rightarrow> bool) \<Rightarrow> 'a list \<Rightarrow> 'a list \<Rightarrow> bool" where
  "grows P xs ys \<longleftrightarrow> (\<forall>y \<in> set ys. y \<in> set xs \<or> P y)"

lemma grows_refl [simp, intro]: "grows P xs xs"
  by (simp add: grows_def)

lemma grows_trans: "grows P xs ys \<Longrightarrow> grows P ys zs \<Longrightarrow> grows P xs zs"
  unfolding grows_def by blast

lemma grows_snoc [inv_intros]: "P y \<Longrightarrow> grows P xs (xs @ [y])"
  by (auto simp: grows_def)

lemma grows_all: "grows P xs ys \<Longrightarrow> list_all P xs \<Longrightarrow> list_all P ys"
  by (auto simp: grows_def list_all_iff)

definition adds_typed :: "db \<Rightarrow> db \<Rightarrow> bool" where
  "adds_typed d d' \<longleftrightarrow> grows account_typed (accounts d) (accounts d') \<and> grows tx_typed (transactions d) (transactions d')
     \<and> grows leg_typed (journal_entries d) (journal_entries d') \<and> grows event_typed (outbox_events d) (outbox_events d')
     \<and> grows pending_typed (audit_pending d) (audit_pending d') \<and> grows log_typed (audit_log d) (audit_log d')"

lemma adds_typed_refl [simp, intro]: "adds_typed d d"
  by (simp add: adds_typed_def)

lemma adds_typed_trans: "adds_typed d d1 \<Longrightarrow> adds_typed d1 d2 \<Longrightarrow> adds_typed d d2"
  unfolding adds_typed_def by (blast intro: grows_trans)

lemma adds_typed_keeps [inv_intros]: "adds_typed d d' \<Longrightarrow> well_typed d \<Longrightarrow> well_typed d'"
  unfolding adds_typed_def well_typed_def by (blast intro: grows_all)

text \<open>A statement is typed when what it adds is.\<close>

definition typed_stmt :: "stmt \<Rightarrow> bool" where
  "typed_stmt f \<longleftrightarrow> (\<forall>d d'. f d = Inr d' \<longrightarrow> adds_typed d d')"

lemma typed_stmtI: "(\<And>d d'. f d = Inr d' \<Longrightarrow> adds_typed d d') \<Longrightarrow> typed_stmt f"
  by (simp add: typed_stmt_def)

lemma typed_insert_account: "typed_stmt (insert_account a)"
  by (rule typed_stmtI)
     (auto simp: insert_account_def adds_typed_def account_typed_def split: if_splits intro!: grows_snoc)

lemma typed_insert_transaction: "typed_stmt (insert_transaction r)"
  by (rule typed_stmtI)
     (auto simp: insert_transaction_def adds_typed_def tx_typed_def split: if_splits intro!: grows_snoc)

lemma typed_insert_leg: "typed_stmt (insert_leg A leg)"
proof (rule typed_stmtI)
  fix d d' assume i: "insert_leg A leg d = Inr d'"
  then obtain n where n: "numeric_in (Amount_Value A (je_Amount leg)) = Inr n"
    by (auto simp: insert_leg_def split: sum.splits)
  then have "\<bar>n\<bar> < 10 ^ 19" by (auto simp: numeric_in_def split: sum.splits if_splits)
  with i n show "adds_typed d d'"
    by (auto simp: insert_leg_def insert_journal_entry_def Let_def adds_typed_def leg_typed_def split: if_splits intro!: grows_snoc)
qed

lemma typed_insert_outbox: "typed_stmt (insert_outbox_event e)"
  by (rule typed_stmtI)
     (auto simp: insert_outbox_event_def adds_typed_def event_typed_def split: if_splits intro!: grows_snoc)

lemma store_event_typed: "store_event jsonb e = Inr e' \<Longrightarrow> audit_typed e'"
  by (auto simp: store_event_def audit_typed_def audit_widths_def split: sum.splits if_splits)

lemma typed_insert_pending: "typed_stmt (insert_audit_pending jsonb uid now e)"
  by (rule typed_stmtI)
     (auto simp: insert_audit_pending_def adds_typed_def pending_typed_def
        split: sum.splits if_splits intro!: grows_snoc, erule store_event_typed)

lemma typed_run_batch: "list_all typed_stmt fs \<Longrightarrow> run_batch env i fs d = Inr d' \<Longrightarrow> adds_typed d d'"
proof (induction fs arbitrary: i d)
  case (Cons f fs)
  obtain d1 where d1: "f d = Inr d1" "run_batch env (i + 1) fs d1 = Inr d'"
    using Cons.prems(2) unfolding run_batch_Cons_Inr by blast
  have "adds_typed d d1" using Cons.prems(1) d1(1) by (simp add: typed_stmt_def)
  moreover have "adds_typed d1 d'" using Cons.IH [OF _ d1(2)] Cons.prems(1) by simp
  ultimately show ?case by (rule adds_typed_trans)
qed simp

lemma transfer_tx_typed: "transfer_tx L t obid req ev env v d = (d', v', None) \<Longrightarrow> adds_typed d d'"
  by (rule typed_run_batch [where fs = "transfer_batch L env t obid req ev" and i = 0 and env = env])
     (auto simp: transfer_batch_def transfer_tx_def list_all_iff typed_insert_transaction typed_insert_leg typed_insert_outbox
        typed_insert_pending split: sum.splits)

section \<open>The other changes\<close>

lemma status_moves_typed [inv_intros]:
  assumes "status_moves d d'" "well_typed d"
  shows "well_typed d'"
proof -
  have "list_all2 (\<lambda>e e'. event_typed e \<longrightarrow> event_typed e') (outbox_events d) (outbox_events d')"
    using assms(1) unfolding status_moves_def
    by (auto elim!: list_all2_mono simp: event_typed_def OutboxStatus_Valid_def)
  moreover have "list_all event_typed (outbox_events d)" using assms(2) by (simp add: well_typed_def)
  ultimately have "list_all event_typed (outbox_events d')" by (induction rule: list_all2_induct) auto
  moreover have "d' = d\<lparr>outbox_events := outbox_events d'\<rparr>" using assms(1) by (simp add: status_moves_def)
  then have "accounts d' = accounts d" "transactions d' = transactions d" "journal_entries d' = journal_entries d"
    "audit_pending d' = audit_pending d" "audit_log d' = audit_log d"
    by (metis db.select_convs db.surjective db.update_convs(4))+
  ultimately show ?thesis using assms(2) by (simp add: well_typed_def)
qed

lemma chained_typed:
  "list_all pending_typed ps \<Longrightarrow> list_all log_typed (chained prev ps)"
  by (induction prev ps rule: chained.induct) (auto simp: log_typed_def pending_typed_def)

lemma tenant_run_typed [inv_intros]:
  assumes "tenant_run d d'" "well_typed d"
  shows "well_typed d'"
proof -
  obtain t prev rows rest where m: "run_moved t prev rows d d'" and q: "queue_of t d = rows @ rest"
    using assms(1) by (auto simp: tenant_run_def)
  have "set rows \<subseteq> set (audit_pending d)" using queue_set [of t d] q by auto
  then have "list_all pending_typed rows" using assms(2) by (auto simp: well_typed_def list_all_iff)
  with m assms(2) chained_typed [of rows prev] show ?thesis
    by (auto simp: well_typed_def run_moved_def list_all_iff)
qed

end
