(* ===== verification/Ledger_Machine.thy ===== *)
theory Ledger_Machine
  imports Table_Types
begin

text \<open>
  The ledger as one abstract machine: what the processes of the program share is the database and
  the topic, and the machine says which atomic changes they may make there. Every component is a
  session of this machine: whatever the driver, the brokers and the other sessions do, what it
  leaves behind is a sequence of the machine's steps. So the machine's invariant holds in every
  state of the running program, whichever way its processes interleave.
\<close>

section \<open>The machine\<close>

text \<open>An account is opened; a transfer is posted in typed rows, with its event and its audit record; messages
  reach the topic; PENDING events whose messages are in the topic become PUBLISHED; the head of a
  tenant's audit queue moves to the tenant's log.\<close>

inductive ledger_step :: "jsonb_in \<Rightarrow> (UUID \<Rightarrow> string) \<Rightarrow> db \<times> KafkaMessage list \<Rightarrow> db \<times> KafkaMessage list \<Rightarrow> bool"
  for jsonb :: jsonb_in and ustr :: "UUID \<Rightarrow> string" where
  open_account: "insert_account a d = Inr d' \<Longrightarrow> ledger_step jsonb ustr (d, k) (d', k)"
| post: "posted t l1 l2 x ob p d d' \<Longrightarrow> two_legs t l1 l2 \<Longrightarrow> store_event jsonb e = Inr (pr_event p)
    \<Longrightarrow> adds_typed d d' \<Longrightarrow> ledger_step jsonb ustr (d, k) (d', k)"
| deliver: "(\<And>e. in_topic ustr k e \<Longrightarrow> in_topic ustr k' e) \<Longrightarrow> ledger_step jsonb ustr (d, k) (d, k')"
| publish: "status_moves d d' \<Longrightarrow> relay_inv (in_topic ustr) k d' \<Longrightarrow> ledger_step jsonb ustr (d, k) (d', k)"
| forward: "tenant_run d d' \<Longrightarrow> ledger_step jsonb ustr (d, k) (d', k)"

abbreviation ledger_steps :: "jsonb_in \<Rightarrow> (UUID \<Rightarrow> string) \<Rightarrow> db \<times> KafkaMessage list \<Rightarrow> db \<times> KafkaMessage list \<Rightarrow> bool" where
  "ledger_steps jsonb ustr \<equiv> (ledger_step jsonb ustr)\<^sup>*\<^sup>*"

text \<open>PostgreSQL's JSONB text is a fixed point of its parser.\<close>

definition jsonb_stable :: "jsonb_in \<Rightarrow> bool" where
  "jsonb_stable jsonb \<longleftrightarrow> (\<forall>b c. jsonb b = Some c \<longrightarrow> jsonb c = Some c)"

definition shared_ok :: "jsonb_in \<Rightarrow> (UUID \<Rightarrow> string) \<Rightarrow> db \<times> KafkaMessage list \<Rightarrow> bool" where
  "shared_ok jsonb ustr s \<longleftrightarrow> db_ok (fst s) \<and> relay_inv (in_topic ustr) (snd s) (fst s) \<and> queue_ok jsonb (fst s)
     \<and> well_typed (fst s)"

section \<open>Its invariant\<close>

lemma store_event_stable:
  assumes "jsonb_stable jsonb" "store_event jsonb e = Inr e'"
  shows "store_event jsonb e' = Inr e'"
proof -
  have c: "jsonb_column jsonb v = Inr v' \<Longrightarrow> jsonb_column jsonb v' = Inr v'" for v v'
    using assms(1) by (auto simp: jsonb_column_def jsonb_stable_def split: option.splits)
  have t: "pg_timestamp (pg_timestamp x) = pg_timestamp x" for x by (simp add: pg_timestamp_def)
  obtain b a where ba: "jsonb_column jsonb (ae_BeforeState e) = Inr b" "jsonb_column jsonb (ae_AfterState e) = Inr a"
    and w: "audit_widths e"
    and e': "e' = e\<lparr>env_OccurredAt := pg_timestamp (env_OccurredAt e), ae_BeforeState := b, ae_AfterState := a\<rparr>"
    using assms(2) by (auto simp: store_event_def split: sum.splits if_splits)
  from w have "audit_widths e'" by (simp add: e' audit_widths_def)
  then show ?thesis using c [OF ba(1)] c [OF ba(2)] by (simp add: store_event_def e' t)
qed

lemma insert_account_ok:
  assumes "insert_account a d = Inr d'" "db_ok d"
  shows "db_ok d' \<and> outbox_events d' = outbox_events d \<and> audit_pending d' = audit_pending d"
proof -
  from assms(1) have d': "d' = d\<lparr>accounts := accounts d @ [a\<lparr>acc_CreatedAt := pg_timestamp (acc_CreatedAt a)\<rparr>]\<rparr>"
    and fresh: "acc_ID a \<notin> acc_ID ` set (accounts d)"
    by (auto simp: insert_account_def list_ex_iff split: if_splits)
  have "je_references r d \<Longrightarrow> je_references r d'" for r by (auto simp: d' je_references_def)
  then have "legs_ok d'" using assms(2) by (simp add: db_ok_def legs_ok_def d' legs_of_def tx_sum_def tx_ids_def)
  moreover have "keys_ok d'" using assms(2) fresh by (simp add: db_ok_def keys_ok_def d')
  moreover have "events_ok d'"
    using assms(2) by (simp add: db_ok_def events_ok_def d' tx_ids_def outbox_count_def audit_count_def)
  ultimately show ?thesis by (simp add: db_ok_def d')
qed

lemma relay_inv_same: "relay_inv f k d \<Longrightarrow> outbox_events d' = outbox_events d \<Longrightarrow> relay_inv f k d'"
  by (simp add: relay_inv_def)

lemma queue_ok_same: "queue_ok jsonb d \<Longrightarrow> audit_pending d' = audit_pending d \<Longrightarrow> queue_ok jsonb d'"
  by (simp add: queue_ok_def)

lemma relay_inv_post:
  assumes "posted t l1 l2 x ob p d d'" "relay_inv f k d"
  shows "relay_inv f k d'"
  using assms status_neq [symmetric] by (auto simp: posted_def relay_inv_def simp del: status_neq)

lemma queue_ok_post:
  assumes "posted t l1 l2 x ob p d d'" "jsonb_stable jsonb" "store_event jsonb e = Inr (pr_event p)" "queue_ok jsonb d"
  shows "queue_ok jsonb d'"
  using assms(1,4) store_event_stable [OF assms(2,3)] by (auto simp: posted_def queue_ok_def tenant_of_def)

lemma step_ok:
  assumes "ledger_step jsonb ustr s s'" "jsonb_stable jsonb" "shared_ok jsonb ustr s"
  shows "shared_ok jsonb ustr s'"
  using assms(1)
proof (cases rule: ledger_step.cases)
  case (open_account a d d' k)
  then show ?thesis using insert_account_ok [OF open_account(3)] typed_insert_account assms(3)
    by (auto simp: shared_ok_def typed_stmt_def intro: relay_inv_same queue_ok_same inv_intros)
next
  case (post t l1 l2 x ob p d d' e k)
  then have "db_ok d" "relay_inv (in_topic ustr) k d" "queue_ok jsonb d" "well_typed d" using assms(3) by (simp_all add: shared_ok_def)
  then show ?thesis
    using db_ok_posted [OF _ post(3,4)] relay_inv_post [OF post(3)] queue_ok_post [OF post(3) assms(2) post(5)]
      adds_typed_keeps [OF post(6)] post(2)
    by (simp add: shared_ok_def)
next
  case (deliver k k' d)
  then show ?thesis using assms(3) by (auto simp: shared_ok_def relay_inv_def)
next
  case (publish d d' k)
  then have "db_ok d" "queue_ok jsonb d" "well_typed d" using assms(3) by (simp_all add: shared_ok_def)
  moreover have "audit_pending d' = audit_pending d"
    using publish(3) unfolding status_moves_def by (metis db.select_convs(5) db.surjective db.update_convs(4))
  ultimately show ?thesis using publish(2,4) db_ok_moves [OF _ publish(3)] queue_ok_same status_moves_typed [OF publish(3)] by (simp add: shared_ok_def)
next
  case (forward d d' k)
  then have "db_ok d" "relay_inv (in_topic ustr) k d" "queue_ok jsonb d" "well_typed d" using assms(3) by (simp_all add: shared_ok_def)
  moreover have "outbox_events d' = outbox_events d" using forward(3) by (auto simp: tenant_run_def run_moved_def)
  ultimately show ?thesis using forward(2) tenant_run_ok [OF forward(3)] tenant_run_typed [OF forward(3)] relay_inv_same by (simp add: shared_ok_def)
qed

lemma steps_ok:
  assumes "ledger_steps jsonb ustr s s'" "jsonb_stable jsonb" "shared_ok jsonb ustr s"
  shows "shared_ok jsonb ustr s'"
  using assms(1,3) by induction (auto intro: step_ok assms(2))

section \<open>The components are its sessions\<close>

text \<open>What the other sessions do to the database before a transaction's snapshot: steps of the
  machine, on a topic that holds \<open>k\<close>.\<close>

definition others :: "jsonb_in \<Rightarrow> (UUID \<Rightarrow> string) \<Rightarrow> KafkaMessage list \<Rightarrow> db attempt_env \<Rightarrow> bool" where
  "others jsonb ustr k env \<longleftrightarrow> (\<forall>d. ledger_steps jsonb ustr (d, k) (at_before env d, k))"

lemma others_still: "(\<And>d. at_before env d = d) \<Longrightarrow> others jsonb ustr k env"
  by (simp add: others_def)

lemma ExecuteTransfer_steps:
  assumes "apd_lib (lib_apd L)" "amount_in (tr_Amount req)" "\<And>i. others (lib_jsonb L) ustr k (ex_attempts ex i)"
    and "ExecuteTransfer L r ex req w = (w', res)"
  shows "ledger_steps (lib_jsonb L) ustr (lw_db w, k) (lw_db w', k)"
  using ExecuteTransfer_cases [OF assms(4)]
proof (elim disjE exE conjE)
  fix body s err
  let ?t = "build_transaction (lib_apd L) ex req" and ?I = "\<lambda>d. ledger_steps (lib_jsonb L) ustr (lw_db w, k) (d, k)"
  assume v: "validateTransferRequest (lib_apd L) req = None" "AssertBalanced (lib_apd L) ?t = None"
    and tx: "InTx (lr_acquireCfg r) (lr_retry r) (transfer_tx L ?t (ex_ids ex 3) req (audit_event_of req ?t body))
        (ex_attempts ex) \<lparr>ts_pool = lw_pool w, ts_db = lw_db w, ts_vars = ()\<rparr> = (s, err)"
    and w': "lw_db w' = ts_db s"
  have a: "at_scale (tr_Amount req)" using accepted_amount [OF assms(1,2) v] by simp
  have "?I (ts_db s) \<and> pl_acquired (ts_pool s) = pl_acquired (ts_pool \<lparr>ts_pool = lw_pool w, ts_db = lw_db w, ts_vars = ()\<rparr>)"
  proof (rule InTx_invariant [where I = ?I, OF tx])
    show "?I (at_before (ex_attempts ex i) d)" if "?I d" for i d
      using that assms(3) [of i] unfolding others_def by (meson rtranclp_trans)
    show "?I d'" if "?I d" and run: "transfer_tx L ?t (ex_ids ex 3) req (audit_event_of req ?t body) (ex_attempts ex i) u d = (d', u', None)"
      for i u d d' u'
    proof -
      obtain ob p e where "posted ?t (debit_of (lib_apd L) ex req) (credit_of (lib_apd L) ex req) (units (tr_Amount req)) ob p d d'"
        "store_event (lib_jsonb L) e = Inr (pr_event p)"
        using transfer_tx_posted [OF assms(1) build_legs(1) build_legs(2,3) a _ run] by auto
      with that(1) post [OF _ build_legs(1) _ transfer_tx_typed [OF run]] show ?thesis by (meson rtranclp.rtrancl_into_rtrancl)
    qed
  qed simp
  with w' show ?thesis by simp
qed auto

lemma drain_steps:
  assumes "drain pc env (select_pending c n locked) (Some pub) w = (w', r)"
    and "drain_publisher pub (in_topic ustr)" "\<And>events k k' ids. pub events k = (k', Inr ids) \<Longrightarrow> set ids \<subseteq> ob_ID ` set events"
    and "jsonb_stable jsonb" "shared_ok jsonb ustr (ow_db w, ow_kafka w)" "others jsonb ustr (ow_kafka w) env"
  shows "ledger_steps jsonb ustr (ow_db w, ow_kafka w) (ow_db w', ow_kafka w')"
proof -
  let ?d = "at_before env (ow_db w)" and ?k = "ow_kafka w"
  let ?sel = "select_pending c n locked ?d"
  have pre: "ledger_steps jsonb ustr (ow_db w, ?k) (?d, ?k)" using assms(6) by (simp add: others_def)
  from steps_ok [OF this assms(4,5)] have ok: "db_ok ?d" "relay_inv (in_topic ustr) ?k ?d" by (simp_all add: shared_ok_def)
  then have d: "distinct (map ob_ID (outbox_events ?d))" by (simp add: db_ok_def keys_ok_def)
  obtain k' res where p: "pub ?sel ?k = (k', res)" by (rule prod.exhaust)
  have deliver: "ledger_step jsonb ustr (?d, ?k) (?d, k')"
    using drain_publisher.keeps [OF assms(2) p] by (rule ledger_step.deliver)
  from drain_shape_holds [OF assms(1)] consider "ow_db w' = ?d" "ow_kafka w' = ?k \<or> ow_kafka w' = k'"
    | ids where "res = Inr ids" "ow_db w' = fst (mark_published ids ?d)" "ow_kafka w' = k'"
    unfolding drain_shape_def p by auto
  then show ?thesis
  proof cases
    case 1
    with pre deliver show ?thesis by (auto intro: rtranclp.rtrancl_into_rtrancl)
  next
    case (2 ids)
    have sub: "set ids \<subseteq> ob_ID ` set ?sel" using assms(3) p 2(1) by blast
    have "status_moves ?d (ow_db w')" unfolding 2(2) by (rule mark_published_moves) (rule selected_pending [OF d sub])
    moreover have "relay_inv (in_topic ustr) k' (ow_db w')" unfolding 2(2)
      by (rule drain_publisher.relay_inv_mark [OF assms(2) ok(2) select_pending_sub p [unfolded 2(1)]])
    ultimately have "ledger_step jsonb ustr (?d, k') (ow_db w', k')" by (rule publish)
    with pre deliver 2(3) show ?thesis by (auto intro: rtranclp.rtrancl_into_rtrancl)
  qed
qed

lemma tick_steps:
  assumes "outbox_tick ustr pc cfg timeout env locked ke w = (w', r)" "truthful_reports ke"
    and "jsonb_stable jsonb" "shared_ok jsonb ustr (ow_db w, ow_kafka w)" "others jsonb ustr (ow_kafka w) env"
  shows "ledger_steps jsonb ustr (ow_db w, ow_kafka w) (ow_db w', ow_kafka w')"
  by (rule drain_steps [OF assms(1) [unfolded outbox_tick_def Drain_def] publishBatch_contract [OF assms(2)] _ assms(3-5)])
    (rule publish_sub(1))

lemma RunOnce_steps:
  assumes "RunOnce ustr pc timeout r re w = (w', res)" "truthful_reports (re_kafka re)"
    and "jsonb_stable jsonb" "shared_ok jsonb ustr (ow_db w, ow_kafka w)" "others jsonb ustr (ow_kafka w) (re_env re)"
  shows "ledger_steps jsonb ustr (ow_db w, ow_kafka w) (ow_db w', ow_kafka w')"
proof -
  obtain x where "DrainStale pc (re_env re) (re_locked re) (re_now_drain re) (StaleAfter (rc_cfg r)) (rc_BatchSize (rc_cfg r))
      (Some (publishStaleBatch ustr (rc_topic r) timeout (re_kafka re))) w = (w', x)"
    using assms(1) by (auto simp: RunOnce_def Let_def split: prod.splits sum.splits if_splits)
  from drain_steps [OF this [unfolded DrainStale_def Let_def] publishStaleBatch_contract [OF assms(2)] _ assms(3-5)]
  show ?thesis using publish_sub(2) by blast
qed

lemma audit_steps:
  assumes "audit_Drain jsonb pc env {} n w = (w', j, err)"
    and "jsonb_stable jsonb" "shared_ok jsonb ustr (au_db w, k)" "others jsonb ustr k env"
  shows "ledger_steps jsonb ustr (au_db w, k) (au_db w', k)"
proof (cases "0 < n")
  case True
  let ?d = "at_before env (au_db w)"
  have pre: "ledger_steps jsonb ustr (au_db w, k) (?d, k)" using assms(4) by (simp add: others_def)
  from steps_ok [OF this assms(2,3)] have q: "queue_ok jsonb ?d" by (simp add: shared_ok_def)
  have "audit_inTx pc env (drain_fn jsonb env {} n) 0 (w\<lparr>au_db := ?d\<rparr>) = (w', j, err)"
    using assms(1) True by (simp add: audit_Drain_def)
  from audit_inTx_cases [OF this] consider "au_db w' = ?d" | "drain_fn jsonb env {} n ?d 0 = (Inr (au_db w'), j)" by auto
  then have "tenant_run\<^sup>*\<^sup>* ?d (au_db w')"
    using drain_fn_forwarded [OF _ q] by cases (auto simp: forwarded_def)
  then have "ledger_steps jsonb ustr (?d, k) (au_db w', k)"
    by induction (auto intro: rtranclp.rtrancl_into_rtrancl forward)
  with pre show ?thesis by (rule rtranclp_trans)
qed (use assms(1) in \<open>simp add: audit_Drain_def\<close>)

end
