(* ===== verification/Rpc.thy ===== *)
theory Rpc
  imports Request_Context
begin

text \<open>
  The vocabulary of google.golang.org/grpc the transport is written in: status codes and status
  errors, what a unary call leaves behind (response headers and trailers, log lines), its outcome
  (an answer, a status error or a panic), handlers and interceptors, and the chaining of
  interceptors.
\<close>

section \<open>Status errors\<close>

datatype code =
    OK | Canceled | Unknown | InvalidArgument | DeadlineExceeded | NotFound | AlreadyExists
  | PermissionDenied | ResourceExhausted | FailedPrecondition | Aborted | OutOfRange
  | Unimplemented | Internal | Unavailable | DataLoss | Unauthenticated

text \<open>The text of a status: a literal, or \<open>err.Error()\<close> of an error.\<close>

datatype message = Text string | ErrorText go_error

record status_error =
  st_Code :: code
  st_Message :: message
  st_Details :: "(string \<times> string) list"

definition status_Error :: "code \<Rightarrow> message \<Rightarrow> status_error" where
  "status_Error c m = \<lparr>st_Code = c, st_Message = m, st_Details = []\<rparr>"

section \<open>Calls\<close>

datatype log_level = LevelDebug | LevelInfo | LevelWarn | LevelError

text \<open>The values of \<open>log/slog\<close>, which order the levels.\<close>

fun level_value :: "log_level \<Rightarrow> int" where
  "level_value LevelDebug = - 4"
| "level_value LevelInfo = 0"
| "level_value LevelWarn = 4"
| "level_value LevelError = 8"

lemma level_value_inj: "level_value a = level_value b \<Longrightarrow> a = b"
  by (cases a; cases b) simp_all

instantiation log_level :: linorder
begin

definition less_eq_log_level :: "log_level \<Rightarrow> log_level \<Rightarrow> bool" where
  "less_eq_log_level a b \<longleftrightarrow> level_value a \<le> level_value b"

definition less_log_level :: "log_level \<Rightarrow> log_level \<Rightarrow> bool" where
  "less_log_level a b \<longleftrightarrow> level_value a < level_value b"

instance
  by standard (auto simp: less_eq_log_level_def less_log_level_def level_value_inj)

end

record log_line =
  ll_Level :: log_level
  ll_Msg :: string
  ll_Attrs :: log_attrs
  ll_Err :: "message option"

text \<open>The state a unary call works on: the program's own state, and what the call sets or logs.\<close>

record 'w rpc_state =
  rs_world :: 'w
  rs_header :: "(string \<times> string) list"
  rs_trailer :: "(string \<times> string) list"
  rs_log :: "log_line list"

definition SetHeader :: "string \<Rightarrow> string \<Rightarrow> 'w rpc_state \<Rightarrow> 'w rpc_state" where
  "SetHeader k v s = s\<lparr>rs_header := rs_header s @ [(k, v)]\<rparr>"

definition SetTrailer :: "string \<Rightarrow> string \<Rightarrow> 'w rpc_state \<Rightarrow> 'w rpc_state" where
  "SetTrailer k v s = s\<lparr>rs_trailer := rs_trailer s @ [(k, v)]\<rparr>"

definition log_at :: "log_level \<Rightarrow> log_attrs \<Rightarrow> string \<Rightarrow> message option \<Rightarrow> 'w rpc_state \<Rightarrow> 'w rpc_state" where
  "log_at lv attrs msg err s =
     s\<lparr>rs_log := rs_log s @ [\<lparr>ll_Level = lv, ll_Msg = msg, ll_Attrs = attrs, ll_Err = err\<rparr>]\<rparr>"

lemma rpc_world [simp]:
  "rs_world (SetHeader k v s) = rs_world s" "rs_world (SetTrailer k v s) = rs_world s"
  "rs_world (log_at lv attrs msg err s) = rs_world s"
  by (simp_all add: SetHeader_def SetTrailer_def log_at_def)

text \<open>A call returns an answer or a status error, or panics with a value.\<close>

datatype 'r outcome = Reply 'r | Fail status_error | Panic string

type_synonym ('w, 'q, 'r) handler = "req_ctx \<Rightarrow> 'q \<Rightarrow> 'w rpc_state \<Rightarrow> 'w rpc_state \<times> 'r outcome"

text \<open>An interceptor gets the full method name and the rest of the chain.\<close>

type_synonym ('w, 'q, 'r) interceptor = "string \<Rightarrow> ('w, 'q, 'r) handler \<Rightarrow> ('w, 'q, 'r) handler"

text \<open>\<open>gogrpc.ChainUnaryInterceptor\<close>: the first interceptor is the outermost.\<close>

definition ChainUnaryInterceptor :: "('w, 'q, 'r) interceptor list \<Rightarrow> ('w, 'q, 'r) interceptor" where
  "ChainUnaryInterceptor is m h = foldr (\<lambda>i rest. i m rest) is h"

lemma chain_Nil [simp]: "ChainUnaryInterceptor [] m h = h"
  by (simp add: ChainUnaryInterceptor_def)

lemma chain_Cons [simp]: "ChainUnaryInterceptor (i # is) m h = i m (ChainUnaryInterceptor is m h)"
  by (simp add: ChainUnaryInterceptor_def)

lemma chain_append [simp]:
  "ChainUnaryInterceptor (is @ js) m h = ChainUnaryInterceptor is m (ChainUnaryInterceptor js m h)"
  by (induction "is") simp_all

end
