(* ===== verification/Idempotency.thy ===== *)
theory Idempotency
  imports Domain
begin

text \<open>
  \<open>internal/infrastructure/redis_idempotency.go\<close>: the Redis fast path. The go-redis client is
  third-party code: the record \<open>redis_client\<close> holds the three commands the store sends and what
  happens on the server between two of them, over a state type of its own. The locale
  \<open>redis_lib\<close> states what Redis documents of the commands; \<open>mem_client\<close>, a server with a clock,
  expiry and an outage switch, is an instance.
\<close>

section \<open>The store\<close>

definition IdempotencyTerminalTTL :: duration where "IdempotencyTerminalTTL = 24 * Hour"
definition IdempotencyStartedTTL :: duration where "IdempotencyStartedTTL = 5 * Minute"

record 's redis_client =
  redis_SetNX :: "'s \<Rightarrow> string \<Rightarrow> string \<Rightarrow> duration \<Rightarrow> 's \<times> bool result"
  redis_Get :: "'s \<Rightarrow> string \<Rightarrow> 's \<times> string result"
  redis_Set :: "'s \<Rightarrow> string \<Rightarrow> string \<Rightarrow> duration \<Rightarrow> 's \<times> go_error option"
  redis_gap :: "'s \<Rightarrow> 's"

record RedisIdempotencyStore =
  ris_prefix :: string
  ris_startedTTL :: duration
  ris_terminalTTL :: duration

definition NewRedisIdempotencyStore :: RedisIdempotencyStore where
  "NewRedisIdempotencyStore = \<lparr>ris_prefix = ''ledger:idem:'',
     ris_startedTTL = IdempotencyStartedTTL, ris_terminalTTL = IdempotencyTerminalTTL\<rparr>"

definition WithPrefix :: "RedisIdempotencyStore \<Rightarrow> string \<Rightarrow> RedisIdempotencyStore" where
  "WithPrefix st prefix = st\<lparr>ris_prefix := prefix\<rparr>"

definition WithTTLs :: "RedisIdempotencyStore \<Rightarrow> duration \<Rightarrow> duration \<Rightarrow> RedisIdempotencyStore" where
  "WithTTLs st startedTTL terminalTTL =
     st\<lparr>ris_startedTTL := startedTTL, ris_terminalTTL := terminalTTL\<rparr>"

definition ris_key :: "RedisIdempotencyStore \<Rightarrow> string \<Rightarrow> string" where
  "ris_key st k = ris_prefix st @ k"

definition recordSep :: char where "recordSep = CHR '':''"

definition encodeRecord :: "IdempotencyRecord \<Rightarrow> string" where
  "encodeRecord rec = rec_State rec @ [recordSep] @ rec_Fingerprint rec"

definition decodeRecord :: "string \<Rightarrow> IdempotencyRecord" where
  "decodeRecord raw =
     (case strings_Cut raw recordSep of (state, fp, ok) \<Rightarrow>
        if \<not> ok then \<lparr>rec_State = raw, rec_Fingerprint = []\<rparr>
        else \<lparr>rec_State = state, rec_Fingerprint = fp\<rparr>)"

text \<open>The three results of \<open>Acquire\<close> with the server state after the call.\<close>

definition ris_Acquire ::
    "'s redis_client \<Rightarrow> RedisIdempotencyStore \<Rightarrow> 's \<Rightarrow> string \<Rightarrow> string
      \<Rightarrow> 's \<times> (bool \<times> IdempotencyRecord \<times> go_error option)" where
  "ris_Acquire R st s key fingerprint =
     (if key = [] then (s, False, zero_record, Some (Errorf [Lit ''redis idempotency: key is required'']))
      else let value = encodeRecord \<lparr>rec_State = IdempotencyStarted, rec_Fingerprint = fingerprint\<rparr>
           in case redis_SetNX R s (ris_key st key) value (ris_startedTTL st) of
                (s1, Inl err) \<Rightarrow>
                  (s1, False, zero_record, Some (Errorf [Lit ''redis idempotency: SETNX: '', W err]))
              | (s1, Inr True) \<Rightarrow> (s1, True, zero_record, None)
              | (s1, Inr False) \<Rightarrow>
                  (case redis_Get R (redis_gap R s1) (ris_key st key) of
                     (s2, Inl err) \<Rightarrow>
                       if errors_Is err RedisNil then (s2, False, zero_record, None)
                       else (s2, False, zero_record, Some (Errorf [Lit ''redis idempotency: GET: '', W err]))
                   | (s2, Inr cur) \<Rightarrow> (s2, False, decodeRecord cur, None)))"

definition ris_SetState ::
    "'s redis_client \<Rightarrow> RedisIdempotencyStore \<Rightarrow> 's \<Rightarrow> string \<Rightarrow> string \<Rightarrow> IdempotencyState
      \<Rightarrow> 's \<times> go_error option" where
  "ris_SetState R st s key fingerprint state =
     (if key = [] then (s, Some (Errorf [Lit ''redis idempotency: key is required'']))
      else
        let ttl = (if state = IdempotencyStarted then Some (ris_startedTTL st)
                   else if state = IdempotencyCompleted \<or> state = IdempotencyFailed
                        then Some (ris_terminalTTL st)
                   else None)
        in case ttl of
             None \<Rightarrow> (s, Some (Errorf [Lit ''redis idempotency: invalid state '', Q state]))
           | Some ttl \<Rightarrow>
               let value = encodeRecord \<lparr>rec_State = state, rec_Fingerprint = fingerprint\<rparr>
               in case redis_Set R s (ris_key st key) value ttl of
                    (s1, Some err) \<Rightarrow> (s1, Some (Errorf [Lit ''redis idempotency: SET state: '', W err]))
                  | (s1, None) \<Rightarrow> (s1, None))"

section \<open>What Redis promises\<close>

text \<open>\<open>peek s k\<close> is the live value of a key. A command that fails may or may not have been applied
  on the server.\<close>

locale redis_lib =
  fixes R :: "'s redis_client" and peek :: "'s \<Rightarrow> string \<Rightarrow> string option"
  assumes SetNX_ok: "redis_SetNX R s k v ttl = (s', Inr True) \<Longrightarrow>
      peek s k = None \<and> peek s' = (peek s)(k \<mapsto> v)"
    and SetNX_taken: "redis_SetNX R s k v ttl = (s', Inr False) \<Longrightarrow> peek s k \<noteq> None \<and> peek s' = peek s"
    and SetNX_err: "redis_SetNX R s k v ttl = (s', Inl e) \<Longrightarrow>
      peek s' = peek s \<or> (peek s k = None \<and> peek s' = (peek s)(k \<mapsto> v))"
    and Get_ok: "redis_Get R s k = (s', Inr v) \<Longrightarrow> peek s k = Some v \<and> peek s' = peek s"
    and Get_err: "redis_Get R s k = (s', Inl e) \<Longrightarrow>
      peek s' = peek s \<and> (errors_Is e RedisNil \<longrightarrow> peek s k = None)"
    and Set_ok: "redis_Set R s k v ttl = (s', None) \<Longrightarrow> peek s' = (peek s)(k \<mapsto> v)"
    and Set_err: "redis_Set R s k v ttl = (s', Some e) \<Longrightarrow>
      peek s' = peek s \<or> peek s' = (peek s)(k \<mapsto> v)"

section \<open>Lemmas\<close>

lemma decode_encode:
  "CHR '':'' \<notin> set (rec_State rec) \<Longrightarrow> decodeRecord (encodeRecord rec) = rec"
  by (simp add: decodeRecord_def encodeRecord_def recordSep_def strings_Cut_append)

lemma state_no_sep [simp]:
  "CHR '':'' \<notin> set IdempotencyStarted" "CHR '':'' \<notin> set IdempotencyCompleted"
  "CHR '':'' \<notin> set IdempotencyFailed"
  by (simp_all add: status_consts)

lemma ris_key_inj [simp]: "ris_key st a = ris_key st b \<longleftrightarrow> a = b"
  by (simp add: ris_key_def)

text \<open>The record a store holds under a key.\<close>

definition slot :: "('s \<Rightarrow> string \<Rightarrow> string option) \<Rightarrow> RedisIdempotencyStore \<Rightarrow> 's \<Rightarrow> string
    \<Rightarrow> IdempotencyRecord option" where
  "slot peek st s k = map_option decodeRecord (peek s (ris_key st k))"

context redis_lib
begin

lemma Acquire_won:
  assumes "ris_Acquire R st s k fp = (s', True, r, err)"
  shows "slot peek st s k = None \<and> err = None \<and> r = zero_record
    \<and> slot peek st s' k = Some \<lparr>rec_State = IdempotencyStarted, rec_Fingerprint = fp\<rparr>
    \<and> (\<forall>j. j \<noteq> k \<longrightarrow> slot peek st s' j = slot peek st s j)"
  using assms
  by (auto simp: ris_Acquire_def slot_def Let_def decode_encode dest!: SetNX_ok
      split: if_splits prod.splits sum.splits bool.splits)

lemma Acquire_lost:
  assumes "ris_Acquire R st s k fp = (s', False, r, None)"
  shows "\<exists>s1. peek s1 = peek s \<and> slot peek st s k \<noteq> None
    \<and> peek s' = peek (redis_gap R s1)
    \<and> (slot peek st (redis_gap R s1) k = Some r \<or> slot peek st (redis_gap R s1) k = None \<and> r = zero_record)"
  using assms
  by (fastforce simp: ris_Acquire_def slot_def Let_def dest: SetNX_taken Get_ok Get_err
      split: if_splits prod.splits sum.splits bool.splits)

text \<open>A held slot is never won, and is seen as it is when it outlives the GET.\<close>

lemma Acquire_held:
  assumes "ris_Acquire R st s k fp = (s', acq, r, err)" "slot peek st s k = Some rec"
  shows "\<not> acq"
  using Acquire_won [of st s k fp s' r err] assms by (cases acq) auto

lemma Acquire_sees:
  assumes "ris_Acquire R st s k fp = (s', acq, r, None)" "slot peek st s k = Some rec"
    and "\<forall>s. peek (redis_gap R s) = peek s"
  shows "r = rec"
proof -
  have "\<not> acq" using assms(1,2) by (rule Acquire_held)
  with assms(1) obtain s1 where "peek s1 = peek s"
    "slot peek st (redis_gap R s1) k = Some r \<or> slot peek st (redis_gap R s1) k = None"
    using Acquire_lost [of st s k fp s' r] by auto
  with assms(2,3) show ?thesis by (auto simp: slot_def)
qed

lemma SetState_ok:
  assumes "ris_SetState R st s k fp state = (s', None)"
  shows "k \<noteq> [] \<and> state \<in> {IdempotencyStarted, IdempotencyCompleted, IdempotencyFailed}
    \<and> slot peek st s' k = Some \<lparr>rec_State = state, rec_Fingerprint = fp\<rparr>
    \<and> (\<forall>j. j \<noteq> k \<longrightarrow> slot peek st s' j = slot peek st s j)"
  using assms
  by (auto simp: ris_SetState_def slot_def Let_def decode_encode dest!: Set_ok
      split: if_splits prod.splits option.splits)

lemma SetState_err:
  assumes "ris_SetState R st s k fp state = (s', Some e)"
  shows "slot peek st s' k \<in> {slot peek st s k, Some \<lparr>rec_State = state, rec_Fingerprint = fp\<rparr>}
    \<and> (\<forall>j. j \<noteq> k \<longrightarrow> slot peek st s' j = slot peek st s j)"
  using assms
  by (auto simp: ris_SetState_def slot_def Let_def decode_encode dest!: Set_err
      split: if_splits prod.splits option.splits)

end

section \<open>A Redis server\<close>

record mem_redis =
  mem_now :: instant
  mem_data :: "string \<Rightarrow> (string \<times> instant) option"
  mem_down :: bool

definition mem_peek :: "mem_redis \<Rightarrow> string \<Rightarrow> string option" where
  "mem_peek s k = (case mem_data s k of
     Some (v, exp) \<Rightarrow> if mem_now s < exp then Some v else None
   | None \<Rightarrow> None)"

definition mem_put :: "mem_redis \<Rightarrow> string \<Rightarrow> string \<Rightarrow> duration \<Rightarrow> mem_redis" where
  "mem_put s k v ttl = s\<lparr>mem_data := (mem_data s)(k \<mapsto> (v, mem_now s + max 1 ttl))\<rparr>"

text \<open>A server whose clock advances by \<open>dt\<close> between two commands of one caller.\<close>

definition mem_client :: "duration \<Rightarrow> mem_redis redis_client" where
  "mem_client dt = \<lparr>
     redis_SetNX = (\<lambda>s k v ttl.
       if mem_down s then (s, Inl (Foreign ''connection refused''))
       else if mem_peek s k = None then (mem_put s k v ttl, Inr True) else (s, Inr False)),
     redis_Get = (\<lambda>s k.
       if mem_down s then (s, Inl (Foreign ''connection refused''))
       else case mem_peek s k of None \<Rightarrow> (s, Err RedisNil) | Some v \<Rightarrow> (s, Inr v)),
     redis_Set = (\<lambda>s k v ttl.
       if mem_down s then (s, Some (Foreign ''connection refused'')) else (mem_put s k v ttl, None)),
     redis_gap = (\<lambda>s. s\<lparr>mem_now := mem_now s + dt\<rparr>)\<rparr>"

definition mem_empty :: mem_redis where
  "mem_empty = \<lparr>mem_now = 0, mem_data = (\<lambda>_. None), mem_down = False\<rparr>"

lemma mem_peek_put [simp]: "mem_peek (mem_put s k v ttl) = (mem_peek s)(k \<mapsto> v)"
  by (auto simp: mem_peek_def mem_put_def fun_eq_iff split: option.split)

interpretation mem: redis_lib "mem_client dt" mem_peek
  by unfold_locales (auto simp: mem_client_def split: if_splits option.splits)

lemma advance_expiry:
  "mem_data s k = Some (v, exp) \<Longrightarrow> exp \<le> t \<Longrightarrow> mem_peek (s\<lparr>mem_now := t\<rparr>) k = None"
  by (simp add: mem_peek_def)

section \<open>Properties\<close>

text \<open>C15: \<open>Acquire\<close> is mutually exclusive per key. If it reports ownership, the slot was free, it
  now holds STARTED with the caller's fingerprint, and no other key changed; whoever calls
  \<open>Acquire\<close> on the key from a state that still holds the slot does not own it, and when the
  slot is still there at the GET it sees exactly that record.\<close>

theorem Acquire_exclusive:
  assumes "redis_lib R peek"
    and "ris_Acquire R st s k fp = (s1, True, r, err)"
    and "slot peek st s2 k = slot peek st s1 k"
    and "ris_Acquire R st s2 k fp' = (s3, acq, r', err')"
  shows "slot peek st s k = None
    \<and> slot peek st s1 k = Some \<lparr>rec_State = IdempotencyStarted, rec_Fingerprint = fp\<rparr>
    \<and> (\<forall>j. j \<noteq> k \<longrightarrow> slot peek st s1 j = slot peek st s j)
    \<and> \<not> acq
    \<and> (err' = None \<and> (\<forall>s. peek (redis_gap R s) = peek s) \<longrightarrow>
         r' = \<lparr>rec_State = IdempotencyStarted, rec_Fingerprint = fp\<rparr>)"
proof -
  note won = redis_lib.Acquire_won [OF assms(1,2)]
  then have held: "slot peek st s2 k = Some \<lparr>rec_State = IdempotencyStarted, rec_Fingerprint = fp\<rparr>"
    using assms(3) by simp
  show ?thesis
    using won redis_lib.Acquire_held [OF assms(1,4) held] redis_lib.Acquire_sees [OF assms(1) _ held]
      assms(4) by blast
qed

theorem Acquire_exclusive_witness:
  "\<exists>s1 s3. ris_Acquire (mem_client 0) NewRedisIdempotencyStore mem_empty ''k'' ''f'' = (s1, True, zero_record, None)
     \<and> ris_Acquire (mem_client 0) NewRedisIdempotencyStore s1 ''k'' ''g''
         = (s3, False, \<lparr>rec_State = IdempotencyStarted, rec_Fingerprint = ''f''\<rparr>, None)"
proof -
  let ?A = "ris_Acquire (mem_client 0) NewRedisIdempotencyStore"
  obtain s1 r e where 1: "?A mem_empty ''k'' ''f'' = (s1, True, r, e)"
    by (auto simp: ris_Acquire_def mem_client_def mem_empty_def mem_peek_def Let_def)
  obtain s3 a r' e' where 2: "?A s1 ''k'' ''g'' = (s3, a, r', e')" by (cases "?A s1 ''k'' ''g''")
  have up: "mem_down s1 = False"
    using 1 by (auto simp: ris_Acquire_def mem_client_def mem_empty_def mem_put_def Let_def mem_peek_def)
  have "e' = None" using 2 up
    by (auto simp: ris_Acquire_def mem_client_def Let_def split: if_splits option.splits)
  moreover have "mem_peek (redis_gap (mem_client 0) s) = mem_peek s" for s
    by (simp add: mem_client_def)
  ultimately show ?thesis
    using Acquire_exclusive [OF mem.redis_lib_axioms 1 refl 2] mem.Acquire_won [OF 1] 1 2 by auto
qed

text \<open>Terminal states are read back. After a successful \<open>SetState\<close> of STARTED, COMPLETED or
  FAILED the slot holds exactly the state and fingerprint written, so a later \<open>Acquire\<close> cannot
  own the key and, when the slot lives until its GET, returns that record; any other state is
  refused without a write, and a failed \<open>SetState\<close> leaves the old or the new record, and
  nothing else.\<close>

theorem SetState_roundtrip:
  assumes "redis_lib R peek"
    and "ris_SetState R st s k fp state = (s1, err)"
    and "ris_Acquire R st s1 k fp' = (s2, acq, r, err')"
  shows "(err = None \<longrightarrow>
       slot peek st s1 k = Some \<lparr>rec_State = state, rec_Fingerprint = fp\<rparr> \<and> \<not> acq
       \<and> (err' = None \<and> (\<forall>s. peek (redis_gap R s) = peek s) \<longrightarrow>
            r = \<lparr>rec_State = state, rec_Fingerprint = fp\<rparr>))
    \<and> (err \<noteq> None \<longrightarrow>
       slot peek st s1 k \<in> {slot peek st s k, Some \<lparr>rec_State = state, rec_Fingerprint = fp\<rparr>})
    \<and> (\<forall>j. j \<noteq> k \<longrightarrow> slot peek st s1 j = slot peek st s j)
    \<and> (state \<notin> {IdempotencyStarted, IdempotencyCompleted, IdempotencyFailed} \<longrightarrow>
         err \<noteq> None \<and> s1 = s)"
proof (cases err)
  case None
  note ok = redis_lib.SetState_ok [OF assms(1) assms(2) [unfolded None]]
  then have held: "slot peek st s1 k = Some \<lparr>rec_State = state, rec_Fingerprint = fp\<rparr>" by blast
  show ?thesis
    using ok None redis_lib.Acquire_held [OF assms(1,3) held] redis_lib.Acquire_sees [OF assms(1) _ held]
      assms(3) by blast
next
  case (Some e)
  have "s1 = s" if "state \<notin> {IdempotencyStarted, IdempotencyCompleted, IdempotencyFailed}"
    using assms(2) that by (auto simp: ris_SetState_def Let_def split: if_splits)
  with redis_lib.SetState_err [OF assms(1) assms(2) [unfolded Some]] Some show ?thesis by blast
qed

theorem SetState_roundtrip_witness:
  "\<exists>s1 s2. ris_SetState (mem_client 0) NewRedisIdempotencyStore mem_empty ''k'' ''f'' IdempotencyCompleted = (s1, None)
     \<and> ris_Acquire (mem_client 0) NewRedisIdempotencyStore s1 ''k'' ''f''
         = (s2, False, \<lparr>rec_State = IdempotencyCompleted, rec_Fingerprint = ''f''\<rparr>, None)"
proof -
  let ?S = "ris_SetState (mem_client 0) NewRedisIdempotencyStore mem_empty ''k'' ''f'' IdempotencyCompleted"
  let ?A = "ris_Acquire (mem_client 0) NewRedisIdempotencyStore"
  obtain s1 where 1: "?S = (s1, None)" and up: "mem_down s1 = False"
    by (auto simp: ris_SetState_def mem_client_def mem_empty_def mem_put_def Let_def status_consts)
  obtain s2 a r e where 2: "?A s1 ''k'' ''f'' = (s2, a, r, e)" by (cases "?A s1 ''k'' ''f''")
  have "e = None" using 2 up
    by (auto simp: ris_Acquire_def mem_client_def Let_def split: if_splits option.splits)
  moreover have "mem_peek (redis_gap (mem_client 0) s) = mem_peek s" for s
    by (simp add: mem_client_def)
  ultimately show ?thesis using SetState_roundtrip [OF mem.redis_lib_axioms 1 2] 1 2 by auto
qed



end
