(* ===== verification/Transfer_Usecase.thy ===== *)
theory Transfer_Usecase
  imports Audit_Hash Idempotency Ledger_Props
begin

text \<open>
  \<open>internal/usecase\<close>: the orchestration of one transfer (\<open>transfer.go\<close>) and the event payload
  (\<open>events.go\<close>). The two ports the usecase calls are records of functions over a world \<open>'w\<close>,
  as the interfaces \<open>LedgerRepository\<close> and \<open>IdempotencyStore\<close> of \<open>domain/repository.go\<close>; what
  the usecase relies on is the locale \<open>transfer_ports\<close>, which the repository and Redis models
  meet for every behaviour of the driver and of Redis.
\<close>

section \<open>Input, payload, fingerprint\<close>

record TransferInput =
  ti_TenantID :: string
  ti_IdempotencyKey :: string
  ti_FromAccountID :: UUID
  ti_ToAccountID :: UUID
  ti_Amount :: Amount
  ti_Currency :: Currency

record TransferCommittedV1 =
  tc_TenantId :: string
  tc_IdempotencyKey :: string
  tc_FromAccountId :: string
  tc_ToAccountId :: string
  tc_Amount :: string
  tc_Currency :: string

text \<open>The packages the usecase calls: decimals, \<open>uuid.UUID.String\<close> and \<open>proto.Marshal\<close>.\<close>

record uc_libs =
  ul_apd :: apd
  ul_ustr :: "UUID \<Rightarrow> string"
  ul_marshal :: "TransferCommittedV1 \<Rightarrow> bytes result"

definition SchemaTransferCommittedV1 :: string where
  "SchemaTransferCommittedV1 = ''fintech.ledger.v1.TransferCommittedV1''"

definition MarshalTransferCommittedV1 :: "uc_libs \<Rightarrow> TransferInput \<Rightarrow> bytes result" where
  "MarshalTransferCommittedV1 U i =
     (let evt = \<lparr>tc_TenantId = ti_TenantID i, tc_IdempotencyKey = ti_IdempotencyKey i,
                 tc_FromAccountId = ul_ustr U (ti_FromAccountID i), tc_ToAccountId = ul_ustr U (ti_ToAccountID i),
                 tc_Amount = Amount_String (ul_apd U) (ti_Amount i), tc_Currency = ti_Currency i\<rparr>
      in case ul_marshal U evt of
           Inl err \<Rightarrow> Inl (Errorf [Lit ''usecase: marshal TransferCommittedV1: '', W err])
         | Inr b \<Rightarrow> Inr b)"

definition canonical_body :: "uc_libs \<Rightarrow> TransferInput \<Rightarrow> string" where
  "canonical_body U i =
     ti_TenantID i @ ''|'' @ ul_ustr U (ti_FromAccountID i) @ ''|'' @ ul_ustr U (ti_ToAccountID i) @ ''|''
     @ Amount_String (ul_apd U) (ti_Amount i) @ ''|'' @ ti_Currency i @ ''|'' @ ti_IdempotencyKey i"

definition TransferFingerprint :: "uc_libs \<Rightarrow> TransferInput \<Rightarrow> string" where
  "TransferFingerprint U i = hex_EncodeToString (sha256 (canonical_body U i))"

definition scopedIdempotencyKey :: "string \<Rightarrow> string \<Rightarrow> string" where
  "scopedIdempotencyKey tenantID key = tenantID @ '':'' @ key"

definition idempotencyKeyMaxLen :: nat where "idempotencyKeyMaxLen = 64"

definition key_char :: "char \<Rightarrow> bool" where
  "key_char c \<longleftrightarrow>
     (of_char c \<ge> (48 :: nat) \<and> of_char c \<le> (57 :: nat))
     \<or> (of_char c \<ge> (97 :: nat) \<and> of_char c \<le> (122 :: nat))
     \<or> (of_char c \<ge> (65 :: nat) \<and> of_char c \<le> (90 :: nat))
     \<or> c = CHR ''-'' \<or> c = CHR ''_''"

definition idempotencyKeyAllowed :: "string \<Rightarrow> bool" where
  "idempotencyKeyAllowed s \<longleftrightarrow> list_all key_char s"

definition validateTransferInput :: "apd \<Rightarrow> TransferInput \<Rightarrow> go_error option" where
  "validateTransferInput A i =
     (if ti_TenantID i = [] then Some (Sentinel ErrTenantRequired)
      else if ti_IdempotencyKey i = [] then Some (Errorf [Lit ''usecase: idempotency_key is required''])
      else if length (ti_IdempotencyKey i) > idempotencyKeyMaxLen
        then Some (Errorf [Lit ''usecase: idempotency_key exceeds '', D (int idempotencyKeyMaxLen), Lit '' bytes''])
      else if \<not> idempotencyKeyAllowed (ti_IdempotencyKey i)
        then Some (Errorf [Lit ''usecase: idempotency_key must match [A-Za-z0-9_-]+''])
      else if \<not> Currency_Valid (ti_Currency i) then Some (Sentinel ErrInvalidCurrency)
      else if ti_FromAccountID i = uuid_Nil \<or> ti_ToAccountID i = uuid_Nil then Some (Sentinel ErrAccountNotFound)
      else if ti_FromAccountID i = ti_ToAccountID i
        then Some (Errorf [Lit ''usecase: from and to account IDs must differ''])
      else if Amount_IsZero A (ti_Amount i) \<or> Amount_IsNegative A (ti_Amount i)
        then Some (Errorf [Lit ''usecase: transfer amount must be strictly positive''])
      else None)"

text \<open>Fields the literal does not set have their zero value; that of a time is the first instant of
  year 1.\<close>

definition zero_time :: instant where "zero_time = - 62135596800 * Second"

definition buildPreflightTransaction :: "apd \<Rightarrow> TransferInput \<Rightarrow> Transaction" where
  "buildPreflightTransaction A i =
     (let leg = (\<lambda>acc amt. \<lparr>je_ID = uuid_Nil, je_TransactionID = uuid_Nil, je_TenantID = [], je_AccountID = acc,
                     je_Amount = amt, je_Currency = ti_Currency i, je_CreatedAt = zero_time\<rparr>)
      in \<lparr>tx_ID = uuid_Nil, tx_TenantID = ti_TenantID i, tx_IdempotencyKey = ti_IdempotencyKey i,
          tx_RequestFingerprint = [], tx_Status = TransactionStatusCommitted,
          tx_Entries = [leg (ti_FromAccountID i) (Amount_Neg A (ti_Amount i)), leg (ti_ToAccountID i) (ti_Amount i)],
          tx_CreatedAt = zero_time\<rparr>)"

section \<open>The ports and the usecase\<close>

record 'w LedgerRepository =
  port_ExecuteTransfer :: "TransferRequest \<Rightarrow> 'w \<Rightarrow> 'w \<times> Transaction result"
  port_GetTransaction :: "UUID \<Rightarrow> 'w \<Rightarrow> 'w \<times> Transaction result"
  port_GetTransactionByIdempotencyKey :: "string \<Rightarrow> string \<Rightarrow> 'w \<Rightarrow> 'w \<times> Transaction result"

record 'w IdempotencyStore =
  port_Acquire :: "string \<Rightarrow> string \<Rightarrow> 'w \<Rightarrow> 'w \<times> bool \<times> IdempotencyRecord \<times> go_error option"
  port_SetState :: "string \<Rightarrow> string \<Rightarrow> IdempotencyState \<Rightarrow> 'w \<Rightarrow> 'w \<times> go_error option"

record TransferOutput =
  out_Transaction :: Transaction
  out_Replayed :: bool

definition replay ::
    "'w LedgerRepository \<Rightarrow> string \<Rightarrow> string \<Rightarrow> string \<Rightarrow> 'w \<Rightarrow> 'w \<times> TransferOutput result" where
  "replay ledger tenantID key fingerprint w =
     (case port_GetTransactionByIdempotencyKey ledger tenantID key w of
        (w1, Inl err) \<Rightarrow> (w1, Inl (Errorf [Lit ''usecase: replay lookup failed: '', W err]))
      | (w1, Inr tx) \<Rightarrow>
          if tx_RequestFingerprint tx \<noteq> [] \<and> tx_RequestFingerprint tx \<noteq> fingerprint
          then (w1, Err ErrRequestFingerprintMismatch)
          else (w1, Inr \<lparr>out_Transaction = tx, out_Replayed = True\<rparr>))"

definition transfer_request :: "TransferInput \<Rightarrow> string \<Rightarrow> bytes \<Rightarrow> AuditEnvelope \<Rightarrow> TransferRequest" where
  "transfer_request i fingerprint payload envelope =
     \<lparr>tr_TenantID = ti_TenantID i, tr_IdempotencyKey = ti_IdempotencyKey i, tr_RequestFingerprint = fingerprint,
      tr_FromAccountID = ti_FromAccountID i, tr_ToAccountID = ti_ToAccountID i, tr_Amount = ti_Amount i,
      tr_Currency = ti_Currency i, tr_OutboxSchema = SchemaTransferCommittedV1, tr_OutboxPayload = payload,
      tr_AuditEnvelope = envelope\<rparr>"

text \<open>\<open>now\<close> is the clock reading of \<open>EnvelopeFromContext\<close>.\<close>

definition executeAndReplayOnDup ::
    "uc_libs \<Rightarrow> 'w LedgerRepository \<Rightarrow> req_ctx \<Rightarrow> instant \<Rightarrow> TransferInput \<Rightarrow> string \<Rightarrow> 'w
      \<Rightarrow> 'w \<times> TransferOutput result" where
  "executeAndReplayOnDup U ledger ctx now i fingerprint w =
     (case MarshalTransferCommittedV1 U i of
        Inl err \<Rightarrow> (w, Inl err)
      | Inr payload \<Rightarrow>
     (case EnvelopeFromContext ctx now of
        Inl err \<Rightarrow> (w, Inl (Errorf [Lit ''usecase: '', W err]))
      | Inr envelope \<Rightarrow>
     (case port_ExecuteTransfer ledger (transfer_request i fingerprint payload envelope) w of
        (w1, Inr tx) \<Rightarrow> (w1, Inr \<lparr>out_Transaction = tx, out_Replayed = False\<rparr>)
      | (w1, Inl err) \<Rightarrow>
          if errors_Is err ErrDuplicateIdempotencyKey
          then replay ledger (ti_TenantID i) (ti_IdempotencyKey i) fingerprint w1
          else (w1, Inl err))))"

definition Execute ::
    "uc_libs \<Rightarrow> 'w LedgerRepository \<Rightarrow> 'w IdempotencyStore \<Rightarrow> req_ctx \<Rightarrow> instant \<Rightarrow> TransferInput \<Rightarrow> 'w
      \<Rightarrow> 'w \<times> TransferOutput result" where
  "Execute U ledger idem ctx now i w =
     (case validateTransferInput (ul_apd U) i of
        Some err \<Rightarrow> (w, Inl err)
      | None \<Rightarrow>
     (case AssertBalanced (ul_apd U) (buildPreflightTransaction (ul_apd U) i) of
        Some err \<Rightarrow> (w, Inl err)
      | None \<Rightarrow>
        let scopedKey = scopedIdempotencyKey (ti_TenantID i) (ti_IdempotencyKey i);
            fingerprint = TransferFingerprint U i
        in (case port_Acquire idem scopedKey fingerprint w of
              (w1, acquired, current, Some err) \<Rightarrow> executeAndReplayOnDup U ledger ctx now i fingerprint w1
            | (w1, False, current, None) \<Rightarrow>
                if rec_Fingerprint current \<noteq> [] \<and> rec_Fingerprint current \<noteq> fingerprint
                then (w1, Err ErrRequestFingerprintMismatch)
                else if rec_State current = IdempotencyCompleted
                then replay ledger (ti_TenantID i) (ti_IdempotencyKey i) fingerprint w1
                else if rec_State current = IdempotencyStarted then (w1, Err ErrTransferInFlight)
                else if rec_State current = IdempotencyFailed then (w1, Err ErrIdempotencyKeyFailed)
                else if rec_State current = [] then executeAndReplayOnDup U ledger ctx now i fingerprint w1
                else (w1, Inl (Errorf [Lit ''usecase: unknown idempotency state '', Q (rec_State current)]))
            | (w1, True, current, None) \<Rightarrow>
                (case executeAndReplayOnDup U ledger ctx now i fingerprint w1 of
                   (w2, Inl err) \<Rightarrow> (fst (port_SetState idem scopedKey fingerprint IdempotencyFailed w2), Inl err)
                 | (w2, Inr out) \<Rightarrow> (fst (port_SetState idem scopedKey fingerprint IdempotencyCompleted w2), Inr out)))))"

section \<open>What the usecase relies on\<close>

text \<open>\<open>booked w (tenant, key)\<close> is the id and fingerprint of the transaction stored under a key,
  \<open>money w\<close> what the ledger holds, \<open>moved req\<close> the effect of one transfer on it. A repository call
  books its request or changes nothing (an error can hide a booking, when a commit was not
  acknowledged), a lookup reports what is booked, and the idempotency store changes neither.\<close>

type_synonym booking = "string \<times> string \<Rightarrow> (UUID \<times> string) option"

locale transfer_ports =
  fixes ledger :: "'w LedgerRepository" and idem :: "'w IdempotencyStore"
    and booked :: "'w \<Rightarrow> booking" and money :: "'w \<Rightarrow> 'm" and inv :: "'w \<Rightarrow> bool"
    and moved :: "TransferRequest \<Rightarrow> 'm \<Rightarrow> 'm \<Rightarrow> bool" and acceptable :: "Amount \<Rightarrow> bool"
  assumes exec: "inv w \<Longrightarrow> acceptable (tr_Amount req) \<Longrightarrow> port_ExecuteTransfer ledger req w = (w', r) \<Longrightarrow>
      inv w' \<and> (booked w' = booked w \<and> money w' = money w \<and> (\<exists>e. r = Inl e)
        \<or> (\<exists>i. booked w (tr_TenantID req, tr_IdempotencyKey req) = None
             \<and> booked w' = (booked w)((tr_TenantID req, tr_IdempotencyKey req) \<mapsto> (i, tr_RequestFingerprint req))
             \<and> moved req (money w) (money w') \<and> (\<forall>t. r = Inr t \<longrightarrow> tx_ID t = i)))"
    and lookup: "inv w \<Longrightarrow> port_GetTransactionByIdempotencyKey ledger tenant key w = (w', r) \<Longrightarrow>
      inv w' \<and> booked w' = booked w \<and> money w' = money w
      \<and> (\<forall>t. r = Inr t \<longrightarrow> booked w (tenant, key) = Some (tx_ID t, tx_RequestFingerprint t))"
    and acquire: "inv w \<Longrightarrow> port_Acquire idem k fp w = (w', res) \<Longrightarrow> inv w' \<and> booked w' = booked w \<and> money w' = money w"
    and set_state: "inv w \<Longrightarrow> port_SetState idem k fp s w = (w', e) \<Longrightarrow> inv w' \<and> booked w' = booked w \<and> money w' = money w"
begin

text \<open>The effect of a whole call: nothing, or the booking of this input once; and what an output
  says.\<close>

definition call_effect :: "TransferInput \<Rightarrow> string \<Rightarrow> 'w \<Rightarrow> 'w \<Rightarrow> bool" where
  "call_effect i fp w w' \<longleftrightarrow> inv w' \<and>
     (booked w' = booked w \<and> money w' = money w
      \<or> (\<exists>txid payload envelope. booked w (ti_TenantID i, ti_IdempotencyKey i) = None
           \<and> booked w' = (booked w)((ti_TenantID i, ti_IdempotencyKey i) \<mapsto> (txid, fp))
           \<and> moved (transfer_request i fp payload envelope) (money w) (money w')))"

definition answer_ok :: "TransferInput \<Rightarrow> string \<Rightarrow> 'w \<Rightarrow> 'w \<Rightarrow> TransferOutput result \<Rightarrow> bool" where
  "answer_ok i fp w w' r \<longleftrightarrow> (\<forall>out. r = Inr out \<longrightarrow>
     (\<exists>fp'. booked w' (ti_TenantID i, ti_IdempotencyKey i) = Some (tx_ID (out_Transaction out), fp') \<and> (fp' = fp \<or> fp' = []))
     \<and> (\<not> out_Replayed out \<longrightarrow> booked w (ti_TenantID i, ti_IdempotencyKey i) = None))"

lemma call_effect_pre:
  "call_effect i fp w1 w' \<Longrightarrow> booked w1 = booked w \<Longrightarrow> money w1 = money w \<Longrightarrow> call_effect i fp w w'"
  by (simp add: call_effect_def)

lemma call_effect_post:
  "call_effect i fp w w1 \<Longrightarrow> inv w' \<Longrightarrow> booked w' = booked w1 \<Longrightarrow> money w' = money w1 \<Longrightarrow> call_effect i fp w w'"
  by (simp add: call_effect_def)

lemma call_effect_same: "inv w' \<Longrightarrow> booked w' = booked w \<Longrightarrow> money w' = money w \<Longrightarrow> call_effect i fp w w'"
  by (simp add: call_effect_def)

lemma answer_ok_cong: "answer_ok i fp v v' r \<Longrightarrow> booked v = booked w \<Longrightarrow> booked v' = booked w' \<Longrightarrow> answer_ok i fp w w' r"
  by (simp add: answer_ok_def)

lemma replay_sound:
  assumes "inv w" "replay ledger (ti_TenantID i) (ti_IdempotencyKey i) fp w = (w', r)"
  shows "inv w'" "booked w' = booked w" "money w' = money w" "answer_ok i fp v w' r"
proof -
  obtain w1 q where g: "port_GetTransactionByIdempotencyKey ledger (ti_TenantID i) (ti_IdempotencyKey i) w = (w1, q)"
    by (rule prod.exhaust)
  note l = lookup [OF assms(1) g]
  have "w' = w1" using assms(2) g by (auto simp: replay_def split: sum.splits if_splits)
  with l show "inv w'" "booked w' = booked w" "money w' = money w" by simp_all
  show "answer_ok i fp v w' r"
    using assms(2) g l by (auto simp: replay_def answer_ok_def split: sum.splits if_splits)
qed

lemma executeAndReplayOnDup_sound:
  assumes "inv w" "acceptable (ti_Amount i)" "executeAndReplayOnDup U ledger ctx now i fp w = (w', r)"
  shows "call_effect i fp w w' \<and> answer_ok i fp w w' r"
proof (cases "\<exists>payload envelope. MarshalTransferCommittedV1 U i = Inr payload \<and> EnvelopeFromContext ctx now = Inr envelope")
  case True
  then obtain payload envelope where p: "MarshalTransferCommittedV1 U i = Inr payload"
    "EnvelopeFromContext ctx now = Inr envelope" by blast
  let ?req = "transfer_request i fp payload envelope"
  obtain w1 q where e: "port_ExecuteTransfer ledger ?req w = (w1, q)" by (rule prod.exhaust)
  have key: "tr_TenantID ?req = ti_TenantID i" "tr_IdempotencyKey ?req = ti_IdempotencyKey i"
    "tr_RequestFingerprint ?req = fp" "tr_Amount ?req = ti_Amount i" by (simp_all add: transfer_request_def)
  have x: "call_effect i fp w w1 \<and> (\<forall>t. q = Inr t \<longrightarrow> booked w (ti_TenantID i, ti_IdempotencyKey i) = None
      \<and> booked w1 (ti_TenantID i, ti_IdempotencyKey i) = Some (tx_ID t, fp))"
    using exec [OF assms(1) _ e] assms(2) unfolding key call_effect_def by force
  show ?thesis
  proof (cases "\<exists>err. q = Inl err \<and> errors_Is err ErrDuplicateIdempotencyKey")
    case True
    then have rp: "replay ledger (ti_TenantID i) (ti_IdempotencyKey i) fp w1 = (w', r)"
      using assms(3) p e by (auto simp: executeAndReplayOnDup_def)
    have "inv w1" using x by (simp add: call_effect_def)
    with x replay_sound [OF this rp] show ?thesis by (blast intro: call_effect_post)
  next
    case False
    then have "w' = w1" "\<forall>out. r = Inr out \<longrightarrow> (\<exists>t. q = Inr t \<and> out = \<lparr>out_Transaction = t, out_Replayed = False\<rparr>)"
      using assms(3) p e by (auto simp: executeAndReplayOnDup_def split: sum.splits if_splits)
    with x show ?thesis by (auto simp: answer_ok_def)
  qed
next
  case False
  then have "w' = w" "\<exists>e. r = Inl e"
    using assms(3) by (auto simp: executeAndReplayOnDup_def split: sum.splits)
  with assms(1) show ?thesis by (auto simp: call_effect_def answer_ok_def)
qed

lemma Execute_sound:
  assumes "inv w" "acceptable (ti_Amount i)" "Execute U ledger idem ctx now i w = (w', r)"
  shows "call_effect i (TransferFingerprint U i) w w' \<and> answer_ok i (TransferFingerprint U i) w w' r"
proof (cases "validateTransferInput (ul_apd U) i = None \<and> AssertBalanced (ul_apd U) (buildPreflightTransaction (ul_apd U) i) = None")
  case True
  let ?fp = "TransferFingerprint U i" and ?k = "scopedIdempotencyKey (ti_TenantID i) (ti_IdempotencyKey i)"
  obtain w1 acq cur e where a: "port_Acquire idem ?k ?fp w = (w1, acq, cur, e)" by (metis prod_cases4)
  from acquire [OF assms(1) a] have w1: "inv w1" "booked w1 = booked w" "money w1 = money w" by auto
  obtain w2 r2 where x: "executeAndReplayOnDup U ledger ctx now i ?fp w1 = (w2, r2)" by (rule prod.exhaust)
  have sx: "call_effect i ?fp w w2" "answer_ok i ?fp w w2 r2"
    using executeAndReplayOnDup_sound [OF w1(1) assms(2) x] w1 by (blast intro: call_effect_pre answer_ok_cong)+
  obtain w3 r3 where rp: "replay ledger (ti_TenantID i) (ti_IdempotencyKey i) ?fp w1 = (w3, r3)" by (rule prod.exhaust)
  have sr: "call_effect i ?fp w w3" "answer_ok i ?fp w w3 r3"
    using replay_sound [OF w1(1) rp] w1 by (auto intro: call_effect_same)
  have same: "call_effect i ?fp w w1" using w1 by (rule call_effect_same)
  have fin: "call_effect i ?fp w (fst (port_SetState idem ?k ?fp s w2)) \<and> answer_ok i ?fp w (fst (port_SetState idem ?k ?fp s w2)) r2" for s
  proof -
    obtain w4 e4 where "port_SetState idem ?k ?fp s w2 = (w4, e4)" by (rule prod.exhaust)
    with set_state [OF _ this] sx show ?thesis
      by (auto simp: call_effect_def [of _ _ _ w2] intro: call_effect_post [OF sx(1)] answer_ok_cong [OF sx(2)])
  qed
  have err: "answer_ok i ?fp w v (Inl x)" for v x by (simp add: answer_ok_def)
  consider "(w', r) = (w2, r2)" | "(w', r) = (w3, r3)" | "w' = w1" "\<exists>x. r = Inl x"
    | s where "w' = fst (port_SetState idem ?k ?fp s w2)" "r = r2"
    using assms(3) True a x rp
    by (cases e; cases acq) (auto simp: Execute_def Let_def split: sum.splits if_splits)
  then show ?thesis using sx sr same fin err by cases auto
next
  case False
  then have "w' = w" "\<exists>e. r = Inl e" using assms(3) by (auto simp: Execute_def split: option.splits)
  with assms(1) show ?thesis by (auto simp: call_effect_def answer_ok_def)
qed

end

end
