(* ===== verification/Transfer_Props.thy ===== *)
theory Transfer_Props
  imports Transfer_Usecase
begin

text \<open>
  The transfer usecase over the PostgreSQL repository and the Redis store of this program: its ports
  are instances of \<open>transfer_ports\<close> for every behaviour of the driver and of Redis, and so every
  answer refers to the one transaction booked under the key, and retries move money at most once.
\<close>

section \<open>The program's ports\<close>

record 's transfer_world =
  tw_ledger :: ledger_world
  tw_redis :: 's

definition ledger_port :: "libs \<Rightarrow> LedgerRepo \<Rightarrow> exec_env \<Rightarrow> read_env \<Rightarrow> 's transfer_world LedgerRepository" where
  "ledger_port L r ex rd =
     \<lparr>port_ExecuteTransfer = (\<lambda>req w. case ExecuteTransfer L r ex req (tw_ledger w) of (l, res) \<Rightarrow> (w\<lparr>tw_ledger := l\<rparr>, res)),
      port_GetTransaction = (\<lambda>i w. (w, GetTransaction (lib_apd L) rd i (lw_db (tw_ledger w)))),
      port_GetTransactionByIdempotencyKey = (\<lambda>tenant key w.
        (w, GetTransactionByIdempotencyKey (lib_apd L) rd tenant key (lw_db (tw_ledger w))))\<rparr>"

definition redis_port :: "'s redis_client \<Rightarrow> RedisIdempotencyStore \<Rightarrow> 's transfer_world IdempotencyStore" where
  "redis_port R st =
     \<lparr>port_Acquire = (\<lambda>k fp w. case ris_Acquire R st (tw_redis w) k fp of (s, res) \<Rightarrow> (w\<lparr>tw_redis := s\<rparr>, res)),
      port_SetState = (\<lambda>k fp state w. case ris_SetState R st (tw_redis w) k fp state of (s, e) \<Rightarrow> (w\<lparr>tw_redis := s\<rparr>, e))\<rparr>"

section \<open>They meet the contract\<close>

definition bookings :: "db \<Rightarrow> booking" where
  "bookings d = (\<lambda>(tenant, key). map_option (\<lambda>r. (txr_id r, txr_request_fingerprint r)) (select_transaction_by_key tenant key d))"

definition moved_by :: "TransferRequest \<Rightarrow> (UUID \<Rightarrow> int) \<Rightarrow> (UUID \<Rightarrow> int) \<Rightarrow> bool" where
  "moved_by req b b' \<longleftrightarrow> b' = b(tr_FromAccountID req := b (tr_FromAccountID req) - units (tr_Amount req),
     tr_ToAccountID req := b (tr_ToAccountID req) + units (tr_Amount req))"

definition quiet :: "exec_env \<Rightarrow> bool" where
  "quiet ex \<longleftrightarrow> (\<forall>i d. at_before (ex_attempts ex i) d = d)"

lemma find_append_other: "\<not> P y \<Longrightarrow> find P (xs @ [y]) = find P xs"
  by (induction xs) auto

lemma bookings_transferred:
  assumes "transferred A ex req d d'"
  shows "bookings d (tr_TenantID req, tr_IdempotencyKey req) = None
    \<and> bookings d' = (bookings d)((tr_TenantID req, tr_IdempotencyKey req) \<mapsto> (ex_ids ex 0, tr_RequestFingerprint req))"
proof -
  let ?t = "build_transaction A ex req"
  let ?row = "(transaction_row ?t)\<lparr>txr_created_at := pg_timestamp (tx_CreatedAt ?t)\<rparr>"
  obtain l1 l2 x ob p where p: "posted ?t l1 l2 x ob p d d'" using assms by (auto simp: transferred_def)
  have t: "transactions d' = transactions d @ [?row]" using p by (simp add: posted_def)
  have free: "\<forall>r \<in> set (transactions d). \<not> (txr_tenant_id r = tr_TenantID req \<and> txr_idempotency_key r = tr_IdempotencyKey req)"
    using p by (simp add: posted_def tx_build)
  then have "select_transaction_by_key (tr_TenantID req) (tr_IdempotencyKey req) d = None"
    by (auto simp: select_transaction_by_key_def find_None_iff)
  moreover have "select_transaction_by_key (tr_TenantID req) (tr_IdempotencyKey req) d' = Some ?row"
    unfolding select_transaction_by_key_def t using free by (intro find_last) (auto simp: transaction_row_def tx_build)
  moreover have "select_transaction_by_key tn k d' = select_transaction_by_key tn k d"
    if "(tn, k) \<noteq> (tr_TenantID req, tr_IdempotencyKey req)" for tn k
    unfolding select_transaction_by_key_def t using that
    by (intro find_append_other) (auto simp: transaction_row_def tx_build)
  ultimately show ?thesis by (auto simp: bookings_def fun_eq_iff transaction_row_def tx_build)
qed

lemma exec_contract:
  assumes "apd_lib (lib_apd L)" "quiet ex" "db_ok (lw_db w)" "amount_in (tr_Amount req)"
    and "ExecuteTransfer L r ex req w = (w', res)"
  shows "db_ok (lw_db w') \<and> (bookings (lw_db w') = bookings (lw_db w) \<and> balance (lw_db w') = balance (lw_db w) \<and> (\<exists>e. res = Inl e)
    \<or> (\<exists>i. bookings (lw_db w) (tr_TenantID req, tr_IdempotencyKey req) = None
         \<and> bookings (lw_db w') = (bookings (lw_db w))((tr_TenantID req, tr_IdempotencyKey req) \<mapsto> (i, tr_RequestFingerprint req))
         \<and> moved_by req (balance (lw_db w)) (balance (lw_db w')) \<and> (\<forall>t. res = Inr t \<longrightarrow> tx_ID t = i)))"
proof -
  have q: "at_before (ex_attempts ex i) d = d" for i d using assms(2) by (simp add: quiet_def)
  have ok: "db_ok (lw_db w')" using ExecuteTransfer_ok [OF assms(1,4,3) _ assms(5)] q by simp
  note once = ExecuteTransfer_once [OF assms(1,4) q assms(5)]
  show ?thesis
  proof (cases "transferred (lib_apd L) ex req (lw_db w) (lw_db w')")
    case True
    have "lw_db w' \<noteq> lw_db w" using bookings_transferred [OF True] by (metis fun_upd_same option.distinct(1))
    then have "validateTransferRequest (lib_apd L) req = None" using ExecuteTransfer_cases [OF assms(5)] by auto
    then have "tr_FromAccountID req \<noteq> tr_ToAccountID req" by (auto simp: validateTransferRequest_def split: if_splits)
    from transferred_balance [OF True this] bookings_transferred [OF True] once ok show ?thesis
      by (auto simp: moved_by_def tx_build)
  next
    case False
    with once ok show ?thesis by (cases res) auto
  qed
qed

lemma lookup_contract:
  "GetTransactionByIdempotencyKey A rd tenant key d = Inr t \<Longrightarrow>
   bookings d (tenant, key) = Some (tx_ID t, tx_RequestFingerprint t)"
  by (auto simp: GetTransactionByIdempotencyKey_def loadTransaction_def bookings_def Let_def
      split: if_splits option.splits sum.splits)

lemma ports_contract:
  assumes "apd_lib (lib_apd L)" "quiet ex"
  shows "transfer_ports (ledger_port L r0 ex rd) (redis_port R st) (\<lambda>w. bookings (lw_db (tw_ledger w)))
    (\<lambda>w. balance (lw_db (tw_ledger w))) (\<lambda>w. db_ok (lw_db (tw_ledger w))) moved_by amount_in"
proof (standard, goal_cases)
  case (1 w req w' r)
  then obtain l where e: "ExecuteTransfer L (r0) ex req (tw_ledger w) = (l, r)" and w': "w' = w\<lparr>tw_ledger := l\<rparr>"
    by (auto simp: ledger_port_def split: prod.splits)
  show ?case using exec_contract [OF assms 1(1,2) e] by (simp add: w')
next
  case (2 w tenant key w' r)
  then show ?case using lookup_contract by (auto simp: ledger_port_def)
qed (auto simp: redis_port_def split: prod.splits)

text \<open>In particular with the reference decimals, for every repository, clock, id source and fault.\<close>

definition undisturbed :: "exec_env \<Rightarrow> exec_env" where
  "undisturbed ex = ex\<lparr>ex_attempts := (\<lambda>i. (ex_attempts ex i)\<lparr>at_before := (\<lambda>d. d)\<rparr>)\<rparr>"

lemma quiet_undisturbed: "quiet (undisturbed ex)"
  by (simp add: quiet_def undisturbed_def)

interpretation pg: transfer_ports "ledger_port (L\<lparr>lib_apd := apd_ref\<rparr>) r (undisturbed ex) rd" "redis_port R st"
  "\<lambda>w. bookings (lw_db (tw_ledger w))" "\<lambda>w. balance (lw_db (tw_ledger w))" "\<lambda>w. db_ok (lw_db (tw_ledger w))" moved_by amount_in
  by (rule ports_contract) (simp_all add: quiet_undisturbed ref.apd_lib_axioms)

section \<open>One call\<close>

definition after_transfer :: "TransferInput \<Rightarrow> (UUID \<Rightarrow> int) \<Rightarrow> UUID \<Rightarrow> int" where
  "after_transfer i b = b(ti_FromAccountID i := b (ti_FromAccountID i) - units (ti_Amount i),
     ti_ToAccountID i := b (ti_ToAccountID i) + units (ti_Amount i))"

abbreviation world_db :: "'s transfer_world \<Rightarrow> db" where
  "world_db w \<equiv> lw_db (tw_ledger w)"

lemma Execute_effect:
  assumes "apd_lib (lib_apd L)" "quiet ex" "db_ok (world_db w)" "amount_in (ti_Amount i)"
    and "Execute U (ledger_port L r0 ex rd) (redis_port R st) ctx now i w = (w', r)"
  defines "k \<equiv> (ti_TenantID i, ti_IdempotencyKey i)" and "fp \<equiv> TransferFingerprint U i"
  shows "db_ok (world_db w')"
    and "bookings (world_db w') = bookings (world_db w) \<and> balance (world_db w') = balance (world_db w)
      \<or> bookings (world_db w) k = None \<and> (\<exists>txid. bookings (world_db w') = (bookings (world_db w))(k \<mapsto> (txid, fp)))
          \<and> balance (world_db w') = after_transfer i (balance (world_db w))"
    and "r = Inr out \<Longrightarrow> \<exists>fp'. bookings (world_db w') k = Some (tx_ID (out_Transaction out), fp') \<and> (fp' = fp \<or> fp' = [])"
    and "r = Inr out \<Longrightarrow> \<not> out_Replayed out \<Longrightarrow> bookings (world_db w) k = None"
proof -
  note c = ports_contract [OF assms(1,2), of r0 rd R st]
  note s = transfer_ports.Execute_sound [OF c assms(3,4,5)]
  note d = transfer_ports.call_effect_def [OF c] transfer_ports.answer_ok_def [OF c]
  show "db_ok (world_db w')" using s by (simp add: d)
  show "bookings (world_db w') = bookings (world_db w) \<and> balance (world_db w') = balance (world_db w)
      \<or> bookings (world_db w) k = None \<and> (\<exists>txid. bookings (world_db w') = (bookings (world_db w))(k \<mapsto> (txid, fp)))
          \<and> balance (world_db w') = after_transfer i (balance (world_db w))"
    using s unfolding d k_def fp_def moved_by_def after_transfer_def transfer_request_def by auto
  show "r = Inr out \<Longrightarrow> \<exists>fp'. bookings (world_db w') k = Some (tx_ID (out_Transaction out), fp') \<and> (fp' = fp \<or> fp' = [])"
    and "r = Inr out \<Longrightarrow> \<not> out_Replayed out \<Longrightarrow> bookings (world_db w) k = None"
    using s unfolding d k_def fp_def by auto
qed

section \<open>Retries\<close>

text \<open>A call with everything its environment decides: what happened to Redis before it, the Redis
  client, the driver's answers, the request context and clock, and the input.\<close>

record 's call =
  c_gap :: "'s \<Rightarrow> 's"
  c_redis :: "'s redis_client"
  c_ex :: exec_env
  c_rd :: read_env
  c_ctx :: req_ctx
  c_now :: instant
  c_input :: TransferInput

definition run_call ::
    "uc_libs \<Rightarrow> libs \<Rightarrow> LedgerRepo \<Rightarrow> RedisIdempotencyStore \<Rightarrow> 's call \<Rightarrow> 's transfer_world \<Rightarrow> 's transfer_world \<times> TransferOutput result" where
  "run_call U L r st c w =
     Execute U (ledger_port L r (c_ex c) (c_rd c)) (redis_port (c_redis c) st) (c_ctx c) (c_now c) (c_input c)
       (w\<lparr>tw_redis := c_gap c (tw_redis w)\<rparr>)"

fun run_calls ::
    "uc_libs \<Rightarrow> libs \<Rightarrow> LedgerRepo \<Rightarrow> RedisIdempotencyStore \<Rightarrow> 's call list \<Rightarrow> 's transfer_world
      \<Rightarrow> 's transfer_world \<times> TransferOutput result list" where
  "run_calls U L r st [] w = (w, [])"
| "run_calls U L r st (c # cs) w =
     (case run_call U L r st c w of (w1, x) \<Rightarrow> case run_calls U L r st cs w1 of (w2, xs) \<Rightarrow> (w2, x # xs))"

text \<open>A retry of the operation named by a tenant and a key.\<close>

definition retry_of :: "string \<times> string \<Rightarrow> 's call \<Rightarrow> bool" where
  "retry_of k c \<longleftrightarrow> (ti_TenantID (c_input c), ti_IdempotencyKey (c_input c)) = k \<and> quiet (c_ex c)
     \<and> amount_in (ti_Amount (c_input c))"

definition retried :: "string \<times> string \<Rightarrow> TransferInput list \<Rightarrow> db \<Rightarrow> db \<Rightarrow> bool" where
  "retried k inputs d d' \<longleftrightarrow> db_ok d' \<and>
     (balance d' = balance d \<and> bookings d' = bookings d
      \<or> bookings d k = None \<and> bookings d' k \<noteq> None \<and> (\<exists>i \<in> set inputs. balance d' = after_transfer i (balance d)))"

lemma run_call_step:
  assumes "apd_lib (lib_apd L)" "retry_of k c" "db_ok (world_db w)" "run_call U L r st c w = (w', x)"
  shows "retried k [c_input c] (world_db w) (world_db w')"
    and "bookings (world_db w) k = Some b \<Longrightarrow> bookings (world_db w') k = Some b"
    and "x = Inr out \<Longrightarrow> \<exists>fp. bookings (world_db w') k = Some (tx_ID (out_Transaction out), fp)"
proof -
  have q: "quiet (c_ex c)" "amount_in (ti_Amount (c_input c))"
    and k: "k = (ti_TenantID (c_input c), ti_IdempotencyKey (c_input c))" using assms(2) by (auto simp: retry_of_def)
  have db: "db_ok (world_db (w\<lparr>tw_redis := c_gap c (tw_redis w)\<rparr>))" using assms(3) by simp
  note e = Execute_effect [OF assms(1) q(1) db q(2) assms(4) [unfolded run_call_def]]
  show "retried k [c_input c] (world_db w) (world_db w')" using e(1,2) unfolding k retried_def by auto
  show "bookings (world_db w') k = Some b" if "bookings (world_db w) k = Some b" using e(2) that unfolding k by auto
  show "\<exists>fp. bookings (world_db w') k = Some (tx_ID (out_Transaction out), fp)" if "x = Inr out"
    using e(3) [OF that] unfolding k by auto
qed

lemma retried_trans:
  assumes "retried k is d d1" "retried k js d1 d2" shows "retried k (is @ js) d d2"
  using assms unfolding retried_def by (auto simp: Bex_def)

lemma run_calls_retried:
  assumes "apd_lib (lib_apd L)" "list_all (retry_of k) cs" "db_ok (world_db w)" "run_calls U L r st cs w = (w', xs)"
  shows "retried k (map c_input cs) (world_db w) (world_db w')
    \<and> (\<forall>out. Inr out \<in> set xs \<longrightarrow> (\<exists>fp. bookings (world_db w') k = Some (tx_ID (out_Transaction out), fp)))
    \<and> (\<forall>b. bookings (world_db w) k = Some b \<longrightarrow> bookings (world_db w') k = Some b)"
  using assms(2-4)
proof (induction cs arbitrary: w w' xs)
  case Nil
  then show ?case by (simp add: retried_def)
next
  case (Cons c cs)
  obtain w1 x where 1: "run_call U L r st c w = (w1, x)" by (rule prod.exhaust)
  obtain w2 ys where 2: "run_calls U L r st cs w1 = (w2, ys)" by (rule prod.exhaust)
  have e: "w' = w2" "xs = x # ys" using Cons.prems(3) 1 2 by auto
  have c: "retry_of k c" "list_all (retry_of k) cs" using Cons.prems(1) by simp_all
  note s = run_call_step [OF assms(1) c(1) Cons.prems(2) 1]
  have "db_ok (world_db w1)" using s(1) by (simp add: retried_def)
  note IH = Cons.IH [OF c(2) this 2]
  have "retried k (map c_input (c # cs)) (world_db w) (world_db w2)"
    using retried_trans [OF s(1), of "map c_input cs"] IH by simp
  then show ?case unfolding e using IH s(2,3) by fastforce
qed

section \<open>Fresh answers, replays and failures\<close>

lemma fresh_inner:
  assumes "executeAndReplayOnDup U (ledger_port L r0 ex rd) ctx now i fp w = (w', Inr out)" "\<not> out_Replayed out"
  shows "\<exists>payload envelope. ExecuteTransfer L r0 ex (transfer_request i fp payload envelope) (tw_ledger w)
    = (tw_ledger w', Inr (out_Transaction out))"
  using assms by (force simp: executeAndReplayOnDup_def replay_def ledger_port_def split: prod.splits sum.splits if_splits)

lemma fresh_execute:
  assumes "Execute U (ledger_port L r0 ex rd) (redis_port R st) ctx now i w = (w', Inr out)" "\<not> out_Replayed out"
  shows "validateTransferInput (ul_apd U) i = None
    \<and> AssertBalanced (ul_apd U) (buildPreflightTransaction (ul_apd U) i) = None
    \<and> (\<exists>payload envelope. ExecuteTransfer L r0 ex (transfer_request i (TransferFingerprint U i) payload envelope) (tw_ledger w)
        = (tw_ledger w', Inr (out_Transaction out)))"
proof -
  let ?k = "scopedIdempotencyKey (ti_TenantID i) (ti_IdempotencyKey i)" and ?fp = "TransferFingerprint U i"
  let ?lp = "ledger_port L r0 ex rd"
  have v: "validateTransferInput (ul_apd U) i = None" "AssertBalanced (ul_apd U) (buildPreflightTransaction (ul_apd U) i) = None"
    using assms(1) by (auto simp: Execute_def split: option.splits)
  obtain s acq cur e where a: "ris_Acquire R st (tw_redis w) ?k ?fp = (s, acq, cur, e)" by (metis prod_cases4)
  let ?w = "w\<lparr>tw_redis := s\<rparr>"
  obtain w2 r2 where x: "executeAndReplayOnDup U ?lp ctx now i ?fp ?w = (w2, r2)" by (rule prod.exhaust)
  have nr: "replay ?lp (ti_TenantID i) (ti_IdempotencyKey i) ?fp ?w \<noteq> (v, Inr out)" for v
    using assms(2) by (auto simp: replay_def split: prod.splits sum.splits if_splits)
  have "r2 = Inr out \<and> tw_ledger w' = tw_ledger w2"
    using assms(1) v a x nr
    by (cases e; cases acq) (auto simp: Execute_def Let_def redis_port_def split: prod.splits sum.splits if_splits)
  with v x fresh_inner [of U L r0 ex rd ctx now i ?fp ?w w2 out] assms(2) show ?thesis by simp
qed

text \<open>A slot that is held decides the call without touching the ledger, unless it is COMPLETED.\<close>

lemma Execute_held:
  assumes "validateTransferInput (ul_apd U) i = None"
    and "AssertBalanced (ul_apd U) (buildPreflightTransaction (ul_apd U) i) = None"
    and "ris_Acquire R st (tw_redis w) (scopedIdempotencyKey (ti_TenantID i) (ti_IdempotencyKey i)) (TransferFingerprint U i)
      = (s, False, \<lparr>rec_State = state, rec_Fingerprint = TransferFingerprint U i\<rparr>, None)"
    and "state \<in> {IdempotencyCompleted, IdempotencyFailed, IdempotencyStarted}"
  shows "Execute U (ledger_port L r0 ex rd) (redis_port R st) ctx now i w =
    (if state = IdempotencyCompleted
     then replay (ledger_port L r0 ex rd) (ti_TenantID i) (ti_IdempotencyKey i) (TransferFingerprint U i) (w\<lparr>tw_redis := s\<rparr>)
     else (w\<lparr>tw_redis := s\<rparr>, Err (if state = IdempotencyFailed then ErrIdempotencyKeyFailed else ErrTransferInFlight)))"
proof -
  have "IdempotencyFailed \<noteq> IdempotencyCompleted" "IdempotencyFailed \<noteq> IdempotencyStarted"
    "IdempotencyStarted \<noteq> IdempotencyCompleted" by (simp_all add: status_consts)
  with assms show ?thesis by (auto simp: Execute_def Let_def redis_port_def)
qed

section \<open>The fingerprint\<close>

text \<open>\<open>uuid.UUID.String\<close> is injective and its text has no pipe.\<close>

definition uuid_lib :: "(UUID \<Rightarrow> string) \<Rightarrow> bool" where
  "uuid_lib ustr \<longleftrightarrow> inj ustr \<and> (\<forall>u. CHR ''|'' \<notin> set (ustr u))"

lemma nat_digits_no: "CHR ''|'' \<notin> set (nat_digits n)" "CHR ''|'' \<notin> set (digits4 n)"
proof -
  have "\<not> is_digit CHR ''|''" by (simp add: is_digit_def)
  then show "CHR ''|'' \<notin> set (nat_digits n)" "CHR ''|'' \<notin> set (digits4 n)"
    using nat_digits_digits [of n] digits4_digits [of n] by (auto simp: list_all_iff)
qed

lemma dec4_no_pipe: "CHR ''|'' \<notin> set (dec4_text neg n)"
  by (simp add: dec4_text_def numeral_text_def nat_digits_no)

lemma dec4_inj: "dec4_text neg n = dec4_text neg' n' \<Longrightarrow> neg = neg' \<and> n = n'"
  by (drule arg_cong [of _ _ ref_SetString]) (simp add: ref_SetString_dec4)

lemma currency_no_pipe: "Currency_Valid c \<Longrightarrow> CHR ''|'' \<notin> set c"
proof
  assume v: "Currency_Valid c" and "CHR ''|'' \<in> set c"
  then obtain j where j: "j < length c" "c ! j = CHR ''|''" by (auto simp: in_set_conv_nth)
  from v have "length c = 3" by (simp add: Currency_Valid_def split: if_splits)
  with v j show False by (force simp: Currency_Valid_def list_all_iff Let_def less_char_def split: if_splits)
qed

lemma key_no_sep: "idempotencyKeyAllowed k \<Longrightarrow> CHR ''|'' \<notin> set k \<and> CHR '':'' \<notin> set k"
  by (auto simp: idempotencyKeyAllowed_def list_all_iff key_char_def)

definition well_formed_input :: "apd \<Rightarrow> TransferInput \<Rightarrow> bool" where
  "well_formed_input A i \<longleftrightarrow> validateTransferInput A i = None \<and> at_scale (ti_Amount i)"

lemma well_formed_fields:
  assumes "well_formed_input A i"
  shows "idempotencyKeyAllowed (ti_IdempotencyKey i)" "Currency_Valid (ti_Currency i)" "at_scale (ti_Amount i)"
  using assms by (auto simp: well_formed_input_def validateTransferInput_def split: if_splits)

lemma canonical_body_inj:
  assumes "apd_lib (ul_apd U)" "uuid_lib (ul_ustr U)" "well_formed_input (ul_apd U) i" "well_formed_input (ul_apd U) j"
    and "canonical_body U i = canonical_body U j"
  shows "i = j"
proof -
  let ?s = "\<lambda>i. Amount_String (ul_apd U) (ti_Amount i)"
  have fields: "CHR ''|'' \<notin> set (ti_IdempotencyKey x) \<and> CHR ''|'' \<notin> set (ti_Currency x) \<and> CHR ''|'' \<notin> set (?s x)
      \<and> ?s x = dec4_text (Negative (ti_Amount x)) (Coeff (ti_Amount x))"
    if "well_formed_input (ul_apd U) x" for x
    using well_formed_fields [OF that] key_no_sep currency_no_pipe apd_lib.String_at_scale [OF assms(1)] dec4_no_pipe by auto
  have u: "CHR ''|'' \<notin> set (ul_ustr U x)" "ul_ustr U x = ul_ustr U y \<Longrightarrow> x = y" for x y
    using assms(2) by (auto simp: uuid_lib_def dest: injD)
  have split: "canonical_body U x = ((((ti_TenantID x @ CHR ''|'' # ul_ustr U (ti_FromAccountID x)) @ CHR ''|'' # ul_ustr U (ti_ToAccountID x))
      @ CHR ''|'' # ?s x) @ CHR ''|'' # ti_Currency x) @ CHR ''|'' # ti_IdempotencyKey x" for x
    by (simp add: canonical_body_def)
  note si = separated_inj_right [where c = "CHR ''|''"]
  from assms(5) [unfolded split] have "ti_IdempotencyKey i = ti_IdempotencyKey j" "ti_Currency i = ti_Currency j"
    "?s i = ?s j" "ul_ustr U (ti_ToAccountID i) = ul_ustr U (ti_ToAccountID j)"
    "ul_ustr U (ti_FromAccountID i) = ul_ustr U (ti_FromAccountID j)" "ti_TenantID i = ti_TenantID j"
    using fields [OF assms(3)] fields [OF assms(4)] u(1) by (blast dest: si)+
  moreover from this have "ti_Amount i = ti_Amount j"
    using fields [OF assms(3)] fields [OF assms(4)] well_formed_fields(3) [OF assms(3)] well_formed_fields(3) [OF assms(4)]
      dec4_inj by (metis (full_types) at_scale_def decimal.equality unit.exhaust)
  ultimately show ?thesis using u(2) by simp
qed

section \<open>Properties\<close>

text \<open>C7: retries move money at most once. Whatever sequence of \<open>Execute\<close> calls is made for one tenant
  and idempotency key, with the same or different bodies, with any faults of PostgreSQL (lost
  acknowledgements included) and any behaviour of Redis during and between the calls: either no
  balance changes, or the balances end as if exactly one of the requests had been executed once,
  and then the key was not booked before; the ledger stays well formed, and all successful
  answers name the same transaction.\<close>

theorem retries_move_money_once:
  assumes "apd_lib (lib_apd L)" "list_all (retry_of k) cs" "db_ok (world_db w)" "run_calls U L r st cs w = (w', xs)"
  shows "db_ok (world_db w')
    \<and> (balance (world_db w') = balance (world_db w)
       \<or> bookings (world_db w) k = None
           \<and> (\<exists>c \<in> set cs. balance (world_db w') = after_transfer (c_input c) (balance (world_db w))))
    \<and> (\<forall>out out'. Inr out \<in> set xs \<longrightarrow> Inr out' \<in> set xs \<longrightarrow> tx_ID (out_Transaction out) = tx_ID (out_Transaction out'))"
proof -
  note r = run_calls_retried [OF assms]
  have "tx_ID (out_Transaction out) = tx_ID (out_Transaction out')" if o: "Inr out \<in> set xs" "Inr out' \<in> set xs" for out out'
  proof -
    obtain fp fp' where "bookings (world_db w') k = Some (tx_ID (out_Transaction out), fp)"
      "bookings (world_db w') k = Some (tx_ID (out_Transaction out'), fp')" using r o by blast
    then show ?thesis by simp
  qed
  moreover have "db_ok (world_db w') \<and> (balance (world_db w') = balance (world_db w)
       \<or> bookings (world_db w) k = None
           \<and> (\<exists>c \<in> set cs. balance (world_db w') = after_transfer (c_input c) (balance (world_db w))))"
    using conjunct1 [OF r] by (auto simp: retried_def)
  ultimately show ?thesis by blast
qed

text \<open>C29: a key cannot be reused for another request. When a transaction with another fingerprint is
  booked under the tenant's key, \<open>Execute\<close> never answers with it and changes neither balances nor
  bookings, whatever Redis says and whatever fails.\<close>

theorem key_reuse_rejected:
  assumes "apd_lib (lib_apd L)" "quiet ex" "db_ok (world_db w)" "amount_in (ti_Amount i)"
    and "bookings (world_db w) (ti_TenantID i, ti_IdempotencyKey i) = Some (txid, fp)"
    and "fp \<noteq> []" "fp \<noteq> TransferFingerprint U i"
    and "Execute U (ledger_port L r0 ex rd) (redis_port R st) ctx now i w = (w', res)"
  shows "(\<exists>e. res = Inl e) \<and> balance (world_db w') = balance (world_db w) \<and> bookings (world_db w') = bookings (world_db w)"
proof -
  note e = Execute_effect [OF assms(1-4,8)]
  have same: "balance (world_db w') = balance (world_db w) \<and> bookings (world_db w') = bookings (world_db w)"
    using e(2) assms(5) by (elim disjE conjE) simp_all
  have "res \<noteq> Inr out" for out
  proof
    assume "res = Inr out"
    from e(3) [OF this] assms(5-7) show False by (simp add: same)
  qed
  with same show ?thesis by (cases res) auto
qed

text \<open>C30: the idempotency slot and the fingerprint identify the request. For inputs that pass
  validation, equal Redis keys mean the same tenant and idempotency key, and equal fingerprints
  mean equal requests in every field, unless SHA-256 collides; tenants may contain the
  separators.\<close>

theorem fingerprint_identifies:
  assumes "apd_lib (ul_apd U)" "uuid_lib (ul_ustr U)" "well_formed_input (ul_apd U) i" "well_formed_input (ul_apd U) j"
  shows "(TransferFingerprint U i = TransferFingerprint U j \<longrightarrow> i = j \<or> sha256_collision (canonical_body U i) (canonical_body U j))
    \<and> (scopedIdempotencyKey (ti_TenantID i) (ti_IdempotencyKey i) = scopedIdempotencyKey (ti_TenantID j) (ti_IdempotencyKey j)
        \<longrightarrow> ti_TenantID i = ti_TenantID j \<and> ti_IdempotencyKey i = ti_IdempotencyKey j)"
proof (intro conjI impI)
  assume "TransferFingerprint U i = TransferFingerprint U j"
  then have "sha256 (canonical_body U i) = sha256 (canonical_body U j)"
    unfolding TransferFingerprint_def by (rule hex_EncodeToString_inj)
  then show "i = j \<or> sha256_collision (canonical_body U i) (canonical_body U j)"
    using sha256_eqD canonical_body_inj [OF assms] by blast
next
  assume "scopedIdempotencyKey (ti_TenantID i) (ti_IdempotencyKey i) = scopedIdempotencyKey (ti_TenantID j) (ti_IdempotencyKey j)"
  then have "ti_TenantID i @ CHR '':'' # ti_IdempotencyKey i = ti_TenantID j @ CHR '':'' # ti_IdempotencyKey j"
    by (simp add: scopedIdempotencyKey_def)
  with key_no_sep [OF well_formed_fields(1) [OF assms(3)]] key_no_sep [OF well_formed_fields(1) [OF assms(4)]]
  show "ti_TenantID i = ti_TenantID j" "ti_IdempotencyKey i = ti_IdempotencyKey j"
    using separated_inj_right by blast+
qed

text \<open>C31: a completed transfer is replayed. After a fresh success whose COMPLETED record reached Redis,
  the same request (in any later context and with any driver that answers the reads) gets the same
  transaction back, flagged as replayed and with instants cut to microseconds, and the ledger is
  not touched.\<close>

theorem completed_transfer_replays:
  assumes "apd_lib (lib_apd L)" "quiet ex" "db_ok (world_db w)" "amount_in (ti_Amount i)" "ex_ids ex 1 \<le> ex_ids ex 2"
    and "redis_lib R peek" "\<forall>s. peek (redis_gap R s) = peek s"
    and "Execute U (ledger_port L r0 ex rd) (redis_port R st) ctx now i w = (w1, Inr out)" "\<not> out_Replayed out"
    and "slot peek st (tw_redis w1) (scopedIdempotencyKey (ti_TenantID i) (ti_IdempotencyKey i))
      = Some \<lparr>rec_State = IdempotencyCompleted, rec_Fingerprint = TransferFingerprint U i\<rparr>"
    and "ris_Acquire R st (tw_redis w1) (scopedIdempotencyKey (ti_TenantID i) (ti_IdempotencyKey i)) (TransferFingerprint U i)
      = (s2, acq, cur, None)" "read_ok rd2"
  shows "Execute U (ledger_port L r0 ex2 rd2) (redis_port R st) ctx2 now2 i w1
    = (w1\<lparr>tw_redis := s2\<rparr>, Inr \<lparr>out_Transaction = stored_tx (out_Transaction out), out_Replayed = True\<rparr>)"
proof -
  let ?fp = "TransferFingerprint U i"
  obtain payload envelope where v: "validateTransferInput (ul_apd U) i = None"
    "AssertBalanced (ul_apd U) (buildPreflightTransaction (ul_apd U) i) = None"
    and x: "ExecuteTransfer L r0 ex (transfer_request i ?fp payload envelope) (tw_ledger w) = (tw_ledger w1, Inr (out_Transaction out))"
    using fresh_execute [OF assms(8,9)] by blast
  let ?req = "transfer_request i ?fp payload envelope"
  have req: "tr_TenantID ?req = ti_TenantID i" "tr_IdempotencyKey ?req = ti_IdempotencyKey i" "tr_Amount ?req = ti_Amount i"
    by (simp_all add: transfer_request_def)
  have q: "at_before (ex_attempts ex n) d = d" for n d using assms(2) by (simp add: quiet_def)
  have am: "amount_in (tr_Amount ?req)" using assms(4) by (simp add: req)
  from ExecuteTransfer_once [OF assms(1) am q x] have t: "out_Transaction out = build_transaction (lib_apd L) ex ?req"
    "transferred (lib_apd L) ex ?req (world_db w) (world_db w1)" by auto
  have sc: "at_scale (tr_Amount ?req)" "0 < units (tr_Amount ?req)"
    using ExecuteTransfer_ok [OF assms(1) am assms(3) _ x] q by auto
  have ne: "tr_TenantID ?req \<noteq> []" "tr_IdempotencyKey ?req \<noteq> []"
    using v(1) by (auto simp: req validateTransferInput_def split: if_splits)
  from read_back [OF assms(1,3) t(2) sc ne assms(5,12)]
  have g: "GetTransactionByIdempotencyKey (lib_apd L) rd2 (ti_TenantID i) (ti_IdempotencyKey i) (world_db w1) = Inr (stored_tx (out_Transaction out))"
    by (simp add: req t(1))
  have fp: "tx_RequestFingerprint (stored_tx (out_Transaction out)) = ?fp" by (simp add: t(1) stored_tx_def tx_build transfer_request_def)
  have "\<not> acq" "cur = \<lparr>rec_State = IdempotencyCompleted, rec_Fingerprint = ?fp\<rparr>"
    using redis_lib.Acquire_held [OF assms(6,11,10)] redis_lib.Acquire_sees [OF assms(6,11,10,7)] by auto
  with Execute_held [OF v, of R st w1 s2 IdempotencyCompleted] assms(11) g fp show ?thesis
    by (simp add: replay_def ledger_port_def)
qed


section \<open>Witnesses\<close>

definition sample_uc :: uc_libs where
  "sample_uc = \<lparr>ul_apd = apd_ref, ul_ustr = (\<lambda>u. hex_EncodeToString (uuid_bytes u)), ul_marshal = (\<lambda>m. Inr ''m'')\<rparr>"

definition sample_input :: TransferInput where
  "sample_input = \<lparr>ti_TenantID = ''t'', ti_IdempotencyKey = ''k'', ti_FromAccountID = 1, ti_ToAccountID = 2,
     ti_Amount = sample_amount, ti_Currency = ''USD''\<rparr>"

definition sample_ctx :: req_ctx where
  "sample_ctx = background\<lparr>ctx_claims := Some \<lparr>Subject = ''alice'', Tenant = ''t'', Session = []\<rparr>, ctx_request_id := Some ''r1''\<rparr>"

definition sample_start :: "mem_redis transfer_world" where
  "sample_start = \<lparr>tw_ledger = sample_world, tw_redis = mem_empty\<rparr>"

definition sample_read :: read_env where
  "sample_read = \<lparr>rd_header = None, rd_query = None, rd_iter = None\<rparr>"

definition sample_call :: "mem_redis call" where
  "sample_call = \<lparr>c_gap = (\<lambda>s. s), c_redis = mem_client 0, c_ex = sample_ex, c_rd = sample_read, c_ctx = sample_ctx,
     c_now = 7000, c_input = sample_input\<rparr>"

lemma sample_input_facts:
  "validateTransferInput (ul_apd sample_uc) sample_input = None" "at_scale (ti_Amount sample_input)"
  "amount_in (ti_Amount sample_input)" "quiet sample_ex" "well_formed_input (ul_apd sample_uc) sample_input"
  "apd_lib (ul_apd sample_uc)" "db_ok (world_db sample_start)" "read_ok sample_read"
proof -
  have "Currency_Valid ''USD''" "key_char (CHR ''k'')" by code_simp+
  then show v: "validateTransferInput (ul_apd sample_uc) sample_input = None"
    by (simp add: validateTransferInput_def sample_uc_def sample_input_def sample_amount_def idempotencyKeyMaxLen_def
        idempotencyKeyAllowed_def Amount_IsZero_def Amount_IsNegative_def apd_ref_def ref_Sign_def)
  show "at_scale (ti_Amount sample_input)" by (simp add: sample_input_def sample_amount_def at_scale_def LedgerScale_def)
  with v show "amount_in (ti_Amount sample_input)" "well_formed_input (ul_apd sample_uc) sample_input"
    by (simp_all add: amount_in_def well_formed_input_def)
  show "quiet sample_ex" using sample_facts(4) by (simp add: quiet_def)
  show "apd_lib (ul_apd sample_uc)" by (simp add: sample_uc_def ref.apd_lib_axioms)
  show "db_ok (world_db sample_start)" using sample_facts(3) by (simp add: sample_start_def)
  show "read_ok sample_read" by (simp add: read_ok_def sample_read_def)
qed

theorem retries_move_money_once_witness:
  "\<exists>w' xs. run_calls sample_uc sample_libs sample_repo NewRedisIdempotencyStore [sample_call, sample_call] sample_start = (w', xs)
     \<and> db_ok (world_db w')
     \<and> (balance (world_db w') = balance (world_db sample_start)
        \<or> balance (world_db w') = after_transfer sample_input (balance (world_db sample_start)))"
proof -
  obtain w' xs where r: "run_calls sample_uc sample_libs sample_repo NewRedisIdempotencyStore [sample_call, sample_call] sample_start = (w', xs)"
    by (rule prod.exhaust)
  have "retry_of (''t'', ''k'') sample_call"
    using sample_input_facts(3,4) by (simp add: retry_of_def sample_call_def) (simp add: sample_input_def)
  then show ?thesis
    using retries_move_money_once [OF sample_facts(1) _ sample_input_facts(7) r, of "(''t'', ''k'')"] r
    by (auto simp: sample_call_def)
qed

lemma sample_uuid: "uuid_lib (ul_ustr sample_uc)"
proof -
  have "hex_digit n \<noteq> CHR ''|''" if "n < 16" for n
  proof
    assume "hex_digit n = CHR ''|''"
    then have "of_char (hex_digit n) = (124 :: nat)" by simp
    with that show False by (auto simp: hex_digit_def of_char_of split: if_splits)
  qed
  then have "CHR ''|'' \<notin> set (hex_EncodeToString bs)" for bs
  proof -
    have "of_char c div 16 < (16 :: nat)" for c :: char using nat_of_char_less_256 [of c] by (simp add: less_mult_imp_div_less)
    then have "CHR ''|'' \<notin> set (hex_byte c)" for c
      using \<open>\<And>n. n < 16 \<Longrightarrow> hex_digit n \<noteq> CHR ''|''\<close> [symmetric] by (simp add: hex_byte_def)
    then show ?thesis by (simp add: hex_EncodeToString_def)
  qed
  moreover have "inj (\<lambda>u. hex_EncodeToString (uuid_bytes u))"
    by (auto intro!: injI dest!: hex_EncodeToString_inj uuid_bytes_inj)
  ultimately show ?thesis by (simp add: uuid_lib_def sample_uc_def)
qed

lemma sample_other_tenant: "well_formed_input (ul_apd sample_uc) (sample_input\<lparr>ti_TenantID := ''u''\<rparr>)"
  using sample_input_facts(5) unfolding well_formed_input_def validateTransferInput_def by (auto split: if_splits)

theorem fingerprint_identifies_witness:
  "\<not> (TransferFingerprint sample_uc sample_input = TransferFingerprint sample_uc (sample_input\<lparr>ti_TenantID := ''u''\<rparr>)
      \<and> \<not> sha256_collision (canonical_body sample_uc sample_input) (canonical_body sample_uc (sample_input\<lparr>ti_TenantID := ''u''\<rparr>)))"
  using fingerprint_identifies [OF sample_input_facts(6) sample_uuid sample_input_facts(5) sample_other_tenant]
  by (auto simp: sample_input_def)

theorem key_reuse_rejected_witness:
  "\<exists>w w' res. bookings (world_db w) (''t'', ''k'') = Some (100, ''f'')
     \<and> Execute sample_uc (ledger_port sample_libs sample_repo sample_ex sample_read) (redis_port (mem_client 0) NewRedisIdempotencyStore)
          sample_ctx 7000 sample_input w = (w', res)
     \<and> (\<exists>e. res = Inl e) \<and> balance (world_db w') = balance (world_db w)"
proof -
  have q: "at_before (ex_attempts sample_ex i) d = d" for i d by (rule sample_facts(4))
  obtain l where l: "ExecuteTransfer sample_libs sample_repo sample_ex (sample_req 2) sample_world
      = (l, Inr (build_transaction apd_ref sample_ex (sample_req 2)))" using sample_run by blast
  let ?w = "sample_start\<lparr>tw_ledger := l\<rparr>"
  have "transferred apd_ref sample_ex (sample_req 2) (lw_db sample_world) (lw_db l)"
    using ExecuteTransfer_once [OF sample_facts(1,2) q l] by (simp add: sample_libs_def)
  from bookings_transferred [OF this] have b: "bookings (world_db ?w) (ti_TenantID sample_input, ti_IdempotencyKey sample_input) = Some (100, ''f'')"
    by (simp add: sample_input_def sample_req_def sample_ex_def)
  have ok: "db_ok (world_db ?w)" using ExecuteTransfer_ok [OF sample_facts(1,2,3) _ l] q by simp
  obtain w' res where x: "Execute sample_uc (ledger_port sample_libs sample_repo sample_ex sample_read)
      (redis_port (mem_client 0) NewRedisIdempotencyStore) sample_ctx 7000 sample_input ?w = (w', res)" by (rule prod.exhaust)
  have "length (TransferFingerprint sample_uc sample_input) = 64" by (simp add: TransferFingerprint_def)
  then have "''f'' \<noteq> TransferFingerprint sample_uc sample_input" by (metis length_Cons list.size(3) numeral_eq_one_iff One_nat_def semiring_norm(85))
  with key_reuse_rejected [OF sample_facts(1) sample_input_facts(4) ok sample_input_facts(3) b _ _ x]
  have "(\<exists>e. res = Inl e) \<and> balance (world_db w') = balance (world_db ?w)" by simp
  moreover have "bookings (world_db ?w) (''t'', ''k'') = Some (100, ''f'')" using b by (simp add: sample_input_def)
  ultimately show ?thesis using x by blast
qed

text \<open>The sample request as the usecase builds it, executed on a ledger that has both accounts and none
  of the ids and keys it brings.\<close>

definition sample_ready :: "ledger_world \<Rightarrow> bool" where
  "sample_ready w \<longleftrightarrow> lw_breaker w = None \<and> has_account (lw_db w) 1 ''t'' ''USD'' \<and> has_account (lw_db w) 2 ''t'' ''USD''
     \<and> \<not> key_used ''t'' ''k'' (lw_db w) \<and> fresh_ids sample_ex ''t'' ''t'' (lw_db w)"

lemma sample_world_ready: "sample_ready sample_world"
  using sample_accounts sample_storable(4) [of 2] by (simp add: sample_ready_def sample_facts sample_req_def sample_env_def)

lemma sample_request_executes:
  assumes "length fp = 64" "sample_ready w"
  shows "\<exists>l. ExecuteTransfer sample_libs sample_repo sample_ex (transfer_request sample_input fp ''m'' sample_env) w
      = (l, Inr (build_transaction apd_ref sample_ex (transfer_request sample_input fp ''m'' sample_env)))
    \<and> bookings (lw_db l) (''t'', ''k'') = Some (100, fp)"
proof -
  let ?r = "(sample_req 2)\<lparr>tr_RequestFingerprint := fp, tr_OutboxSchema := SchemaTransferCommittedV1, tr_OutboxPayload := ''m''\<rparr>"
  have r: "transfer_request sample_input fp ''m'' sample_env = ?r"
    by (simp add: transfer_request_def sample_input_def sample_req_def)
  have "Currency_Valid ''USD''" by code_simp
  then have v: "validateTransferRequest (lib_apd sample_libs) ?r = None"
    using assms(1) by (auto simp: validateTransferRequest_def sample_defs Amount_IsZero_def Amount_IsNegative_def apd_ref_def ref_Sign_def)
  note sd = canonicalTransactionAudit_def validateAuditEnvelope_def storable_def fresh_ids_def sample_defs
      audit_event_of_def AuditEnvelope.extend_def AuditEvent.fields_def AuditAggregateTransaction_def
      AuditOpTransferExecuted_def store_event_def jsonb_column_def audit_widths_def varchar_def units_def dval_def
      LedgerScale_def tx_ids_def SchemaTransferCommittedV1_def
  have s: "canonicalTransactionAudit sample_libs (build_transaction (lib_apd sample_libs) sample_ex ?r) = Inr ''{}''"
    "validateAuditEnvelope (audit_event_of ?r (build_transaction (lib_apd sample_libs) sample_ex ?r) ''{}'') = None"
    "storable sample_libs sample_ex ?r ''{}''"
    using assms(1) by (simp_all add: sd)
  have fr: "fresh_ids sample_ex (tr_TenantID ?r) (env_TenantID (tr_AuditEnvelope ?r)) (lw_db w)"
    using assms(2) by (simp add: sample_ready_def sample_req_def sample_env_def)
  have a: "amount_in (tr_Amount ?r)" "Form (tr_Amount ?r) = Finite"
    using sample_facts(2,7) [of 2] by simp_all
  have "lw_breaker w = None" using assms(2) by (simp add: sample_ready_def)
  from ExecuteTransfer_healthy [OF sample_facts(1) a(1) sample_facts(5) this v a(2) s fr, of sample_repo] assms(2)
  obtain l where l: "ExecuteTransfer sample_libs sample_repo sample_ex ?r w = (l, Inr (build_transaction apd_ref sample_ex ?r))"
    by (auto simp: transfer_outcome_def sample_req_def sample_ready_def sample_libs_def)
  with ExecuteTransfer_once [OF sample_facts(1) a(1) _ l] sample_facts(4)
  have "transferred apd_ref sample_ex ?r (lw_db w) (lw_db l)" by (simp add: sample_libs_def)
  from bookings_transferred [OF this] l show ?thesis unfolding r by (simp add: sample_req_def sample_ex_def)
qed

lemma sample_preflight: "AssertBalanced (ul_apd sample_uc) (buildPreflightTransaction (ul_apd sample_uc) sample_input) = None"
proof -
  have u: "units (ti_Amount sample_input) = 125000"
    by (simp add: sample_input_def sample_amount_def units_def dval_def LedgerScale_def)
  show ?thesis
    using sample_input_facts(2,6) apd_lib.Neg_at_scale [OF sample_input_facts(6,2)] apd_lib.units_Neg [OF sample_input_facts(6,2)]
    by (intro apd_lib.balanced_complete) (simp_all add: buildPreflightTransaction_def Let_def u)
qed

lemma sample_envelope: "EnvelopeFromContext sample_ctx 7000 = Inr sample_env"
  by (simp add: EnvelopeFromContext_def sample_ctx_def background_def ctx_defs sample_env_def Let_def)

lemma sample_call_fresh:
  assumes "EnvelopeFromContext ctx 7000 = Inr sample_env" "sample_ready (tw_ledger st)" "tw_redis st = mem_empty"
  shows "\<exists>w1 t. Execute sample_uc (ledger_port sample_libs sample_repo sample_ex sample_read) (redis_port (mem_client 0) NewRedisIdempotencyStore)
      ctx 7000 sample_input st = (w1, Inr \<lparr>out_Transaction = t, out_Replayed = False\<rparr>)
    \<and> slot mem_peek NewRedisIdempotencyStore (tw_redis w1) (scopedIdempotencyKey (ti_TenantID sample_input) (ti_IdempotencyKey sample_input))
        = Some \<lparr>rec_State = IdempotencyCompleted, rec_Fingerprint = TransferFingerprint sample_uc sample_input\<rparr>
    \<and> \<not> mem_down (tw_redis w1) \<and> bookings (world_db w1) (''t'', ''k'') = Some (100, TransferFingerprint sample_uc sample_input)"
proof -
  let ?fp = "TransferFingerprint sample_uc sample_input" and ?st = "NewRedisIdempotencyStore"
  let ?k = "scopedIdempotencyKey (ti_TenantID sample_input) (ti_IdempotencyKey sample_input)"
  have "length ?fp = 64" by (simp add: TransferFingerprint_def)
  from sample_request_executes [OF this assms(2)] obtain l t where
    x: "ExecuteTransfer sample_libs sample_repo sample_ex (transfer_request sample_input ?fp ''m'' sample_env) (tw_ledger st) = (l, Inr t)"
    and b: "bookings (lw_db l) (''t'', ''k'') = Some (100, ?fp)"
    by blast
  obtain s1 where a: "ris_Acquire (mem_client 0) ?st mem_empty ?k ?fp = (s1, True, zero_record, None)" and u1: "\<not> mem_down s1"
    by (auto simp: ris_Acquire_def mem_client_def mem_empty_def mem_peek_def Let_def scopedIdempotencyKey_def sample_input_def mem_put_def)
  obtain s2 where c: "ris_SetState (mem_client 0) ?st s1 ?k ?fp IdempotencyCompleted = (s2, None)" and u2: "\<not> mem_down s2"
    using u1 by (auto simp: ris_SetState_def mem_client_def Let_def scopedIdempotencyKey_def status_consts mem_put_def)
  have m: "MarshalTransferCommittedV1 sample_uc sample_input = Inr ''m''"
    by (simp add: MarshalTransferCommittedV1_def sample_uc_def Let_def)
  have "executeAndReplayOnDup sample_uc (ledger_port sample_libs sample_repo sample_ex sample_read) ctx 7000 sample_input ?fp
      (st\<lparr>tw_redis := s1\<rparr>) = (st\<lparr>tw_redis := s1, tw_ledger := l\<rparr>, Inr \<lparr>out_Transaction = t, out_Replayed = False\<rparr>)"
    using x by (simp add: executeAndReplayOnDup_def m assms(1) ledger_port_def)
  with a c have "Execute sample_uc (ledger_port sample_libs sample_repo sample_ex sample_read) (redis_port (mem_client 0) ?st)
      ctx 7000 sample_input st
      = (st\<lparr>tw_ledger := l, tw_redis := s2\<rparr>, Inr \<lparr>out_Transaction = t, out_Replayed = False\<rparr>)"
    using sample_input_facts(1) sample_preflight assms(3)
    by (simp add: Execute_def Let_def redis_port_def)
  moreover have "slot mem_peek ?st s2 ?k = Some \<lparr>rec_State = IdempotencyCompleted, rec_Fingerprint = ?fp\<rparr>"
    using mem.SetState_ok [OF c] by blast
  ultimately show ?thesis using u2 b by (intro exI conjI) auto
qed

lemma mem_still: "\<forall>s. mem_peek (redis_gap (mem_client 0) s) = mem_peek s"
  by (simp add: mem_client_def)

lemma mem_Acquire_up:
  assumes "\<not> mem_down s" "k \<noteq> []"
  shows "\<exists>s' acq r. ris_Acquire (mem_client 0) st s k fp = (s', acq, r, None)"
  using assms by (auto simp: ris_Acquire_def mem_client_def Let_def split: option.splits)

theorem completed_transfer_replays_witness:
  "\<exists>w1 w2 t. Execute sample_uc (ledger_port sample_libs sample_repo sample_ex sample_read) (redis_port (mem_client 0) NewRedisIdempotencyStore)
        sample_ctx 7000 sample_input sample_start = (w1, Inr \<lparr>out_Transaction = t, out_Replayed = False\<rparr>)
    \<and> Execute sample_uc (ledger_port sample_libs sample_repo sample_ex sample_read) (redis_port (mem_client 0) NewRedisIdempotencyStore)
        sample_ctx 9000 sample_input w1 = (w2, Inr \<lparr>out_Transaction = stored_tx t, out_Replayed = True\<rparr>)"
proof -
  let ?k = "scopedIdempotencyKey (ti_TenantID sample_input) (ti_IdempotencyKey sample_input)"
  obtain w1 t where f: "Execute sample_uc (ledger_port sample_libs sample_repo sample_ex sample_read)
        (redis_port (mem_client 0) NewRedisIdempotencyStore) sample_ctx 7000 sample_input sample_start
        = (w1, Inr \<lparr>out_Transaction = t, out_Replayed = False\<rparr>)"
    and sl: "slot mem_peek NewRedisIdempotencyStore (tw_redis w1) ?k
        = Some \<lparr>rec_State = IdempotencyCompleted, rec_Fingerprint = TransferFingerprint sample_uc sample_input\<rparr>"
    and up: "\<not> mem_down (tw_redis w1)"
    using sample_call_fresh [OF sample_envelope, of sample_start] sample_world_ready by (auto simp: sample_start_def)
  have "?k \<noteq> []" by (simp add: scopedIdempotencyKey_def)
  from mem_Acquire_up [OF up this] obtain s2 acq r where
    a: "ris_Acquire (mem_client 0) NewRedisIdempotencyStore (tw_redis w1) ?k (TransferFingerprint sample_uc sample_input) = (s2, acq, r, None)"
    by blast
  show ?thesis
    using completed_transfer_replays [OF sample_facts(1) sample_input_facts(4,7,3) sample_facts(8) mem.redis_lib_axioms mem_still f _ sl a
        sample_input_facts(8), of sample_ex sample_ctx 9000] f by auto
qed


end
