(* ===== verification/Transport.thy ===== *)
theory Transport
  imports Rpc Transfer_Props
begin

text \<open>
  \<open>internal/transport/grpc\<close>: the error table (\<open>errors.go\<close>), the converters between wire and
  usecase types (\<open>converters.go\<close>) and the two RPCs (\<open>ledger_handler.go\<close>).
\<close>

section \<open>Errors\<close>

definition errorMapping :: "(sentinel \<times> code) list" where
  "errorMapping =
     [(ErrInvalidCurrency, InvalidArgument), (ErrInvalidAccountStatus, InvalidArgument),
      (ErrInvalidTxStatus, InvalidArgument), (ErrInvalidOutboxStatus, InvalidArgument),
      (ErrUnbalancedTransaction, InvalidArgument), (ErrCurrencyMismatch, InvalidArgument),
      (ErrAccountClosed, FailedPrecondition), (ErrAccountFrozen, FailedPrecondition),
      (ErrAccountNotFound, NotFound), (ErrTransactionNotFound, NotFound),
      (ErrTransferInFlight, Aborted), (ErrIdempotencyKeyFailed, AlreadyExists),
      (ErrDuplicateIdempotencyKey, AlreadyExists), (ErrTenantRequired, Unauthenticated),
      (ErrAccountTenantMismatch, PermissionDenied), (ErrRequestFingerprintMismatch, FailedPrecondition),
      (ErrCircuitOpen, Unavailable), (ErrAcquireTimeout, ResourceExhausted),
      (ContextCanceled, Canceled), (ContextDeadlineExceeded, DeadlineExceeded)]"

definition asGRPCError :: "log_attrs \<Rightarrow> go_error option \<Rightarrow> 'w rpc_state \<Rightarrow> 'w rpc_state \<times> status_error option" where
  "asGRPCError lg err s =
     (case err of
        None \<Rightarrow> (s, None)
      | Some e \<Rightarrow>
          (case find (\<lambda>(target, c). errors_Is e target) errorMapping of
             Some (target, c) \<Rightarrow> (s, Some (status_Error c (ErrorText e)))
           | None \<Rightarrow> (log_at LevelError lg ''unhandled error in gRPC transport'' (Some (ErrorText e)) s,
                      Some (status_Error Internal (Text ''internal error'')))))"

section \<open>Wire types and converters\<close>

record pb_TransferRequest =
  pbr_IdempotencyKey :: string
  pbr_FromAccountId :: string
  pbr_ToAccountId :: string
  pbr_Amount :: string
  pbr_Currency :: string

type_synonym pb_Timestamp = "int \<times> int"

record pb_JournalEntry =
  pbj_Id :: string
  pbj_TransactionId :: string
  pbj_AccountId :: string
  pbj_Amount :: string
  pbj_Currency :: string
  pbj_CreatedAt :: pb_Timestamp

record pb_Transaction =
  pbt_Id :: string
  pbt_IdempotencyKey :: string
  pbt_Status :: string
  pbt_CreatedAt :: pb_Timestamp
  pbt_Entries :: "pb_JournalEntry list"

record pb_TransferResponse =
  resp_Transaction :: "pb_Transaction option"
  resp_Replayed :: bool

text \<open>The packages the transport calls: decimals, \<open>uuid.Parse\<close> and \<open>String\<close>, \<open>timestamppb.New\<close>
  and \<open>status.WithDetails\<close> (which may fail).\<close>

record transport_libs =
  tl_apd :: apd
  tl_uuid_Parse :: "string \<Rightarrow> UUID result"
  tl_uuid_String :: "UUID \<Rightarrow> string"
  tl_timestamp :: "instant \<Rightarrow> pb_Timestamp"
  tl_WithDetails :: "status_error \<Rightarrow> (string \<times> string) list \<Rightarrow> status_error result"

definition fieldViolation :: "transport_libs \<Rightarrow> string \<Rightarrow> string \<Rightarrow> status_error" where
  "fieldViolation L field description =
     (let st = status_Error InvalidArgument (Text (''invalid request: '' @ field @ '': '' @ description))
      in case tl_WithDetails L st [(field, description)] of Inl err \<Rightarrow> st | Inr det \<Rightarrow> det)"

definition parseUUID :: "transport_libs \<Rightarrow> string \<Rightarrow> string \<Rightarrow> status_error + UUID" where
  "parseUUID L field raw =
     (case tl_uuid_Parse L raw of
        Inl err \<Rightarrow> Inl (fieldViolation L field ''must be a valid UUID'')
      | Inr u \<Rightarrow> Inr u)"

definition parseAmount :: "transport_libs \<Rightarrow> string \<Rightarrow> string \<Rightarrow> status_error + Amount" where
  "parseAmount L field raw =
     (case NewAmount (tl_apd L) raw of
        Inl err \<Rightarrow> Inl (fieldViolation L field (''must be a decimal string (e.g. '' @ [CHR 0x22] @ ''100.0000'' @ [CHR 0x22] @ '')''))
      | Inr a \<Rightarrow> Inr a)"

definition transferRequestFromPB :: "transport_libs \<Rightarrow> pb_TransferRequest option \<Rightarrow> status_error + TransferInput" where
  "transferRequestFromPB L req =
     (case req of
        None \<Rightarrow> Inl (status_Error InvalidArgument (Text ''request is required''))
      | Some q \<Rightarrow>
     (case parseUUID L ''from_account_id'' (pbr_FromAccountId q) of
        Inl err \<Rightarrow> Inl err
      | Inr from \<Rightarrow>
     (case parseUUID L ''to_account_id'' (pbr_ToAccountId q) of
        Inl err \<Rightarrow> Inl err
      | Inr to \<Rightarrow>
     (case parseAmount L ''amount'' (pbr_Amount q) of
        Inl err \<Rightarrow> Inl err
      | Inr amount \<Rightarrow>
          Inr \<lparr>ti_TenantID = [], ti_IdempotencyKey = pbr_IdempotencyKey q, ti_FromAccountID = from, ti_ToAccountID = to,
               ti_Amount = amount, ti_Currency = pbr_Currency q\<rparr>))))"

definition entryToPB :: "transport_libs \<Rightarrow> JournalEntry \<Rightarrow> pb_JournalEntry" where
  "entryToPB L e =
     \<lparr>pbj_Id = tl_uuid_String L (je_ID e), pbj_TransactionId = tl_uuid_String L (je_TransactionID e),
      pbj_AccountId = tl_uuid_String L (je_AccountID e), pbj_Amount = Amount_String (tl_apd L) (je_Amount e),
      pbj_Currency = je_Currency e, pbj_CreatedAt = tl_timestamp L (je_CreatedAt e)\<rparr>"

definition transactionToPB :: "transport_libs \<Rightarrow> Transaction option \<Rightarrow> pb_Transaction option" where
  "transactionToPB L tx =
     (case tx of
        None \<Rightarrow> None
      | Some t \<Rightarrow>
          Some \<lparr>pbt_Id = tl_uuid_String L (tx_ID t), pbt_IdempotencyKey = tx_IdempotencyKey t, pbt_Status = tx_Status t,
                pbt_CreatedAt = tl_timestamp L (tx_CreatedAt t), pbt_Entries = map (entryToPB L) (tx_Entries t)\<rparr>)"

section \<open>The handler\<close>

text \<open>The usecase the handler holds is given by its packages and ports.\<close>

record 'w LedgerHandler =
  lh_libs :: transport_libs
  lh_uc :: uc_libs
  lh_uc_ledger :: "'w LedgerRepository"
  lh_uc_idem :: "'w IdempotencyStore"
  lh_ledger :: "'w LedgerRepository"
  lh_log :: log_attrs

definition NewLedgerHandler ::
    "transport_libs \<Rightarrow> uc_libs \<Rightarrow> 'w LedgerRepository \<Rightarrow> 'w IdempotencyStore \<Rightarrow> 'w LedgerRepository \<Rightarrow> log_attrs option
      \<Rightarrow> 'w LedgerHandler" where
  "NewLedgerHandler L U ucl uci ledger lg =
     \<lparr>lh_libs = L, lh_uc = U, lh_uc_ledger = ucl, lh_uc_idem = uci, lh_ledger = ledger,
      lh_log = (case lg of None \<Rightarrow> [] | Some l \<Rightarrow> l)\<rparr>"

definition MetadataKeyReplayed :: string where "MetadataKeyReplayed = ''x-idempotent-replayed''"

definition grpcSetTrailer :: "string \<Rightarrow> string \<Rightarrow> 'w rpc_state \<Rightarrow> 'w rpc_state" where
  "grpcSetTrailer key v s = SetTrailer key v s"

definition tenantFromClaims :: "req_ctx \<Rightarrow> string" where
  "tenantFromClaims ctx = (case ClaimsFromContext ctx of None \<Rightarrow> [] | Some c \<Rightarrow> Tenant c)"

text \<open>The error return of a handler, once translated.\<close>

definition failWith :: "'w rpc_state \<times> status_error option \<Rightarrow> 'w rpc_state \<times> (status_error + 'r)" where
  "failWith x = (fst x, Inl (the (snd x)))"

definition Transfer :: "'w LedgerHandler \<Rightarrow> instant \<Rightarrow> req_ctx \<Rightarrow> pb_TransferRequest option \<Rightarrow> 'w rpc_state
    \<Rightarrow> 'w rpc_state \<times> (status_error + pb_TransferResponse)" where
  "Transfer h now ctx req s =
     (case transferRequestFromPB (lh_libs h) req of
        Inl err \<Rightarrow> (s, Inl err)
      | Inr inp \<Rightarrow>
        let tenant = tenantFromClaims ctx
        in if tenant = [] then (s, Inl (status_Error Unauthenticated (Text ''missing or empty tenant claim'')))
           else
             (case Execute (lh_uc h) (lh_uc_ledger h) (lh_uc_idem h) ctx now (inp\<lparr>ti_TenantID := tenant\<rparr>) (rs_world s) of
                (w, Inl err) \<Rightarrow> failWith (asGRPCError (lh_log h) (Some err) (s\<lparr>rs_world := w\<rparr>))
              | (w, Inr out) \<Rightarrow>
                  let s1 = s\<lparr>rs_world := w\<rparr>;
                      s2 = (if out_Replayed out then grpcSetTrailer MetadataKeyReplayed ''true'' s1 else s1)
                  in (s2, Inr \<lparr>resp_Transaction = transactionToPB (lh_libs h) (Some (out_Transaction out)),
                               resp_Replayed = out_Replayed out\<rparr>)))"

text \<open>The request of \<open>GetTransaction\<close> is its id field; its response is the transaction.\<close>

definition GetTransactionRPC :: "'w LedgerHandler \<Rightarrow> req_ctx \<Rightarrow> string option \<Rightarrow> 'w rpc_state
    \<Rightarrow> 'w rpc_state \<times> (status_error + pb_Transaction option)" where
  "GetTransactionRPC h ctx req s =
     (case req of
        None \<Rightarrow> failWith (asGRPCError (lh_log h) (Some (Sentinel ErrTransactionNotFound)) s)
      | Some raw \<Rightarrow>
     (case parseUUID (lh_libs h) ''id'' raw of
        Inl err \<Rightarrow> (s, Inl err)
      | Inr u \<Rightarrow>
     (case port_GetTransaction (lh_ledger h) u (rs_world s) of
        (w, Inl err) \<Rightarrow> failWith (asGRPCError (lh_log h) (Some err) (s\<lparr>rs_world := w\<rparr>))
      | (w, Inr tx) \<Rightarrow> (s\<lparr>rs_world := w\<rparr>, Inr (transactionToPB (lh_libs h) (Some tx))))))"

end
