(* ===== verification/Transport_Props.thy ===== *)
theory Transport_Props
  imports Transport
begin

text \<open>
  What the two RPCs promise: a transfer acts only for the tenant of the caller's claims, the wire
  form of a transaction loses nothing but tenant and fingerprint, and a failure discloses the text
  of an error only when the error table maps it.
\<close>

section \<open>The packages\<close>

text \<open>Documented behaviour of the wire packages: \<open>uuid.Parse\<close> reads what \<open>String\<close> writes,
  \<open>timestamppb.New\<close> splits an instant into seconds and nanoseconds, \<open>WithDetails\<close> keeps the code
  and the message.\<close>

definition wire_libs :: "transport_libs \<Rightarrow> bool" where
  "wire_libs L \<longleftrightarrow> (\<forall>u. tl_uuid_Parse L (tl_uuid_String L u) = Inr u)
     \<and> (\<forall>t. tl_timestamp L t = (t div Second, t mod Second))
     \<and> (\<forall>st ds st'. tl_WithDetails L st ds = Inr st' \<longrightarrow> st_Code st' = st_Code st \<and> st_Message st' = st_Message st)"

section \<open>Parsed amounts\<close>

lemma NewAmount_in: "apd_lib A \<Longrightarrow> NewAmount A s = Inr a \<Longrightarrow> amount_in a"
proof -
  assume A: "apd_lib A" and n: "NewAmount A s = Inr a"
  then obtain d where d: "Form d = Finite" "LedgerScale \<le> Exponent d" and q: "apd_Quantize A ledgerCtx d LedgerScale = (a, None)"
    by (auto simp: NewAmount_def split: sum.splits if_splits prod.splits option.splits)
  show "amount_in a"
  proof (cases "Coeff d * 10 ^ nat (Exponent d - LedgerScale) < 10 ^ Precision ledgerCtx")
    case True
    with apd_lib.Quantize_exact [OF A d True] q show ?thesis by (auto simp: amount_in_def at_scale_def)
  next
    case False
    with apd_lib.Quantize_invalid [OF A d] q show ?thesis by (auto simp: amount_in_def)
  qed
qed

lemma NewAmount_String:
  assumes "apd_lib A" "at_scale a" shows "NewAmount A (Amount_String A a) = Inr a"
proof -
  let ?ip = "nat_digits (Coeff a div 10000)" and ?fp = "digits4 (Coeff a mod 10000)"
  let ?d = "\<lparr>Form = Finite, Negative = Negative a, Exponent = - 4, Coeff = Coeff a\<rparr>"
  have s: "Form a = Finite" "Exponent a = LedgerScale" "Coeff a < 10 ^ 22" using assms(2) by (simp_all add: at_scale_def)
  have "Amount_String A a = numeral_text (Negative a) ?ip ?fp"
    using apd_lib.String_scale [OF assms(1) s(1,2)] by (simp add: Amount_String_def dec4_text_def)
  moreover have "apd_SetString A (numeral_text (Negative a) ?ip ?fp) = Inr ?d"
    by (simp add: apd_lib.SetString_numeral [OF assms(1)])
  moreover have "apd_Quantize A ledgerCtx ?d LedgerScale = (\<lparr>Form = Finite, Negative = Negative a, Exponent = LedgerScale, Coeff = Coeff a\<rparr>, None)"
    using apd_lib.Quantize_exact [OF assms(1), of ?d] s(3) by (simp add: LedgerScale_def)
  moreover have "\<lparr>Form = Finite, Negative = Negative a, Exponent = LedgerScale, Coeff = Coeff a\<rparr> = a" using s by (cases a) simp
  ultimately show ?thesis using s(1,2) by (simp add: NewAmount_def LedgerScale_def)
qed

section \<open>Errors\<close>

lemma asGRPCError_cases:
  obtains t c where "(t, c) \<in> set errorMapping" "errors_Is e t" "asGRPCError lg (Some e) s = (s, Some (status_Error c (ErrorText e)))"
  | "\<forall>(t, c) \<in> set errorMapping. \<not> errors_Is e t"
    "asGRPCError lg (Some e) s = (log_at LevelError lg ''unhandled error in gRPC transport'' (Some (ErrorText e)) s,
       Some (status_Error Internal (Text ''internal error'')))"
proof (cases "find (\<lambda>(target, c). errors_Is e target) errorMapping")
  case None
  show ?thesis
  proof (rule that(2))
    show "\<forall>(t, c) \<in> set errorMapping. \<not> errors_Is e t" using None by (auto simp: find_None_iff)
    show "asGRPCError lg (Some e) s = (log_at LevelError lg ''unhandled error in gRPC transport'' (Some (ErrorText e)) s,
       Some (status_Error Internal (Text ''internal error'')))" by (simp add: asGRPCError_def None)
  qed
next
  case (Some tc)
  obtain t c where tc: "tc = (t, c)" by (rule prod.exhaust)
  show ?thesis
  proof (rule that(1))
    show "(t, c) \<in> set errorMapping" "errors_Is e t" using Some by (auto simp: tc find_Some_iff in_set_conv_nth)
    show "asGRPCError lg (Some e) s = (s, Some (status_Error c (ErrorText e)))" by (simp add: asGRPCError_def Some tc)
  qed
qed

lemma asGRPCError_world: "rs_world (fst (asGRPCError lg e s)) = rs_world s"
  by (auto simp: asGRPCError_def split: option.splits)

lemma failWith_fst [simp]: "fst (failWith x) = fst x"
  by (simp add: failWith_def)

lemma mapping_not_ok: "(t, c) \<in> set errorMapping \<Longrightarrow> c \<noteq> OK \<and> c \<noteq> Internal"
  by (auto simp: errorMapping_def)

definition disclosed :: "status_error \<Rightarrow> bool" where
  "disclosed st \<longleftrightarrow> st_Code st \<noteq> OK
     \<and> (\<forall>e. st_Message st = ErrorText e \<longrightarrow> (\<exists>t. (t, st_Code st) \<in> set errorMapping \<and> errors_Is e t))
     \<and> (st_Code st = Internal \<longrightarrow> st_Message st = Text ''internal error'')"

lemma disclosed_asGRPCError: "disclosed (the (snd (asGRPCError lg (Some e) s)))"
  by (rule asGRPCError_cases [of e lg s]) (auto simp: disclosed_def status_Error_def dest: mapping_not_ok)

lemma disclosed_fieldViolation: "wire_libs L \<Longrightarrow> disclosed (fieldViolation L f d)"
  by (auto simp: fieldViolation_def disclosed_def status_Error_def Let_def wire_libs_def split: sum.splits)

lemma disclosed_parse:
  "wire_libs L \<Longrightarrow> parseUUID L f raw = Inl st \<Longrightarrow> disclosed st"
  "wire_libs L \<Longrightarrow> parseAmount L f raw = Inl st \<Longrightarrow> disclosed st"
  by (auto simp: parseUUID_def parseAmount_def disclosed_fieldViolation split: sum.splits)

lemma disclosed_fromPB: "wire_libs L \<Longrightarrow> transferRequestFromPB L req = Inl st \<Longrightarrow> disclosed st"
  by (auto simp: transferRequestFromPB_def dest: disclosed_parse split: option.splits sum.splits)
     (simp add: disclosed_def status_Error_def)

text \<open>C34: a failing transfer RPC never answers OK, carries the text of a Go error only when the
  error table maps that error, with the code the table gives it, and an Internal answer carries
  nothing but the generic text.\<close>

theorem failures_disclose_mapped_errors:
  assumes "wire_libs (lh_libs h)" "Transfer h now ctx req s = (s', Inl st)"
  shows "disclosed st"
proof (cases "transferRequestFromPB (lh_libs h) req")
  case (Inl err)
  then show ?thesis using assms disclosed_fromPB by (auto simp: Transfer_def)
next
  case (Inr i)
  have "disclosed (status_Error Unauthenticated (Text m))" for m by (simp add: disclosed_def status_Error_def)
  then show ?thesis using assms(2) Inr disclosed_asGRPCError
    by (auto simp: Transfer_def failWith_def Let_def split: if_splits sum.splits prod.splits)
qed

section \<open>Mistakes in the body\<close>

definition bad_body :: "apd \<Rightarrow> TransferInput \<Rightarrow> bool" where
  "bad_body A i \<longleftrightarrow> ti_IdempotencyKey i = [] \<or> length (ti_IdempotencyKey i) > idempotencyKeyMaxLen
     \<or> \<not> idempotencyKeyAllowed (ti_IdempotencyKey i) \<or> ti_FromAccountID i = ti_ToAccountID i
     \<or> Amount_IsZero A (ti_Amount i) \<or> Amount_IsNegative A (ti_Amount i)"

lemma plain_unmapped:
  assumes "\<And>t. \<not> errors_Is e t"
  shows "asGRPCError lg (Some e) s = (log_at LevelError lg ''unhandled error in gRPC transport'' (Some (ErrorText e)) s,
       Some (status_Error Internal (Text ''internal error'')))"
  using assms by (auto intro: asGRPCError_cases [of e lg s])

text \<open>C35: a request whose only fault is an idempotency key that is missing, too long or has a
  forbidden byte, equal accounts, or an amount that is not positive is answered Internal (and
  logged as an unhandled error), not InvalidArgument: the usecase reports these mistakes with
  errors that are in no table entry.\<close>

theorem body_mistakes_are_internal:
  assumes "transferRequestFromPB (lh_libs h) req = Inr i" "tenantFromClaims ctx \<noteq> []"
    and "Currency_Valid (ti_Currency i)" "ti_FromAccountID i \<noteq> uuid_Nil" "ti_ToAccountID i \<noteq> uuid_Nil"
    and "bad_body (ul_apd (lh_uc h)) i"
  shows "\<exists>e. Transfer h now ctx req s =
    (log_at LevelError (lh_log h) ''unhandled error in gRPC transport'' (Some (ErrorText e)) s,
     Inl (status_Error Internal (Text ''internal error'')))"
proof -
  let ?i = "i\<lparr>ti_TenantID := tenantFromClaims ctx\<rparr>"
  have "\<exists>e. validateTransferInput (ul_apd (lh_uc h)) ?i = Some e \<and> (\<forall>t. \<not> errors_Is e t)"
    using assms(2-6) by (auto simp: validateTransferInput_def bad_body_def)
  then obtain e where v: "validateTransferInput (ul_apd (lh_uc h)) ?i = Some e" and e: "\<And>t. \<not> errors_Is e t" by blast
  then have "Execute (lh_uc h) (lh_uc_ledger h) (lh_uc_idem h) ctx now ?i (rs_world s) = (rs_world s, Inl e)"
    by (simp add: Execute_def)
  with assms(1,2) show ?thesis by (auto simp: Transfer_def Let_def failWith_def plain_unmapped [OF e])
qed

section \<open>The wire form\<close>

text \<open>How a client reads the wire form back.\<close>

definition instant_of :: "pb_Timestamp \<Rightarrow> instant" where
  "instant_of ts = fst ts * Second + snd ts"

definition entryFromPB :: "transport_libs \<Rightarrow> pb_JournalEntry \<Rightarrow> status_error + JournalEntry" where
  "entryFromPB L e =
     (case parseUUID L ''id'' (pbj_Id e) of Inl err \<Rightarrow> Inl err | Inr i \<Rightarrow>
     (case parseUUID L ''transaction_id'' (pbj_TransactionId e) of Inl err \<Rightarrow> Inl err | Inr t \<Rightarrow>
     (case parseUUID L ''account_id'' (pbj_AccountId e) of Inl err \<Rightarrow> Inl err | Inr a \<Rightarrow>
     (case parseAmount L ''amount'' (pbj_Amount e) of Inl err \<Rightarrow> Inl err | Inr m \<Rightarrow>
        Inr \<lparr>je_ID = i, je_TransactionID = t, je_TenantID = [], je_AccountID = a, je_Amount = m,
             je_Currency = pbj_Currency e, je_CreatedAt = instant_of (pbj_CreatedAt e)\<rparr>))))"

fun entriesFromPB :: "transport_libs \<Rightarrow> pb_JournalEntry list \<Rightarrow> status_error + JournalEntry list" where
  "entriesFromPB L [] = Inr []"
| "entriesFromPB L (e # es) =
     (case entryFromPB L e of Inl err \<Rightarrow> Inl err | Inr x \<Rightarrow>
     (case entriesFromPB L es of Inl err \<Rightarrow> Inl err | Inr xs \<Rightarrow> Inr (x # xs)))"

definition transactionFromPB :: "transport_libs \<Rightarrow> pb_Transaction \<Rightarrow> status_error + Transaction" where
  "transactionFromPB L p =
     (case parseUUID L ''id'' (pbt_Id p) of Inl err \<Rightarrow> Inl err | Inr i \<Rightarrow>
     (case entriesFromPB L (pbt_Entries p) of Inl err \<Rightarrow> Inl err | Inr es \<Rightarrow>
        Inr \<lparr>tx_ID = i, tx_TenantID = [], tx_IdempotencyKey = pbt_IdempotencyKey p, tx_RequestFingerprint = [],
             tx_Status = pbt_Status p, tx_Entries = es, tx_CreatedAt = instant_of (pbt_CreatedAt p)\<rparr>))"

definition public_view :: "Transaction \<Rightarrow> Transaction" where
  "public_view t = t\<lparr>tx_TenantID := [], tx_RequestFingerprint := [],
     tx_Entries := map (\<lambda>e. e\<lparr>je_TenantID := []\<rparr>) (tx_Entries t)\<rparr>"

lemma instant_of_timestamp: "wire_libs L \<Longrightarrow> instant_of (tl_timestamp L t) = t"
  by (simp add: wire_libs_def instant_of_def Second_def)

lemma parse_written:
  "wire_libs L \<Longrightarrow> parseUUID L f (tl_uuid_String L u) = Inr u"
  "apd_lib (tl_apd L) \<Longrightarrow> at_scale a \<Longrightarrow> parseAmount L f (Amount_String (tl_apd L) a) = Inr a"
  by (simp_all add: parseUUID_def parseAmount_def wire_libs_def NewAmount_String)

lemma entriesFromPB_written:
  assumes "wire_libs L" "apd_lib (tl_apd L)" "\<forall>e \<in> set es. at_scale (je_Amount e)"
  shows "entriesFromPB L (map (entryToPB L) es) = Inr (map (\<lambda>e. e\<lparr>je_TenantID := []\<rparr>) es)"
  using assms(3) by (induction es) (simp_all add: entryFromPB_def entryToPB_def parse_written instant_of_timestamp assms)

text \<open>C33: a client that parses the wire form of a transaction whose amounts are at the ledger's
  scale gets back every field of it, instants to the nanosecond and amounts exactly; only the
  tenant and the request fingerprint are not on the wire.\<close>

theorem wire_roundtrip:
  assumes "wire_libs L" "apd_lib (tl_apd L)" "\<forall>e \<in> set (tx_Entries t). at_scale (je_Amount e)"
  shows "\<exists>p. transactionToPB L (Some t) = Some p \<and> transactionFromPB L p = Inr (public_view t)"
  using assms
  by (simp add: transactionToPB_def transactionFromPB_def public_view_def parse_written instant_of_timestamp entriesFromPB_written)

section \<open>The effect of a transfer RPC\<close>

abbreviation program_handler ::
    "transport_libs \<Rightarrow> uc_libs \<Rightarrow> libs \<Rightarrow> LedgerRepo \<Rightarrow> exec_env \<Rightarrow> read_env \<Rightarrow> 's redis_client \<Rightarrow> RedisIdempotencyStore
      \<Rightarrow> log_attrs option \<Rightarrow> 's transfer_world LedgerHandler" where
  "program_handler T U L r ex rd R st lg \<equiv>
     NewLedgerHandler T U (ledger_port L r ex rd) (redis_port R st) (ledger_port L r ex rd) lg"

text \<open>\<open>acts_for tenant d d'\<close>: nothing is booked under another tenant's keys, and the whole change
  is at most one booking with the transfer that belongs to it.\<close>

definition acts_for :: "string \<Rightarrow> db \<Rightarrow> db \<Rightarrow> bool" where
  "acts_for tenant d d' \<longleftrightarrow> db_ok d' \<and>
     (bookings d' = bookings d \<and> balance d' = balance d
      \<or> (\<exists>i b. ti_TenantID i = tenant \<and> bookings d (tenant, ti_IdempotencyKey i) = None
           \<and> bookings d' = (bookings d)((tenant, ti_IdempotencyKey i) \<mapsto> b) \<and> balance d' = after_transfer i (balance d)))"

lemma acts_for_refl: "db_ok d \<Longrightarrow> acts_for tenant d d"
  by (simp add: acts_for_def)

lemma acts_for_booked:
  "db_ok d' \<Longrightarrow> bookings d (ti_TenantID i, ti_IdempotencyKey i) = None \<Longrightarrow>
   bookings d' = (bookings d)((ti_TenantID i, ti_IdempotencyKey i) \<mapsto> b) \<Longrightarrow> balance d' = after_transfer i (balance d) \<Longrightarrow>
   acts_for (ti_TenantID i) d d'"
  unfolding acts_for_def by blast

lemma acts_for_other: "acts_for tenant d d' \<Longrightarrow> t \<noteq> tenant \<Longrightarrow> bookings d' (t, k) = bookings d (t, k)"
  by (auto simp: acts_for_def)

lemma parsed_amount: "apd_lib (tl_apd T) \<Longrightarrow> transferRequestFromPB T req = Inr i \<Longrightarrow> amount_in (ti_Amount i)"
  by (auto simp: transferRequestFromPB_def parseAmount_def split: option.splits sum.splits intro: NewAmount_in)

text \<open>An RPC leaves the world as it is, or as one call of the usecase for the caller's tenant does.\<close>

lemma Transfer_world:
  assumes "Transfer (program_handler T U L r ex rd R st lg) now ctx req s = (s', x)"
  obtains "rs_world s' = rs_world s"
  | i q where "transferRequestFromPB T req = Inr i" "tenantFromClaims ctx \<noteq> []"
      "Execute U (ledger_port L r ex rd) (redis_port R st) ctx now (i\<lparr>ti_TenantID := tenantFromClaims ctx\<rparr>) (rs_world s) = (rs_world s', q)"
proof (cases "\<exists>i. transferRequestFromPB T req = Inr i \<and> tenantFromClaims ctx \<noteq> []")
  case False
  then have "s' = s" using assms by (auto simp: Transfer_def NewLedgerHandler_def Let_def split: sum.splits if_splits)
  then show ?thesis using that(1) by simp
next
  case True
  then obtain i where i: "transferRequestFromPB T req = Inr i" "tenantFromClaims ctx \<noteq> []" by blast
  let ?i = "i\<lparr>ti_TenantID := tenantFromClaims ctx\<rparr>"
  obtain w q where e: "Execute U (ledger_port L r ex rd) (redis_port R st) ctx now ?i (rs_world s) = (w, q)" by (rule prod.exhaust)
  have "rs_world s' = w" using assms i e asGRPCError_world [of "lh_log (program_handler T U L r ex rd R st lg)" _ "s\<lparr>rs_world := w\<rparr>"]
    by (auto simp: Transfer_def NewLedgerHandler_def Let_def failWith_def grpcSetTrailer_def split: sum.splits if_splits)
  with that(2) [OF i] e show ?thesis by simp
qed

lemma Transfer_acts_for:
  assumes "apd_lib (lib_apd L)" "apd_lib (tl_apd T)" "quiet ex" "db_ok (world_db (rs_world s))"
    and "Transfer (program_handler T U L r ex rd R st lg) now ctx req s = (s', x)"
  shows "acts_for (tenantFromClaims ctx) (world_db (rs_world s)) (world_db (rs_world s'))
    \<and> (tenantFromClaims ctx = [] \<longrightarrow> rs_world s' = rs_world s)"
  using assms(5)
proof (cases rule: Transfer_world)
  case 1
  with assms(4) show ?thesis by (simp add: acts_for_refl)
next
  case (2 i q)
  let ?i = "i\<lparr>ti_TenantID := tenantFromClaims ctx\<rparr>"
  have "amount_in (ti_Amount ?i)" using parsed_amount [OF assms(2) 2(1)] by simp
  note eff = Execute_effect [OF assms(1,3,4) this 2(3)]
  have "acts_for (tenantFromClaims ctx) (world_db (rs_world s)) (world_db (rs_world s'))"
    using eff(2)
  proof (elim disjE conjE exE)
    fix txid assume "bookings (world_db (rs_world s)) (ti_TenantID ?i, ti_IdempotencyKey ?i) = None"
      "balance (world_db (rs_world s')) = after_transfer ?i (balance (world_db (rs_world s)))"
      "bookings (world_db (rs_world s')) = (bookings (world_db (rs_world s)))((ti_TenantID ?i, ti_IdempotencyKey ?i) \<mapsto> (txid, TransferFingerprint U ?i))"
    then show ?thesis using acts_for_booked [OF eff(1), of _ ?i] by simp
  qed (simp add: acts_for_def eff(1))
  with 2(2) show ?thesis by simp
qed

section \<open>Witnesses\<close>

text \<open>A wire package with UUIDs written in unary.\<close>

definition sample_wire :: transport_libs where
  "sample_wire = \<lparr>tl_apd = apd_ref,
     tl_uuid_Parse = (\<lambda>s. if list_all (\<lambda>c. c = CHR ''1'') s then Inr (of_nat (length s)) else Inl (Foreign ''invalid'')),
     tl_uuid_String = (\<lambda>u. replicate (unat u) CHR ''1''),
     tl_timestamp = (\<lambda>t. (t div Second, t mod Second)),
     tl_WithDetails = (\<lambda>st ds. Inr (st\<lparr>st_Details := ds\<rparr>))\<rparr>"

lemma sample_wire_ok: "wire_libs sample_wire" "apd_lib (tl_apd sample_wire)"
  by (simp_all add: wire_libs_def sample_wire_def list_all_iff ref.apd_lib_axioms)

definition sample_handler :: "mem_redis transfer_world LedgerHandler" where
  "sample_handler = program_handler sample_wire sample_uc sample_libs sample_repo sample_ex sample_read
     (mem_client 0) NewRedisIdempotencyStore None"

definition sample_pb :: pb_TransferRequest where
  "sample_pb = \<lparr>pbr_IdempotencyKey = [], pbr_FromAccountId = ''1'', pbr_ToAccountId = ''11'', pbr_Amount = Amount_String apd_ref sample_amount,
     pbr_Currency = ''USD''\<rparr>"

definition sample_rpc :: "mem_redis transfer_world rpc_state" where
  "sample_rpc = \<lparr>rs_world = sample_start, rs_header = [], rs_trailer = [], rs_log = []\<rparr>"

lemma sample_parse:
  "transferRequestFromPB sample_wire (Some sample_pb) =
     Inr \<lparr>ti_TenantID = [], ti_IdempotencyKey = [], ti_FromAccountID = 1, ti_ToAccountID = 2, ti_Amount = sample_amount, ti_Currency = ''USD''\<rparr>"
proof -
  have "NewAmount apd_ref (Amount_String apd_ref sample_amount) = Inr sample_amount"
    using NewAmount_String [OF ref.apd_lib_axioms] sample_input_facts(2) by (simp add: sample_input_def)
  then show ?thesis
    by (simp add: transferRequestFromPB_def parseUUID_def parseAmount_def sample_wire_def sample_pb_def)
qed

lemma sample_ctx_tenant: "tenantFromClaims sample_ctx = ''t''"
  by (simp add: tenantFromClaims_def ClaimsFromContext_def sample_ctx_def)

theorem body_mistakes_are_internal_witness:
  "\<exists>e. Transfer sample_handler 7000 sample_ctx (Some sample_pb) sample_rpc =
    (log_at LevelError (lh_log sample_handler) ''unhandled error in gRPC transport'' (Some (ErrorText e)) sample_rpc,
     Inl (status_Error Internal (Text ''internal error'')))"
proof -
  have "Currency_Valid ''USD''" by code_simp
  then show ?thesis
    using body_mistakes_are_internal [of sample_handler "Some sample_pb" _ sample_ctx 7000 sample_rpc] sample_parse sample_ctx_tenant
    by (simp add: sample_handler_def NewLedgerHandler_def bad_body_def)
qed

theorem failures_disclose_mapped_errors_witness:
  "\<exists>s' st. Transfer sample_handler 7000 background (Some sample_pb) sample_rpc = (s', Inl st) \<and> disclosed st"
proof -
  have "tenantFromClaims background = []" by (simp add: tenantFromClaims_def ClaimsFromContext_def background_def)
  then have "\<exists>s' st. Transfer sample_handler 7000 background (Some sample_pb) sample_rpc = (s', Inl st)"
    using sample_parse by (simp add: Transfer_def sample_handler_def NewLedgerHandler_def)
  then show ?thesis
    using failures_disclose_mapped_errors [of sample_handler 7000 background "Some sample_pb" sample_rpc] sample_wire_ok(1)
    by (auto simp: sample_handler_def NewLedgerHandler_def)
qed

theorem wire_roundtrip_witness:
  "\<exists>p. transactionToPB sample_wire (Some (sample_tx [sample_leg False 10000, sample_leg True 10000])) = Some p
     \<and> transactionFromPB sample_wire p = Inr (public_view (sample_tx [sample_leg False 10000, sample_leg True 10000]))"
  by (rule wire_roundtrip [OF sample_wire_ok]) (simp add: sample_tx_def sample_leg_def at_scale_def LedgerScale_def)

end
