(* ===== verification/Interceptors.thy ===== *)
theory Interceptors
  imports Complex_Main Rpc
begin

text \<open>
  \<open>internal/transport/grpc/interceptors\<close>: panic recovery, request ids, logging, admission control,
  edge identity and per-tenant rate limiting, each as a function from the rest of the chain to a
  handler. The state the interceptors keep between calls is \<open>server_state\<close>; the program's own state
  is its field \<open>ss_app\<close>. The token bucket (golang.org/x/time/rate), \<open>uuid.NewV7\<close>, the name of a
  status code and what the runtime decides (the clock, the stack, float conversion out of range) are
  parameters, the fields of \<open>ic_env\<close>.
\<close>

section \<open>State and environment\<close>

type_synonym Limit = rat

definition rate_Inf :: Limit where "rate_Inf = (2 ^ 53 - 1) * 2 ^ 971"

record 'l rate_lib =
  rate_NewLimiter :: "Limit \<Rightarrow> int \<Rightarrow> 'l"
  rate_Allow :: "instant \<Rightarrow> 'l \<Rightarrow> 'l \<times> bool"
  rate_Limit :: "'l \<Rightarrow> Limit"

record 'l rateLimiterEntry =
  le_limiter :: 'l
  le_tier :: string
  le_lastSeenUnix :: int

record ('l, 'a) server_state =
  ss_current :: int
  ss_gauge :: int
  ss_limiters :: "string \<rightharpoonup> 'l rateLimiterEntry"
  ss_rejected :: "string list list"
  ss_app :: 'a

record 'l ic_env =
  ic_ustr :: "UUID \<Rightarrow> string"
  ic_NewV7 :: "UUID result"
  ic_now :: instant
  ic_elapsed :: string
  ic_stack :: string
  ic_code_String :: "code \<Rightarrow> string"
  ic_rate :: "'l rate_lib"
  ic_convert :: "Limit \<Rightarrow> int"

type_synonym ('l, 'a, 'q, 'r) ic = "(('l, 'a) server_state, 'q, 'r) interceptor"

definition on_server :: "(('l, 'a) server_state \<Rightarrow> ('l, 'a) server_state)
    \<Rightarrow> ('l, 'a) server_state rpc_state \<Rightarrow> ('l, 'a) server_state rpc_state" where
  "on_server f s = s\<lparr>rs_world := f (rs_world s)\<rparr>"

lemma on_server_world [simp]: "rs_world (on_server f s) = f (rs_world s)"
  by (simp add: on_server_def)

section \<open>Recovery\<close>

text \<open>The default logger has no attributes, as in \<open>LoggerFromContext\<close>.\<close>

definition Recovery :: "'l ic_env \<Rightarrow> log_attrs option \<Rightarrow> ('l, 'a, 'q, 'r) ic" where
  "Recovery E lg m h ctx req s =
     (case h ctx req s of
        (s1, Panic r) \<Rightarrow>
          let base = (case lg of None \<Rightarrow> [] | Some l \<Rightarrow> l);
              callLog = (if LoggerFromContext ctx = [] then base else LoggerFromContext ctx)
          in (log_at LevelError (callLog @ [(''rpc.method'', m), (''panic'', r), (''stack'', ic_stack E)])
                ''panic in rpc handler'' None s1,
              Fail (status_Error Internal (Text ''internal error'')))
      | (s1, x) \<Rightarrow> (s1, x))"

section \<open>Request ids\<close>

definition RequestIDMetadataKey :: string where "RequestIDMetadataKey = ''x-request-id''"

definition extractRequestID :: "req_ctx \<Rightarrow> string" where
  "extractRequestID ctx =
     (case ctx_md ctx of
        None \<Rightarrow> []
      | Some md \<Rightarrow> (case md_Get md RequestIDMetadataKey of [] \<Rightarrow> [] | v # vs \<Rightarrow> v))"

text \<open>\<open>uuid.Must\<close> panics when no id can be drawn.\<close>

definition RequestID :: "'l ic_env \<Rightarrow> ('l, 'a, 'q, 'r) ic" where
  "RequestID E m h ctx req s =
     (let go = (\<lambda>i. h (WithRequestID ctx i) req (SetHeader RequestIDMetadataKey i s)) in
      if extractRequestID ctx = []
      then (case ic_NewV7 E of Inl err \<Rightarrow> (s, Panic ''uuid'') | Inr u \<Rightarrow> go (ic_ustr E u))
      else go (extractRequestID ctx))"

section \<open>Logging\<close>

definition logLevelForCode :: "code \<Rightarrow> log_level" where
  "logLevelForCode c =
     (if c \<in> {OK, Canceled, InvalidArgument, NotFound, AlreadyExists, FailedPrecondition, Aborted, OutOfRange,
              PermissionDenied, Unauthenticated} then LevelInfo
      else if c \<in> {Unavailable, DeadlineExceeded, ResourceExhausted} then LevelWarn
      else LevelError)"

definition peerAddr :: "req_ctx \<Rightarrow> string" where
  "peerAddr ctx = (case ctx_peer ctx of Some p \<Rightarrow> p | None \<Rightarrow> [])"

text \<open>\<open>status.FromError\<close> of the error a handler returned; nil is OK.\<close>

definition outcome_code :: "'r outcome \<Rightarrow> code" where
  "outcome_code x = (case x of Fail st \<Rightarrow> st_Code st | _ \<Rightarrow> OK)"

definition outcome_err :: "'r outcome \<Rightarrow> message option" where
  "outcome_err x = (case x of Fail st \<Rightarrow> Some (st_Message st) | _ \<Rightarrow> None)"

text \<open>A panic leaves through \<open>Logging\<close> without a completion line.\<close>

definition Logging :: "'l ic_env \<Rightarrow> log_attrs option \<Rightarrow> ('l, 'a, 'q, 'r) ic" where
  "Logging E base m h ctx req s =
     (let callLog = (case base of None \<Rightarrow> [] | Some l \<Rightarrow> l)
            @ [(''rpc.method'', m), (''request_id'', RequestIDFromContext ctx), (''rpc.peer'', peerAddr ctx)];
          ctx1 = WithLogger ctx callLog
      in (case h ctx1 req (log_at LevelDebug callLog ''rpc start'' None s) of
            (s1, Panic r) \<Rightarrow> (s1, Panic r)
          | (s1, x) \<Rightarrow>
              let c = outcome_code x;
                  attrs = callLog @ [(''rpc.elapsed'', ic_elapsed E), (''rpc.code'', ic_code_String E c)];
                  lv = logLevelForCode c
              in (log_at lv attrs ''rpc complete'' (if lv \<in> {LevelError, LevelWarn} then outcome_err x else None) s1, x)))"

section \<open>Admission\<close>

text \<open>\<open>MetricsRejected\<close> and \<open>MetricsInFlight\<close> are optional; the model always records them, in
  \<open>ss_rejected\<close> and \<open>ss_gauge\<close>.\<close>

record AdmissionConfig =
  ac_MaxInFlight :: int

definition DefaultAdmission :: "int \<Rightarrow> AdmissionConfig" where
  "DefaultAdmission mx = \<lparr>ac_MaxInFlight = mx\<rparr>"

text \<open>\<open>time.Time.IsZero\<close>: the first instant of year 1.\<close>

definition time_IsZero :: "instant \<Rightarrow> bool" where
  "time_IsZero t \<longleftrightarrow> t = - 62135596800 * Second"

definition release_slot :: "('l, 'a) server_state \<Rightarrow> ('l, 'a) server_state" where
  "release_slot w = w\<lparr>ss_current := ss_current w - 1, ss_gauge := ss_current w - 1\<rparr>"

definition Admission :: "AdmissionConfig \<Rightarrow> ('l, 'a, 'q, 'r) ic" where
  "Admission cfg m h ctx req s =
     (if ac_MaxInFlight cfg \<le> 0 then h ctx req s
      else if (case ctx_deadline ctx of Some dl \<Rightarrow> time_IsZero dl | None \<Rightarrow> False)
      then (s, Fail (status_Error DeadlineExceeded (Text ''admission: caller deadline already exceeded'')))
      else
        let next = ss_current (rs_world s) + 1
        in if next > ac_MaxInFlight cfg
           then (on_server (\<lambda>w. w\<lparr>ss_rejected := ss_rejected w @ [[m]]\<rparr>) s,
                 Fail (status_Error ResourceExhausted (Text
                   (''server at capacity (in-flight='' @ FormatInt (next - 1) @ '', max='' @ FormatInt (ac_MaxInFlight cfg)
                    @ '') for '' @ m))))
           else (case h ctx req (on_server (\<lambda>w. w\<lparr>ss_current := next, ss_gauge := next\<rparr>) s) of
                   (s1, x) \<Rightarrow> (on_server release_slot s1, x)))"

section \<open>Edge identity\<close>

definition HeaderTenantID :: string where "HeaderTenantID = ''x-tenant-id''"
definition HeaderActorSubject :: string where "HeaderActorSubject = ''x-actor-subject''"
definition HeaderActorSession :: string where "HeaderActorSession = ''x-actor-session''"

record EdgeIdentityConfig =
  ei_PublicMethods :: "string list option"

definition DefaultPublicMethods :: "string list" where
  "DefaultPublicMethods =
     [''/grpc.health.v1.Health/Check'', ''/grpc.health.v1.Health/Watch'',
      ''/grpc.reflection.v1.ServerReflection/ServerReflectionInfo'',
      ''/grpc.reflection.v1alpha.ServerReflection/ServerReflectionInfo'']"

definition firstHeader :: "MD \<Rightarrow> string \<Rightarrow> string" where
  "firstHeader md key = (case md_Get md key of [] \<Rightarrow> [] | v # vs \<Rightarrow> v)"

definition publicMethods :: "EdgeIdentityConfig \<Rightarrow> string list" where
  "publicMethods cfg = (case ei_PublicMethods cfg of None \<Rightarrow> [] | Some ms \<Rightarrow> ms)"

definition EdgeIdentity :: "EdgeIdentityConfig \<Rightarrow> ('l, 'a, 'q, 'r) ic" where
  "EdgeIdentity cfg m h ctx req s =
     (let missing = (s, Fail (status_Error Unauthenticated (Text ''missing edge identity headers'')))
      in if m \<in> set (publicMethods cfg) then h ctx req s
         else (case ctx_md ctx of
                 None \<Rightarrow> missing
               | Some md \<Rightarrow>
                   let tenant = firstHeader md HeaderTenantID; subject = firstHeader md HeaderActorSubject
                   in if tenant = [] \<or> subject = [] then missing
                      else
                        let c = \<lparr>Subject = subject, Tenant = tenant, Session = firstHeader md HeaderActorSession\<rparr>;
                            ctx1 = WithClaims ctx c;
                            ctx2 = WithLogger ctx1 (LoggerFromContext ctx1 @
                                     [(''auth.sub'', Subject c), (''auth.tenant'', Tenant c)])
                        in h ctx2 req s))"

section \<open>Rate limiting\<close>

record TierLimit =
  tier_RPS :: Limit
  tier_Burst :: int

record RateLimitConfig =
  rl_Tiers :: "(string \<rightharpoonup> TierLimit) option"
  rl_TierByTenant :: "string \<rightharpoonup> string"
  rl_Default :: TierLimit
  rl_IdleTTL :: duration

definition DefaultRateLimitConfig :: RateLimitConfig where
  "DefaultRateLimitConfig =
     \<lparr>rl_Tiers = Some [''default'' \<mapsto> \<lparr>tier_RPS = 100, tier_Burst = 200\<rparr>,
        ''premium'' \<mapsto> \<lparr>tier_RPS = 1000, tier_Burst = 2000\<rparr>,
        ''internal'' \<mapsto> \<lparr>tier_RPS = rate_Inf, tier_Burst = 0\<rparr>],
      rl_TierByTenant = Map.empty, rl_Default = \<lparr>tier_RPS = 100, tier_Burst = 200\<rparr>, rl_IdleTTL = 5 * Minute\<rparr>"

definition time_Unix :: "instant \<Rightarrow> int" where
  "time_Unix t = t div Second"

type_synonym 'l limiters = "string \<rightharpoonup> 'l rateLimiterEntry"

definition getOrCreateLimiter :: "'l rate_lib \<Rightarrow> instant \<Rightarrow> string \<Rightarrow> RateLimitConfig \<Rightarrow> 'l limiters
    \<Rightarrow> 'l limiters \<times> 'l rateLimiterEntry" where
  "getOrCreateLimiter R now tenant cfg m =
     (case m tenant of
        Some e \<Rightarrow> (m, e)
      | None \<Rightarrow>
          let tier = (case rl_TierByTenant cfg tenant of Some t \<Rightarrow> t | None \<Rightarrow> ''default'');
              tiers = (case rl_Tiers cfg of None \<Rightarrow> Map.empty | Some ts \<Rightarrow> ts);
              limit = (case tiers tier of Some bound \<Rightarrow> bound | None \<Rightarrow> rl_Default cfg);
              e = \<lparr>le_limiter = rate_NewLimiter R (tier_RPS limit) (tier_Burst limit), le_tier = tier,
                   le_lastSeenUnix = time_Unix now\<rparr>
          in (m(tenant \<mapsto> e), e))"

definition rateOf :: "'l rate_lib \<Rightarrow> 'l \<Rightarrow> Limit" where
  "rateOf R l = rate_Limit R l"

text \<open>\<open>time.Duration\<close> of a float truncates; out of the int64 range the result depends on the
  implementation. Integer division truncates, and panics on a zero divisor.\<close>

definition duration_of_float :: "'l ic_env \<Rightarrow> Limit \<Rightarrow> int" where
  "duration_of_float E x =
     (let n = (if x < 0 then - \<lfloor>- x\<rfloor> else \<lfloor>x\<rfloor>) in if in_int64 n then n else ic_convert E x)"

definition go_quot :: "int \<Rightarrow> int \<Rightarrow> int" where
  "go_quot a b = sgn a * sgn b * (\<bar>a\<bar> div \<bar>b\<bar>)"

definition RateLimit :: "'l ic_env \<Rightarrow> RateLimitConfig \<Rightarrow> log_attrs \<Rightarrow> ('l, 'a, 'q, 'r) ic" where
  "RateLimit E cfg lg m h ctx req s =
     (case ClaimsFromContext ctx of
        None \<Rightarrow> (s, Fail (status_Error Unauthenticated (Text ''ratelimit: no tenant in context'')))
      | Some c \<Rightarrow>
        if Tenant c = [] then (s, Fail (status_Error Unauthenticated (Text ''ratelimit: no tenant in context'')))
        else
          (case getOrCreateLimiter (ic_rate E) (ic_now E) (Tenant c) cfg (ss_limiters (rs_world s)) of
             (ls, e) \<Rightarrow>
           (case rate_Allow (ic_rate E) (ic_now E) (le_limiter e) of
              (l, allowed) \<Rightarrow>
                let e1 = e\<lparr>le_limiter := l, le_lastSeenUnix := time_Unix (ic_now E)\<rparr>;
                    s1 = on_server (\<lambda>w. w\<lparr>ss_limiters := ls(Tenant c \<mapsto> e1)\<rparr>) s
                in if allowed then h ctx req s1
                   else
                     let s2 = on_server (\<lambda>w. w\<lparr>ss_rejected := ss_rejected w @ [[Tenant c, m, le_tier e]]\<rparr>) s1;
                         d = duration_of_float E (rateOf (ic_rate E) l)
                     in if d = 0 then (s2, Panic ''runtime error: integer divide by zero'')
                        else
                          (log_at LevelDebug (lg @ [(''tenant'', Tenant c), (''method'', m), (''tier'', le_tier e)])
                             ''rate limited'' None (SetTrailer ''retry-after-ms'' (FormatInt (go_quot Second d)) s2),
                           Fail (status_Error ResourceExhausted (Text
                             (''rate limit exceeded for tenant '' @ Tenant c @ '' on '' @ m)))))))"

text \<open>The sweeper ticks every half time to live; one tick drops the entries not seen since the
  cutoff. A zero \<open>IdleTTL\<close> has been replaced by five minutes.\<close>

definition effectiveTTL :: "RateLimitConfig \<Rightarrow> duration" where
  "effectiveTTL cfg = (if rl_IdleTTL cfg = 0 then 5 * Minute else rl_IdleTTL cfg)"

definition sweepTick :: "duration \<Rightarrow> instant \<Rightarrow> 'l limiters \<Rightarrow> 'l limiters" where
  "sweepTick ttl now m =
     (let cutoff = time_Unix (now - ttl)
      in (\<lambda>k. case m k of None \<Rightarrow> None | Some e \<Rightarrow> if le_lastSeenUnix e < cutoff then None else Some e))"

fun runEvictionSweeper :: "duration \<Rightarrow> instant list \<Rightarrow> 'l limiters \<Rightarrow> 'l limiters" where
  "runEvictionSweeper ttl [] m = m"
| "runEvictionSweeper ttl (now # ticks) m = runEvictionSweeper ttl ticks (sweepTick ttl now m)"

definition addTierPair :: "string \<Rightarrow> (string \<rightharpoonup> string) \<Rightarrow> (string \<rightharpoonup> string)" where
  "addTierPair pair out =
     (let colon = strings_IndexByte pair CHR '':''
      in if colon \<le> 0 \<or> colon = int (length pair) - 1 then out
         else out(strings_TrimSpace (take (nat colon) pair) \<mapsto> strings_TrimSpace (drop (nat colon + 1) pair)))"

definition ParseTierMap :: "string \<Rightarrow> (string \<rightharpoonup> string)" where
  "ParseTierMap s = (if s = [] then Map.empty else fold addTierPair (strings_Split s CHR '','') Map.empty)"

end
