(* ===== verification/Server.thy ===== *)
theory Server
  imports Interceptors
begin

text \<open>
  \<open>internal/transport/grpc/server.go\<close>: the configuration and its defaults, the interceptor chain
  \<open>New\<close> builds, the health service and the two-phase stop. \<open>net.Listen\<close> is an argument of
  \<open>New\<close>.
\<close>

record ServerConfig =
  sc_Addr :: string
  sc_MaxRecvMsgSize :: int
  sc_KeepaliveTime :: duration
  sc_EdgeIdentity :: EdgeIdentityConfig
  sc_RateLimit :: "RateLimitConfig option"
  sc_Admission :: "AdmissionConfig option"

definition defaultServerConfig :: ServerConfig where
  "defaultServerConfig =
     \<lparr>sc_Addr = '':9090'', sc_MaxRecvMsgSize = 4 * 1024 * 1024, sc_KeepaliveTime = 30 * Second,
      sc_EdgeIdentity = \<lparr>ei_PublicMethods = None\<rparr>, sc_RateLimit = None, sc_Admission = None\<rparr>"

datatype serving_status = SERVING | NOT_SERVING

datatype stop_call = CallGracefulStop | CallStop

text \<open>The options passed to \<open>grpc.NewServer\<close> beside the chain, and the services registered on it.\<close>

record server_options =
  so_MaxRecvMsgSize :: int
  so_KeepaliveTime :: duration
  so_KeepaliveTimeout :: duration
  so_EnforcementMinTime :: duration
  so_PermitWithoutStream :: bool

definition server_options_of :: "ServerConfig \<Rightarrow> server_options" where
  "server_options_of cfg =
     \<lparr>so_MaxRecvMsgSize = sc_MaxRecvMsgSize cfg, so_KeepaliveTime = sc_KeepaliveTime cfg, so_KeepaliveTimeout = 10 * Second,
      so_EnforcementMinTime = 10 * Second, so_PermitWithoutStream = True\<rparr>"

datatype service = LedgerService | HealthService | ReflectionService

record Server =
  srv_cfg :: ServerConfig
  srv_options :: server_options
  srv_services :: "service list"
  srv_health :: "(string \<times> serving_status) list"
  srv_listener :: string
  srv_log :: log_attrs
  srv_stops :: "stop_call list"

definition withDefaults :: "ServerConfig \<Rightarrow> ServerConfig" where
  "withDefaults cfg =
     cfg\<lparr>sc_Addr := (if sc_Addr cfg = [] then sc_Addr defaultServerConfig else sc_Addr cfg),
         sc_MaxRecvMsgSize := (if sc_MaxRecvMsgSize cfg = 0 then sc_MaxRecvMsgSize defaultServerConfig else sc_MaxRecvMsgSize cfg),
         sc_KeepaliveTime := (if sc_KeepaliveTime cfg = 0 then sc_KeepaliveTime defaultServerConfig else sc_KeepaliveTime cfg)\<rparr>"

definition withPublicMethods :: "ServerConfig \<Rightarrow> ServerConfig" where
  "withPublicMethods cfg =
     (case ei_PublicMethods (sc_EdgeIdentity cfg) of
        None \<Rightarrow> cfg\<lparr>sc_EdgeIdentity := \<lparr>ei_PublicMethods = Some DefaultPublicMethods\<rparr>\<rparr>
      | Some ms \<Rightarrow> cfg)"

definition LedgerServiceName :: string where "LedgerServiceName = ''fintech.ledger.v1.LedgerService''"

definition NewServer :: "(string \<Rightarrow> string result) \<Rightarrow> ServerConfig \<Rightarrow> log_attrs option \<Rightarrow> Server result" where
  "NewServer listen cfg lg =
     (let cfg1 = withDefaults cfg
      in case listen (sc_Addr cfg1) of
           Inl err \<Rightarrow> Inl (Errorf [Lit ''grpc: listen '', Lit (sc_Addr cfg1), Lit '': '', W err])
         | Inr addr \<Rightarrow>
             Inr \<lparr>srv_cfg = withPublicMethods cfg1, srv_options = server_options_of cfg1,
                  srv_services = [LedgerService, HealthService, ReflectionService], srv_health = [([], SERVING), (LedgerServiceName, SERVING)],
                  srv_listener = addr, srv_log = (case lg of None \<Rightarrow> [] | Some l \<Rightarrow> l), srv_stops = []\<rparr>)"

text \<open>The chain of \<open>New\<close>, outermost first.\<close>

definition intChain :: "'l ic_env \<Rightarrow> Server \<Rightarrow> ('l, 'a, 'q, 'r) ic list" where
  "intChain E v =
     [Recovery E (Some (srv_log v)), RequestID E, Logging E (Some (srv_log v))]
     @ (case sc_Admission (srv_cfg v) of None \<Rightarrow> [] | Some a \<Rightarrow> [Admission a])
     @ [EdgeIdentity (sc_EdgeIdentity (srv_cfg v))]
     @ (case sc_RateLimit (srv_cfg v) of None \<Rightarrow> [] | Some r \<Rightarrow> [RateLimit E r (srv_log v)])"

text \<open>A unary call that reaches the server.\<close>

definition serve_call :: "'l ic_env \<Rightarrow> Server \<Rightarrow> ('l, 'a, 'q, 'r) ic" where
  "serve_call E v = ChainUnaryInterceptor (intChain E v)"

definition Server_Addr :: "Server \<Rightarrow> string" where
  "Server_Addr v = srv_listener v"

text \<open>\<open>Serve\<close> blocks in grpc; the argument is what grpc returns for the listener in the end.\<close>

definition Serve :: "(string \<Rightarrow> go_error option) \<Rightarrow> Server \<Rightarrow> go_error option" where
  "Serve grpc v = grpc (srv_listener v)"

text \<open>\<open>health.Server.Shutdown\<close> turns every service to NOT_SERVING.\<close>

definition SetNotServing :: "Server \<Rightarrow> Server" where
  "SetNotServing v = v\<lparr>srv_health := map (\<lambda>(svc, st). (svc, NOT_SERVING)) (srv_health v)\<rparr>"

text \<open>\<open>drained\<close>: whether the drain ends before the context does.\<close>

definition GracefulStop :: "bool \<Rightarrow> Server \<Rightarrow> Server" where
  "GracefulStop drained v =
     (if drained then v\<lparr>srv_stops := srv_stops v @ [CallGracefulStop]\<rparr>
      else v\<lparr>srv_stops := srv_stops v @ [CallGracefulStop, CallStop]\<rparr>)"

end
