(* ===== verification/Interceptor_Props.thy ===== *)
theory Interceptor_Props
  imports Server
begin

text \<open>
  The interceptor chain as layers: each calls the rest of the chain at most once, with a context it
  describes, and gives back the admission slot it took. From this the whole chain's behaviour
  follows. Then admission under concurrency, and the isolation of tenants in the rate limiter.
\<close>

section \<open>Layers\<close>

abbreviation app :: "('l, 'a) server_state rpc_state \<Rightarrow> 'a" where
  "app s \<equiv> ss_app (rs_world s)"

text \<open>A handler that leaves the number of admitted calls as it found it.\<close>

definition slot_neutral :: "(('l, 'a) server_state, 'q, 'r) handler \<Rightarrow> bool" where
  "slot_neutral h \<longleftrightarrow> (\<forall>ctx req s. ss_current (rs_world (fst (h ctx req s))) = ss_current (rs_world s))"

lemma slot_neutralD: "slot_neutral h \<Longrightarrow> h ctx req s = (s', x) \<Longrightarrow> ss_current (rs_world s') = ss_current (rs_world s)"
  unfolding slot_neutral_def by (metis fst_conv)

lemma slot_neutralI:
  "(\<And>ctx req s s' x. h ctx req s = (s', x) \<Longrightarrow> ss_current (rs_world s') = ss_current (rs_world s)) \<Longrightarrow> slot_neutral h"
  unfolding slot_neutral_def by (metis prod.collapse)

text \<open>What a call did to the program's state: nothing, or one call of the handler in a context the
  layer derived from the caller's.\<close>

definition called :: "(req_ctx \<Rightarrow> bool) \<Rightarrow> (('l, 'a) server_state, 'q, 'r) handler \<Rightarrow> 'q
    \<Rightarrow> ('l, 'a) server_state rpc_state \<Rightarrow> ('l, 'a) server_state rpc_state \<Rightarrow> bool" where
  "called P h req s s' \<longleftrightarrow> app s' = app s
     \<or> (\<exists>ctx s1 s2 y. P ctx \<and> app s1 = app s \<and> h ctx req s1 = (s2, y) \<and> app s' = app s2)"

locale chain_layer =
  fixes layer :: "('l, 'a, 'q, 'r) ic" and derives :: "string \<Rightarrow> req_ctx \<Rightarrow> req_ctx \<Rightarrow> bool"
  assumes calls: "layer m h ctx req s = (s', x) \<Longrightarrow> called (derives m ctx) h req s s'"
    and neutral: "slot_neutral h \<Longrightarrow> slot_neutral (layer m h)"

locale two_layers = outer: chain_layer layer derives + inner: chain_layer layer' derives'
  for layer :: "('l, 'a, 'q, 'r) ic" and derives and layer' :: "('l, 'a, 'q, 'r) ic" and derives'

lemma called_trans:
  assumes "called P h' req s s'" and "\<And>ctx s1 s2 y. P ctx \<Longrightarrow> h' ctx req s1 = (s2, y) \<Longrightarrow> called (G ctx) h req s1 s2"
  shows "called (\<lambda>ctx'. \<exists>ctx. P ctx \<and> G ctx ctx') h req s s'"
  using assms(1) unfolding called_def [of P]
proof (elim disjE exE conjE)
  fix ctx s1 s2 y assume 1: "P ctx" "app s1 = app s" "h' ctx req s1 = (s2, y)" "app s' = app s2"
  from assms(2) [OF 1(1,3)] 1 show ?thesis unfolding called_def by metis
qed (simp add: called_def)

sublocale two_layers \<subseteq> chain_layer "\<lambda>m h. layer m (layer' m h)" "\<lambda>m. derives m OO derives' m"
proof
  fix m h ctx req s s' x assume c: "layer m (layer' m h) ctx req s = (s', x)"
  have "called (\<lambda>c2. \<exists>c1. derives m ctx c1 \<and> derives' m c1 c2) h req s s'"
    by (rule called_trans [OF outer.calls [OF c] inner.calls])
  then show "called ((derives m OO derives' m) ctx) h req s s'" by (simp add: OO_def fun_eq_iff)
qed (blast intro: outer.neutral inner.neutral)

context two_layers
begin

lemma both_layers: "chain_layer (\<lambda>m h. layer m (layer' m h)) (\<lambda>m. derives m OO derives' m)"
  by unfold_locales

end

lemma chain_layers:
  fixes ls :: "(('l, 'a, 'q, 'r) ic \<times> (string \<Rightarrow> req_ctx \<Rightarrow> req_ctx \<Rightarrow> bool)) list"
  assumes "\<forall>(l, d) \<in> set ls. chain_layer l d"
  shows "chain_layer (ChainUnaryInterceptor (map fst ls)) (\<lambda>m. foldr (\<lambda>d r. d m OO r) (map snd ls) (=))"
  using assms
proof (induction ls)
  case Nil
  show ?case by unfold_locales (auto simp: called_def)
next
  case (Cons p ls)
  obtain l d where p: "p = (l, d)" by (rule prod.exhaust)
  have "two_layers l d (ChainUnaryInterceptor (map fst ls)) (\<lambda>m. foldr (\<lambda>d r. d m OO r) (map snd ls) (=))"
    using Cons by (simp add: two_layers_def p)
  then have "chain_layer (\<lambda>m h. l m (ChainUnaryInterceptor (map fst ls) m h))
      (\<lambda>m. d m OO foldr (\<lambda>d r. d m OO r) (map snd ls) (=))"
    by (rule two_layers.both_layers)
  moreover have "ChainUnaryInterceptor (map fst (p # ls)) = (\<lambda>m h. l m (ChainUnaryInterceptor (map fst ls) m h))"
    by (simp add: p fun_eq_iff)
  ultimately show ?case by (simp add: p)
qed

section \<open>The interceptors are layers\<close>

lemma calledI_same: "app s' = app s \<Longrightarrow> called P h req s s'"
  by (simp add: called_def)

lemma calledI_call: "h ctx req s1 = (s2, y) \<Longrightarrow> P ctx \<Longrightarrow> app s1 = app s \<Longrightarrow> app s' = app s2 \<Longrightarrow> called P h req s s'"
  unfolding called_def by blast

definition keeps_ctx :: "string \<Rightarrow> req_ctx \<Rightarrow> req_ctx \<Rightarrow> bool" where
  "keeps_ctx m c c' \<longleftrightarrow> c' = c"

definition adds_id :: "string \<Rightarrow> req_ctx \<Rightarrow> req_ctx \<Rightarrow> bool" where
  "adds_id m c c' \<longleftrightarrow> (\<exists>i. c' = WithRequestID c i)"

definition adds_logger :: "string \<Rightarrow> req_ctx \<Rightarrow> req_ctx \<Rightarrow> bool" where
  "adds_logger m c c' \<longleftrightarrow> (\<exists>l. c' = WithLogger c l)"

definition identifies :: "EdgeIdentityConfig \<Rightarrow> string \<Rightarrow> req_ctx \<Rightarrow> req_ctx \<Rightarrow> bool" where
  "identifies cfg m c c' \<longleftrightarrow>
     (if m \<in> set (publicMethods cfg) then c' = c
      else \<exists>md cl l. ctx_md c = Some md \<and> c' = WithLogger (WithClaims c cl) l \<and> Tenant cl = firstHeader md HeaderTenantID
        \<and> Subject cl = firstHeader md HeaderActorSubject \<and> Tenant cl \<noteq> [] \<and> Subject cl \<noteq> [])"

definition needs_tenant :: "string \<Rightarrow> req_ctx \<Rightarrow> req_ctx \<Rightarrow> bool" where
  "needs_tenant m c c' \<longleftrightarrow> c' = c \<and> (\<exists>cl. ClaimsFromContext c = Some cl \<and> Tenant cl \<noteq> [])"

lemma Recovery_calls: "Recovery E lg m h ctx req s = (s', x) \<Longrightarrow> called (keeps_ctx m ctx) h req s s'"
  by (cases "h ctx req s"; cases "snd (h ctx req s)")
     (auto simp: Recovery_def keeps_ctx_def Let_def intro!: calledI_call [where h = h and ctx = ctx])

lemma Recovery_neutral: "slot_neutral h \<Longrightarrow> slot_neutral (Recovery E lg m h)"
  by (rule slot_neutralI) (auto simp: Recovery_def Let_def dest: slot_neutralD split: outcome.splits prod.splits)

interpretation recovery: chain_layer "Recovery E lg" keeps_ctx
  by unfold_locales (rule Recovery_calls Recovery_neutral, assumption)+

lemma RequestID_calls:
  assumes "RequestID E m h ctx req s = (s', x)" shows "called (adds_id m ctx) h req s s'"
proof -
  consider i where "h (WithRequestID ctx i) req (SetHeader RequestIDMetadataKey i s) = (s', x)" | "s' = s"
    using assms by (auto simp: RequestID_def Let_def split: if_splits sum.splits)
  then show ?thesis
  proof cases
    case (1 i)
    then show ?thesis by (rule calledI_call [where h = h]) (auto simp: adds_id_def)
  qed (simp add: called_def)
qed

lemma RequestID_neutral: "slot_neutral h \<Longrightarrow> slot_neutral (RequestID E m h)"
  by (rule slot_neutralI) (auto simp: RequestID_def Let_def dest!: slot_neutralD split: if_splits sum.splits)

interpretation request_id: chain_layer "RequestID E" adds_id
  by unfold_locales (rule RequestID_calls RequestID_neutral, assumption)+

lemma Logging_inner:
  assumes "Logging E lg m h ctx req s = (s', x)"
  obtains l s1 y where "h (WithLogger ctx l) req (log_at LevelDebug l ''rpc start'' None s) = (s1, y)" "rs_world s' = rs_world s1"
  using assms by (fastforce simp: Logging_def Let_def split: outcome.splits prod.splits)

lemma Logging_calls: "Logging E lg m h ctx req s = (s', x) \<Longrightarrow> called (adds_logger m ctx) h req s s'"
  by (erule Logging_inner, erule calledI_call [where h = h]) (auto simp: adds_logger_def)

lemma Logging_neutral: "slot_neutral h \<Longrightarrow> slot_neutral (Logging E lg m h)"
  by (rule slot_neutralI, erule Logging_inner) (auto dest!: slot_neutralD)

interpretation logging: chain_layer "Logging E lg" adds_logger
  by unfold_locales (rule Logging_calls Logging_neutral, assumption)+

lemma Admission_inner:
  assumes "Admission cfg m h ctx req s = (s', x)"
  obtains "app s' = app s" "ss_current (rs_world s') = ss_current (rs_world s)"
  | "h ctx req s = (s', x)"
  | s1 where "h ctx req (on_server (\<lambda>w. w\<lparr>ss_current := ss_current (rs_world s) + 1, ss_gauge := ss_current (rs_world s) + 1\<rparr>) s) = (s1, x)"
      "s' = on_server release_slot s1"
  using assms by (auto simp: Admission_def Let_def split: if_splits prod.splits)

lemma Admission_calls:
  assumes "Admission cfg m h ctx req s = (s', x)" shows "called (keeps_ctx m ctx) h req s s'"
  using assms
proof (cases rule: Admission_inner)
  case 2
  then show ?thesis by (rule calledI_call [where h = h]) (auto simp: keeps_ctx_def)
next
  case (3 s1)
  from 3(1) show ?thesis by (rule calledI_call [where h = h]) (auto simp: keeps_ctx_def release_slot_def 3(2))
qed (simp add: called_def)

lemma Admission_neutral: "slot_neutral h \<Longrightarrow> slot_neutral (Admission cfg m h)"
  by (rule slot_neutralI, erule Admission_inner) (auto simp: release_slot_def dest!: slot_neutralD)

interpretation admission: chain_layer "Admission cfg" keeps_ctx
  by unfold_locales (rule Admission_calls Admission_neutral, assumption)+

lemma EdgeIdentity_inner:
  assumes "EdgeIdentity cfg m h ctx req s = (s', x)"
  obtains "s' = s" | c where "identifies cfg m ctx c" "h c req s = (s', x)"
proof (cases "m \<in> set (publicMethods cfg)")
  case True
  with that(2) [of ctx] assms show ?thesis by (simp add: EdgeIdentity_def identifies_def Let_def)
next
  case False
  then have pub: "identifies cfg m ctx c \<longleftrightarrow> (\<exists>md cl l. ctx_md ctx = Some md \<and> c = WithLogger (WithClaims ctx cl) l
      \<and> Tenant cl = firstHeader md HeaderTenantID \<and> Subject cl = firstHeader md HeaderActorSubject \<and> Tenant cl \<noteq> [] \<and> Subject cl \<noteq> [])" for c
    unfolding identifies_def by (simp only: if_False)
  show ?thesis
  proof (cases "s' = s")
    case notsame: False
    with False assms obtain md where md: "ctx_md ctx = Some md" by (auto simp: EdgeIdentity_def Let_def split: option.splits)
    let ?cl = "\<lparr>Subject = firstHeader md HeaderActorSubject, Tenant = firstHeader md HeaderTenantID, Session = firstHeader md HeaderActorSession\<rparr>"
    have "Tenant ?cl \<noteq> [] \<and> Subject ?cl \<noteq> [] \<and> h (WithLogger (WithClaims ctx ?cl) (LoggerFromContext (WithClaims ctx ?cl) @
        [(''auth.sub'', Subject ?cl), (''auth.tenant'', Tenant ?cl)])) req s = (s', x)"
      using assms False md notsame unfolding EdgeIdentity_def by (simp only: Let_def) (auto split: if_splits)
    then show ?thesis using that(2) pub md by (metis Claims.select_convs(1,2))
  qed (use that(1) in blast)
qed

lemma EdgeIdentity_calls:
  assumes "EdgeIdentity cfg m h ctx req s = (s', x)" shows "called (identifies cfg m ctx) h req s s'"
  using assms
proof (cases rule: EdgeIdentity_inner)
  case (2 c)
  from 2(2) show ?thesis by (rule calledI_call [where h = h]) (auto simp: 2(1))
qed (simp add: called_def)

lemma EdgeIdentity_neutral: "slot_neutral h \<Longrightarrow> slot_neutral (EdgeIdentity cfg m h)"
  by (rule slot_neutralI, erule EdgeIdentity_inner) (auto dest: slot_neutralD)

interpretation edge: chain_layer "EdgeIdentity cfg" "identifies cfg"
  by unfold_locales (rule EdgeIdentity_calls EdgeIdentity_neutral, assumption)+

lemma RateLimit_inner:
  assumes "RateLimit E cfg lg m h ctx req s = (s', x)"
  obtains "app s' = app s" "ss_current (rs_world s') = ss_current (rs_world s)"
  | s1 where "app s1 = app s" "ss_current (rs_world s1) = ss_current (rs_world s)" "h ctx req s1 = (s', x)" "needs_tenant m ctx ctx"
proof (cases "needs_tenant m ctx ctx")
  case False
  then have "s' = s" using assms by (auto simp: RateLimit_def needs_tenant_def split: option.splits)
  then show ?thesis using that(1) by simp
next
  case True
  then obtain c where c: "ClaimsFromContext ctx = Some c" "Tenant c \<noteq> []" by (auto simp: needs_tenant_def)
  obtain ls e where e: "getOrCreateLimiter (ic_rate E) (ic_now E) (Tenant c) cfg (ss_limiters (rs_world s)) = (ls, e)" by (rule prod.exhaust)
  obtain l a where a: "rate_Allow (ic_rate E) (ic_now E) (le_limiter e) = (l, a)" by (rule prod.exhaust)
  show ?thesis
  proof (cases a)
    case True
    then have "h ctx req (on_server (\<lambda>w. w\<lparr>ss_limiters := ls(Tenant c \<mapsto> e\<lparr>le_limiter := l, le_lastSeenUnix := time_Unix (ic_now E)\<rparr>)\<rparr>) s) = (s', x)"
      using assms c e a by (simp add: RateLimit_def Let_def)
    from that(2) [OF _ _ this \<open>needs_tenant m ctx ctx\<close>] show ?thesis by simp
  next
    case False
    with assms c e a have "app s' = app s \<and> ss_current (rs_world s') = ss_current (rs_world s)"
      by (auto simp: RateLimit_def Let_def split: if_splits)
    then show ?thesis using that(1) by blast
  qed
qed

lemma RateLimit_calls:
  assumes "RateLimit E cfg lg m h ctx req s = (s', x)" shows "called (needs_tenant m ctx) h req s s'"
  using assms
proof (cases rule: RateLimit_inner)
  case (2 s1)
  from 2(3) show ?thesis by (rule calledI_call [where h = h]) (auto simp: 2)
qed (simp add: called_def)

lemma RateLimit_neutral: "slot_neutral h \<Longrightarrow> slot_neutral (RateLimit E cfg lg m h)"
  by (rule slot_neutralI, erule RateLimit_inner) (auto dest: slot_neutralD)

interpretation rate: chain_layer "RateLimit E cfg lg" needs_tenant
  by unfold_locales (rule RateLimit_calls RateLimit_neutral, assumption)+

section \<open>The chain of the server\<close>

definition chainLayers :: "'l ic_env \<Rightarrow> Server \<Rightarrow> (('l, 'a, 'q, 'r) ic \<times> (string \<Rightarrow> req_ctx \<Rightarrow> req_ctx \<Rightarrow> bool)) list" where
  "chainLayers E v =
     [(Recovery E (Some (srv_log v)), keeps_ctx), (RequestID E, adds_id), (Logging E (Some (srv_log v)), adds_logger)]
     @ (case sc_Admission (srv_cfg v) of None \<Rightarrow> [] | Some a \<Rightarrow> [(Admission a, keeps_ctx)])
     @ [(EdgeIdentity (sc_EdgeIdentity (srv_cfg v)), identifies (sc_EdgeIdentity (srv_cfg v)))]
     @ (case sc_RateLimit (srv_cfg v) of None \<Rightarrow> [] | Some r \<Rightarrow> [(RateLimit E r (srv_log v), needs_tenant)])"

definition public :: "Server \<Rightarrow> string \<Rightarrow> bool" where
  "public v m \<longleftrightarrow> m \<in> set (publicMethods (sc_EdgeIdentity (srv_cfg v)))"

text \<open>The context a handler of method \<open>m\<close> can be called in: with the identity of the caller's
  headers, or with the caller's own claims for a public method; and never without a tenant when a
  rate limit is configured.\<close>

definition reached :: "Server \<Rightarrow> string \<Rightarrow> req_ctx \<Rightarrow> req_ctx \<Rightarrow> bool" where
  "reached v m ctx c \<longleftrightarrow>
     (if public v m then ClaimsFromContext c = ClaimsFromContext ctx
      else \<exists>md cl. ctx_md ctx = Some md \<and> ClaimsFromContext c = Some cl \<and> Tenant cl = firstHeader md HeaderTenantID
        \<and> Subject cl = firstHeader md HeaderActorSubject \<and> Tenant cl \<noteq> [] \<and> Subject cl \<noteq> [])
     \<and> (sc_RateLimit (srv_cfg v) \<noteq> None \<longrightarrow> ClaimsFromContext c \<noteq> None)"

lemma chainLayers_ok: "\<forall>(l, d) \<in> set (chainLayers E v). chain_layer l d"
  by (auto simp: chainLayers_def recovery.chain_layer_axioms request_id.chain_layer_axioms logging.chain_layer_axioms
      admission.chain_layer_axioms edge.chain_layer_axioms rate.chain_layer_axioms split: option.splits)

lemma intChain_layers: "intChain E v = map fst (chainLayers E v)"
  by (simp add: intChain_def chainLayers_def split: option.splits)

lemma serve_call_layers: "serve_call E v = ChainUnaryInterceptor (map fst (chainLayers E v))"
  by (simp add: serve_call_def intChain_layers fun_eq_iff)

interpretation server: chain_layer "serve_call E v :: ('l, 'a, 'q, 'r) ic"
  "\<lambda>m. foldr (\<lambda>d r. d m OO r) (map snd (chainLayers E v :: (('l, 'a, 'q, 'r) ic \<times> (string \<Rightarrow> req_ctx \<Rightarrow> req_ctx \<Rightarrow> bool)) list)) (=)"
  for E :: "'l ic_env" and v
  unfolding serve_call_layers by (rule chain_layers [OF chainLayers_ok])

lemma derived_identity:
  "keeps_ctx m a b \<Longrightarrow> ctx_md b = ctx_md a \<and> ClaimsFromContext b = ClaimsFromContext a"
  "adds_id m a b \<Longrightarrow> ctx_md b = ctx_md a \<and> ClaimsFromContext b = ClaimsFromContext a"
  "adds_logger m a b \<Longrightarrow> ctx_md b = ctx_md a \<and> ClaimsFromContext b = ClaimsFromContext a"
  "needs_tenant m a b \<Longrightarrow> ctx_md b = ctx_md a \<and> ClaimsFromContext b = ClaimsFromContext a \<and> (\<exists>cl. ClaimsFromContext a = Some cl)"
  by (auto simp: keeps_ctx_def adds_id_def adds_logger_def needs_tenant_def ctx_defs)

lemma identifies_claims:
  "identifies cfg m a b \<Longrightarrow> if m \<in> set (publicMethods cfg) then ClaimsFromContext b = ClaimsFromContext a
     else \<exists>md cl. ctx_md a = Some md \<and> ClaimsFromContext b = Some cl \<and> Tenant cl = firstHeader md HeaderTenantID
        \<and> Subject cl = firstHeader md HeaderActorSubject \<and> Tenant cl \<noteq> [] \<and> Subject cl \<noteq> []"
  by (auto simp: identifies_def ctx_defs split: if_splits)

lemma derives_reached:
  "foldr (\<lambda>d r. d m OO r) (map snd (chainLayers E v)) (=) ctx c \<Longrightarrow> reached v m ctx c"
  unfolding chainLayers_def reached_def public_def
  by (cases "sc_Admission (srv_cfg v)"; cases "sc_RateLimit (srv_cfg v)")
     (auto simp: OO_def dest!: derived_identity identifies_claims split: if_splits, metis+)

lemma called_mono: "called P h req s s' \<Longrightarrow> (\<And>c. P c \<Longrightarrow> G c) \<Longrightarrow> called G h req s s'"
  unfolding called_def by blast

lemma serve_calls: "serve_call E v m h ctx req s = (s', x) \<Longrightarrow> called (reached v m ctx) h req s s'"
  by (drule server.calls) (erule called_mono, erule derives_reached)

lemma serve_recovery:
  "\<exists>rest. serve_call E v m h = Recovery E (Some (srv_log v)) m rest"
  by (rule exI) (simp add: serve_call_def intChain_def)

lemma Recovery_no_panic: "Recovery E lg m h ctx req s = (s', x) \<Longrightarrow> x \<noteq> Panic r"
  by (auto simp: Recovery_def Let_def split: outcome.splits prod.splits)

text \<open>C13: whatever the handler does, panics included, a call through the server's chain ends with
  an answer or a status error and gives back the admission slot it took, provided the handler
  itself does not touch the admission counter.\<close>

theorem calls_survive_panics:
  assumes "slot_neutral h" "serve_call E v m h ctx req s = (s', x)"
  shows "(\<forall>r. x \<noteq> Panic r) \<and> ss_current (rs_world s') = ss_current (rs_world s)"
proof -
  obtain rest where r: "serve_call E v m h = Recovery E (Some (srv_log v)) m rest" using serve_recovery by blast
  with assms(2) Recovery_no_panic have "x \<noteq> Panic r" for r by metis
  moreover have "ss_current (rs_world s') = ss_current (rs_world s)"
    using slot_neutralD [OF server.neutral [OF assms(1)] assms(2)] .
  ultimately show ?thesis by blast
qed

section \<open>Public methods under a rate limit\<close>

text \<open>Without claims \<open>RateLimit\<close> never lets the handler run, and what it returns is no answer;
  the layers around it keep it so.\<close>

definition never_answers :: "(req_ctx \<Rightarrow> bool) \<Rightarrow> ('w, 'q, 'r) handler \<Rightarrow> bool" where
  "never_answers P h \<longleftrightarrow> (\<forall>ctx req s r. P ctx \<longrightarrow> snd (h ctx req s) \<noteq> Reply r)"

definition anonymous :: "req_ctx \<Rightarrow> bool" where
  "anonymous ctx \<longleftrightarrow> ClaimsFromContext ctx = None"

lemma anonymous_with [simp]:
  "anonymous (WithRequestID ctx i) = anonymous ctx" "anonymous (WithLogger ctx l) = anonymous ctx"
  by (simp_all add: anonymous_def ctx_defs)

lemma never_RateLimit: "never_answers anonymous (RateLimit E cfg lg m h)"
  by (auto simp: never_answers_def anonymous_def RateLimit_def)

lemma never_Edge: "m \<in> set (publicMethods cfg) \<Longrightarrow> never_answers anonymous h \<Longrightarrow> never_answers anonymous (EdgeIdentity cfg m h)"
  by (simp add: never_answers_def EdgeIdentity_def Let_def)

lemma never_Admission: "never_answers anonymous h \<Longrightarrow> never_answers anonymous (Admission cfg m h)"
  by (simp add: never_answers_def Admission_def Let_def split: prod.splits) (metis snd_conv)

lemma never_Logging: "never_answers anonymous h \<Longrightarrow> never_answers anonymous (Logging E lg m h)"
  unfolding never_answers_def
proof (intro allI impI)
  fix ctx req s r assume n: "\<forall>ctx req s r. anonymous ctx \<longrightarrow> snd (h ctx req s) \<noteq> Reply r" and a: "anonymous ctx"
  let ?l = "(case lg of None \<Rightarrow> [] | Some l \<Rightarrow> l) @ [(''rpc.method'', m), (''request_id'', RequestIDFromContext ctx), (''rpc.peer'', peerAddr ctx)]"
  obtain s1 y where h: "h (WithLogger ctx ?l) req (log_at LevelDebug ?l ''rpc start'' None s) = (s1, y)" by (rule prod.exhaust)
  from n a have "snd (h (WithLogger ctx ?l) req (log_at LevelDebug ?l ''rpc start'' None s)) \<noteq> Reply r" by simp
  with h show "snd (Logging E lg m h ctx req s) \<noteq> Reply r" by (cases y) (auto simp: Logging_def Let_def)
qed

lemma never_RequestID: "never_answers anonymous h \<Longrightarrow> never_answers anonymous (RequestID E m h)"
  by (auto simp: never_answers_def RequestID_def Let_def split: sum.splits)

lemma never_Recovery: "never_answers anonymous h \<Longrightarrow> never_answers anonymous (Recovery E lg m h)"
  by (auto simp: never_answers_def Recovery_def Let_def split: prod.splits outcome.splits) (metis snd_conv)+

text \<open>C37: with a rate limit configured, an unauthenticated caller of a public method (a health
  check) never gets an answer, for the limiter that follows \<open>EdgeIdentity\<close> in the chain refuses
  calls without a tenant.\<close>

theorem public_methods_are_refused:
  assumes "sc_RateLimit (srv_cfg v) = Some cfg" "public v m" "anonymous ctx"
  shows "snd (serve_call E v m h ctx req s) \<noteq> Reply r"
proof -
  have "never_answers anonymous (serve_call E v m h)"
    using assms(1,2) unfolding serve_call_def intChain_def public_def
    by (auto split: option.splits intro!: never_Recovery never_RequestID never_Logging never_Admission never_Edge never_RateLimit)
  with assms(3) show ?thesis unfolding never_answers_def by blast
qed

section \<open>Witnesses\<close>

definition sample_env :: "unit ic_env" where
  "sample_env = \<lparr>ic_ustr = (\<lambda>u. ''id''), ic_NewV7 = Inr 1, ic_now = 0, ic_elapsed = ''1ms'', ic_stack = [],
     ic_code_String = (\<lambda>c. ''code''),
     ic_rate = \<lparr>rate_NewLimiter = (\<lambda>r b. ()), rate_Allow = (\<lambda>now l. (l, True)), rate_Limit = (\<lambda>l. 100)\<rparr>, ic_convert = (\<lambda>x. 0)\<rparr>"

definition sample_server :: Server where
  "sample_server = projr (NewServer Inr
     (defaultServerConfig\<lparr>sc_RateLimit := Some DefaultRateLimitConfig, sc_Admission := Some (DefaultAdmission 1)\<rparr>) None)"

definition sample_call_state :: "(unit, unit) server_state rpc_state" where
  "sample_call_state = \<lparr>rs_world = \<lparr>ss_current = 0, ss_gauge = 0, ss_limiters = Map.empty, ss_rejected = [], ss_app = ()\<rparr>,
     rs_header = [], rs_trailer = [], rs_log = []\<rparr>"

definition crashes :: "((unit, unit) server_state, unit, unit) handler" where
  "crashes ctx req s = (s, Panic ''boom'')"

lemma sample_server_config:
  "sc_RateLimit (srv_cfg sample_server) = Some DefaultRateLimitConfig"
  "sc_EdgeIdentity (srv_cfg sample_server) = \<lparr>ei_PublicMethods = Some DefaultPublicMethods\<rparr>"
  by (simp_all add: sample_server_def NewServer_def withPublicMethods_def withDefaults_def defaultServerConfig_def Let_def)

theorem calls_survive_panics_witness:
  "\<exists>s' x. serve_call sample_env sample_server ''/m'' crashes background () sample_call_state = (s', x)
     \<and> (\<forall>r. x \<noteq> Panic r) \<and> ss_current (rs_world s') = 0"
proof -
  obtain s' x where c: "serve_call sample_env sample_server ''/m'' crashes background () sample_call_state = (s', x)"
    by (rule prod.exhaust)
  have "slot_neutral crashes" by (simp add: slot_neutral_def crashes_def)
  from calls_survive_panics [OF this c] c show ?thesis by (simp add: sample_call_state_def)
qed

theorem public_methods_are_refused_witness:
  "snd (serve_call sample_env sample_server ''/grpc.health.v1.Health/Check'' crashes background () sample_call_state) \<noteq> Reply ()"
proof (rule public_methods_are_refused [OF sample_server_config(1)])
  show "public sample_server ''/grpc.health.v1.Health/Check''"
    by (simp add: public_def publicMethods_def sample_server_config(2) DefaultPublicMethods_def)
  show "anonymous background" by (simp add: anonymous_def ClaimsFromContext_def background_def)
qed

end
