(* ===== verification/Go_Flag.thy ===== *)
theory Go_Flag
  imports Money
begin

text \<open>
  The part of Go's \<open>flag\<close> and \<open>strconv\<close> packages the commands use: the syntax of the command line, the
  values of bool, int and uint64 flags, and the level names of \<open>log/slog\<close>. Parsing a written command
  line gives back what was written.
\<close>

section \<open>Values\<close>

definition strconv_ParseBool :: "string \<Rightarrow> bool option" where
  "strconv_ParseBool s =
     (if s \<in> {''1'', ''t'', ''T'', ''TRUE'', ''true'', ''True''} then Some True
      else if s \<in> {''0'', ''f'', ''F'', ''FALSE'', ''false'', ''False''} then Some False else None)"

text \<open>\<open>strconv.Atoi\<close>: an optional sign and decimal digits, in the int64 range.\<close>

definition strconv_Atoi :: "string \<Rightarrow> int option" where
  "strconv_Atoi s =
     (let neg = (s \<noteq> [] \<and> hd s = CHR ''-''); ds = (if s \<noteq> [] \<and> hd s \<in> {CHR ''-'', CHR ''+''} then tl s else s);
          n = (if neg then - int (digits_val ds) else int (digits_val ds))
      in if ds = [] \<or> \<not> list_all is_digit ds then None else if in_int64 n then Some n else None)"

definition char_lower :: "char \<Rightarrow> char" where
  "char_lower c = (if c \<in> {CHR ''A''..CHR ''Z''} then char_of (of_char c + 32 :: nat) else c)"

definition digit_value :: "char \<Rightarrow> nat option" where
  "digit_value c =
     (let l = char_lower c in
      if c \<in> {CHR ''0''..CHR ''9''} then Some (of_char c - 48)
      else if l \<in> {CHR ''a''..CHR ''z''} then Some (of_char l - 87) else None)"

text \<open>Base 0: the prefix gives the base, and underscores may separate digits.\<close>

definition base_prefix :: "string \<Rightarrow> nat \<times> string" where
  "base_prefix s =
     (if s = [] \<or> hd s \<noteq> CHR ''0'' then (10, s)
      else if length s \<ge> 3 \<and> char_lower (s ! 1) = CHR ''b'' then (2, drop 2 s)
      else if length s \<ge> 3 \<and> char_lower (s ! 1) = CHR ''o'' then (8, drop 2 s)
      else if length s \<ge> 3 \<and> char_lower (s ! 1) = CHR ''x'' then (16, drop 2 s)
      else (8, drop 1 s))"

fun base_digits :: "nat \<Rightarrow> string \<Rightarrow> nat \<Rightarrow> nat option" where
  "base_digits b [] n = Some n"
| "base_digits b (c # s) n =
     (if c = CHR ''_'' then base_digits b s n
      else case digit_value c of None \<Rightarrow> None | Some k \<Rightarrow> if k < b then base_digits b s (n * b + k) else None)"

text \<open>\<open>seen\<close> is the last character: \<^const>\<open>None\<close> for neither digit nor underscore, otherwise whether it
  was an underscore; a base prefix counts as a digit.\<close>

fun underscores_ok :: "bool \<Rightarrow> bool option \<Rightarrow> string \<Rightarrow> bool" where
  "underscores_ok hex seen [] = (seen \<noteq> Some True)"
| "underscores_ok hex seen (c # s) =
     (if c \<in> {CHR ''0''..CHR ''9''} \<or> hex \<and> char_lower c \<in> {CHR ''a''..CHR ''f''} then underscores_ok hex (Some False) s
      else if c = CHR ''_'' then (if seen \<noteq> Some False then False else underscores_ok hex (Some True) s)
      else if seen = Some True then False else underscores_ok hex None s)"

definition underscoreOK :: "string \<Rightarrow> bool" where
  "underscoreOK s =
     (if length s \<ge> 2 \<and> hd s = CHR ''0'' \<and> char_lower (s ! 1) \<in> set ''box''
      then underscores_ok (char_lower (s ! 1) = CHR ''x'') (Some False) (drop 2 s)
      else underscores_ok False None s)"

definition strconv_ParseUint :: "string \<Rightarrow> nat option" where
  "strconv_ParseUint s =
     (if s = [] then None
      else case base_prefix s of (b, ds) \<Rightarrow>
        case base_digits b ds 0 of
          None \<Rightarrow> None
        | Some n \<Rightarrow> if CHR ''_'' \<in> set ds \<and> \<not> underscoreOK s then None else if n < 2 ^ 64 then Some n else None)"

definition strconv_ParseInt :: "string \<Rightarrow> int option" where
  "strconv_ParseInt s =
     (let neg = (s \<noteq> [] \<and> hd s = CHR ''-'');
          u = (if s \<noteq> [] \<and> hd s \<in> {CHR ''-'', CHR ''+''} then tl s else s)
      in case strconv_ParseUint u of
           None \<Rightarrow> None
         | Some n \<Rightarrow> let i = (if neg then - int n else int n) in if in_int64 i then Some i else None)"

section \<open>The command line\<close>

record flag_decl =
  fd_name :: string
  fd_bool :: bool
  fd_accepts :: "string \<Rightarrow> bool"

datatype flag_error = ErrHelp | FlagError string

datatype flag_word = NotAFlag | Terminator | BadSyntax | FlagWord string

definition flag_word_of :: "string \<Rightarrow> flag_word" where
  "flag_word_of s =
     (if length s < 2 \<or> hd s \<noteq> CHR ''-'' then NotAFlag
      else if s = ''--'' then Terminator
      else let name = (if s ! 1 = CHR ''-'' then drop 2 s else drop 1 s)
           in if name = [] \<or> hd name \<in> {CHR ''-'', CHR ''=''} then BadSyntax else FlagWord name)"

text \<open>The assignments made, in order, and the arguments that are left.\<close>

fun flag_Parse :: "flag_decl list \<Rightarrow> string list \<Rightarrow> (string \<times> string) list \<Rightarrow> flag_error + (string \<times> string) list \<times> string list" where
  "flag_Parse ds [] acc = Inr (acc, [])"
| "flag_Parse ds (s # rest) acc =
     (case flag_word_of s of
        NotAFlag \<Rightarrow> Inr (acc, s # rest)
      | Terminator \<Rightarrow> Inr (acc, rest)
      | BadSyntax \<Rightarrow> Inl (FlagError (''bad flag syntax: '' @ s))
      | FlagWord w \<Rightarrow>
     (case strings_Cut w CHR ''='' of (name, v, has) \<Rightarrow>
     (case find (\<lambda>d. fd_name d = name) ds of
        None \<Rightarrow> if name = ''help'' \<or> name = ''h'' then Inl ErrHelp
                else Inl (FlagError (''flag provided but not defined: -'' @ name))
      | Some d \<Rightarrow>
          if has \<or> fd_bool d then
            let v = (if has then v else ''true'')
            in if fd_accepts d v then flag_Parse ds rest (acc @ [(name, v)])
               else Inl (FlagError (''invalid value for flag -'' @ name))
          else (case rest of
                  [] \<Rightarrow> Inl (FlagError (''flag needs an argument: -'' @ name))
                | v # rest' \<Rightarrow> if fd_accepts d v then flag_Parse ds rest' (acc @ [(name, v)])
                               else Inl (FlagError (''invalid value for flag -'' @ name))))))"

text \<open>The value of a flag: its last assignment, else its default.\<close>

definition flag_value :: "(string \<times> string) list \<Rightarrow> string \<Rightarrow> (string \<Rightarrow> 'a option) \<Rightarrow> 'a \<Rightarrow> 'a" where
  "flag_value as name conv deflt =
     (case map_of (rev as) name of None \<Rightarrow> deflt | Some v \<Rightarrow> (case conv v of None \<Rightarrow> deflt | Some x \<Rightarrow> x))"

section \<open>Levels\<close>

text \<open>\<open>Level.UnmarshalText\<close>: a name in any case, with an optional signed offset.\<close>

definition slog_levels :: "(string \<times> int) list" where
  "slog_levels = [(''DEBUG'', - 4), (''INFO'', 0), (''WARN'', 4), (''ERROR'', 8)]"

definition char_upper :: "char \<Rightarrow> char" where
  "char_upper c = (if c \<in> {CHR ''a''..CHR ''z''} then char_of (of_char c - 32 :: nat) else c)"

definition UnmarshalLevel :: "string \<Rightarrow> int option" where
  "UnmarshalLevel s =
     (let name = takeWhile (\<lambda>c. c \<noteq> CHR ''+'' \<and> c \<noteq> CHR ''-'') s; off = drop (length name) s
      in case map_of slog_levels (map char_upper name) of
           None \<Rightarrow> None
         | Some l \<Rightarrow> if off = [] then Some l else map_option (\<lambda>n. to_int64 (l + n)) (strconv_Atoi off))"

text \<open>\<open>newLogger\<close> of both programs: an unknown level is INFO.\<close>

definition newLogger_level :: "string \<Rightarrow> int" where
  "newLogger_level level = (case UnmarshalLevel level of None \<Rightarrow> 0 | Some l \<Rightarrow> l)"

section \<open>Written and parsed\<close>

definition flag_written :: "string \<times> string \<Rightarrow> string" where
  "flag_written a = ''-'' @ fst a @ ''='' @ snd a"

definition assignable :: "flag_decl list \<Rightarrow> string \<times> string \<Rightarrow> bool" where
  "assignable ds a \<longleftrightarrow> fst a \<noteq> [] \<and> hd (fst a) \<noteq> CHR ''-'' \<and> CHR ''='' \<notin> set (fst a)
     \<and> (\<exists>d. find (\<lambda>d. fd_name d = fst a) ds = Some d \<and> fd_accepts d (snd a))"

lemma flag_word_written: "assignable ds a \<Longrightarrow> flag_word_of (flag_written a) = FlagWord (fst a @ ''='' @ snd a)"
  by (cases "fst a") (auto simp: assignable_def flag_word_of_def flag_written_def)

theorem flags_roundtrip:
  assumes "list_all (assignable ds) as" "args = [] \<or> flag_word_of (hd args) = NotAFlag"
  shows "flag_Parse ds (map flag_written as @ args) acc = Inr (acc @ as, args)"
  using assms(1)
proof (induction as arbitrary: acc)
  case Nil
  show ?case using assms(2) by (cases args) auto
next
  case (Cons a as)
  then obtain d where d: "find (\<lambda>d. fd_name d = fst a) ds = Some d" "fd_accepts d (snd a)" "CHR ''='' \<notin> set (fst a)"
    by (auto simp: assignable_def)
  have cut: "strings_Cut (fst a @ CHR ''='' # snd a) CHR ''='' = (fst a, snd a, True)"
    using strings_Cut_append [OF d(3), of "snd a"] by simp
  show ?case using Cons flag_word_written [of ds a] d by (simp add: cut)
qed

text \<open>Every assignment is to a declared flag and its value is one the flag accepts.\<close>

definition accepted :: "flag_decl list \<Rightarrow> string \<times> string \<Rightarrow> bool" where
  "accepted ds a \<longleftrightarrow> list_ex (\<lambda>d. fd_name d = fst a \<and> fd_accepts d (snd a)) ds"

lemma accepted_found: "find (\<lambda>d. fd_name d = n) ds = Some d \<Longrightarrow> fd_accepts d v \<Longrightarrow> accepted ds (n, v)"
  by (auto simp: accepted_def list_ex_iff find_Some_iff intro!: bexI [OF _ nth_mem])

theorem flags_accepted:
  assumes "flag_Parse ds args acc = Inr (as, rest)" "list_all (accepted ds) acc"
  shows "list_all (accepted ds) as"
  using assms
proof (induction ds args acc rule: flag_Parse.induct)
  case (2 ds s rest acc)
  from 2(3) show ?case
  proof (cases "flag_word_of s")
    case (FlagWord w)
    obtain name v has where cut: "strings_Cut w CHR ''='' = (name, v, has)" by (metis prod_cases3)
    with 2(3) FlagWord obtain d where d: "find (\<lambda>d. fd_name d = name) ds = Some d" by (auto split: option.splits if_splits)
    show ?thesis
    proof (cases "has \<or> fd_bool d")
      case True
      with 2(3) FlagWord cut d have "fd_accepts d (if has then v else ''true'')"
        by (auto simp: Let_def split: if_splits)
      with 2(3) FlagWord cut d True show ?thesis
        using 2(1) [OF FlagWord cut [symmetric] refl d True refl] 2(4) accepted_found [OF d]
        by (auto simp: Let_def split: if_splits)
    next
      case False
      with 2(3) FlagWord cut d show ?thesis using 2(2) [OF FlagWord cut [symmetric] refl d False] 2(4) accepted_found
        by (auto split: list.splits if_splits)
    qed
  qed (use 2 in auto)
qed simp

lemma newLogger_default: "UnmarshalLevel level = None \<Longrightarrow> newLogger_level level = 0"
  by (simp add: newLogger_level_def)

lemma ParseInt_in_range: "strconv_ParseInt s = Some n \<Longrightarrow> in_int64 n"
  by (auto simp: strconv_ParseInt_def Let_def split: option.splits if_splits)

end
