(* ===== verification/Tools.thy ===== *)
theory Tools
  imports Audit_Hash Database Go_Time Go_Flag
begin

text \<open>
  The two command-line tools: \<open>cmd/loadtest\<close>, which seeds accounts with reproducible ids and writes
  the fixtures of the load runner, and \<open>cmd/migrate\<close>, the command dispatch around golang-migrate.
  The JSON encoder, the file system, net/url and the migrate library are arguments.
\<close>

section \<open>loadtest: account ids\<close>

definition be64 :: "nat \<Rightarrow> bytes" where
  "be64 n = map (\<lambda>i. char_of (n div 256 ^ i mod 256 :: nat)) (rev [0..<8])"

definition uuid_of_bytes :: "bytes \<Rightarrow> UUID" where
  "uuid_of_bytes bs = of_nat (foldl (\<lambda>a c. a * 256 + of_char c) 0 bs)"

text \<open>The masks \<open>(b AND 0x0F) OR 0x70\<close> and \<open>(b AND 0x3F) OR 0x80\<close> of bytes 6 and 8.\<close>

definition version7 :: "char \<Rightarrow> char" where
  "version7 c = char_of (of_char c mod 16 + 112 :: nat)"

definition variant10 :: "char \<Rightarrow> char" where
  "variant10 c = char_of (of_char c mod 64 + 128 :: nat)"

definition deterministicAccountID_bytes :: "nat \<Rightarrow> string \<Rightarrow> nat \<Rightarrow> bytes" where
  "deterministicAccountID_bytes seed tenant idx =
     (let u = take 16 (sha256 (be64 seed @ tenant @ be64 idx));
          u = u[6 := version7 (u ! 6)]
      in u[8 := variant10 (u ! 8)])"

definition deterministicAccountID :: "nat \<Rightarrow> string \<Rightarrow> nat \<Rightarrow> UUID" where
  "deterministicAccountID seed tenant idx = uuid_of_bytes (deterministicAccountID_bytes seed tenant idx)"

section \<open>loadtest: seeding\<close>

record seedFlags =
  sf_dsn :: string
  sf_tenants :: nat
  sf_accountsPerTenant :: nat
  sf_currency :: string
  sf_rngSeed :: nat
  sf_concurrency :: nat
  sf_fixturesPath :: string

record accountSpec =
  as_id :: UUID
  as_tenant :: string
  as_currency :: string

definition tenant_name :: "nat \<Rightarrow> string" where
  "tenant_name ti = ''tenant-'' @ pad_int 6 (int ti)"

definition seed_jobs :: "seedFlags \<Rightarrow> accountSpec list" where
  "seed_jobs f =
     concat (map (\<lambda>ti. map (\<lambda>ai. \<lparr>as_id = deterministicAccountID (sf_rngSeed f) (tenant_name ti) ai,
                                     as_tenant = tenant_name ti, as_currency = sf_currency f\<rparr>)
                          [0..<sf_accountsPerTenant f]) [0..<sf_tenants f])"

text \<open>\<open>INSERT INTO accounts \<dots> ON CONFLICT (id) DO NOTHING\<close>; \<open>created_at\<close> defaults to the time of
  the statement.\<close>

definition seed_insert :: "instant \<Rightarrow> accountSpec \<Rightarrow> db \<Rightarrow> db result" where
  "seed_insert now spec d =
     (if list_ex (\<lambda>r. acc_ID r = as_id spec) (accounts d) then Inr d
      else insert_account \<lparr>acc_ID = as_id spec, acc_TenantID = as_tenant spec, acc_Currency = as_currency spec,
             acc_Status = ''ACTIVE'', acc_CreatedAt = now\<rparr> d)"

record seed_counts =
  sc_inserted :: nat
  sc_skipped :: nat
  sc_failed :: nat

definition isCtxErr :: "go_error \<Rightarrow> bool" where
  "isCtxErr err \<longleftrightarrow> errors_Is err ContextCanceled \<or> errors_Is err ContextDeadlineExceeded"

text \<open>One received job: \<open>fault\<close> is an error of the driver, \<open>is_dup\<close> whether the text of an error
  contains the word duplicate. A context error ends the worker without a count.\<close>

definition seed_job :: "(go_error \<Rightarrow> bool) \<Rightarrow> go_error option \<Rightarrow> instant \<Rightarrow> accountSpec \<Rightarrow> db \<times> seed_counts \<Rightarrow> db \<times> seed_counts" where
  "seed_job is_dup fault now spec s =
     (case (case fault of Some e \<Rightarrow> Inl e | None \<Rightarrow> seed_insert now spec (fst s)) of
        Inr d \<Rightarrow> (d, (snd s)\<lparr>sc_inserted := sc_inserted (snd s) + 1\<rparr>)
      | Inl err \<Rightarrow>
          if isCtxErr err then s
          else if is_dup err then (fst s, (snd s)\<lparr>sc_skipped := sc_skipped (snd s) + 1\<rparr>)
          else (fst s, (snd s)\<lparr>sc_failed := sc_failed (snd s) + 1\<rparr>))"

text \<open>The jobs the workers receive, in the order the database executes them, each with its fault and
  time.\<close>

fun seed_jobs_run :: "(go_error \<Rightarrow> bool) \<Rightarrow> (accountSpec \<times> go_error option \<times> instant) list \<Rightarrow> db \<times> seed_counts \<Rightarrow> db \<times> seed_counts" where
  "seed_jobs_run is_dup [] s = s"
| "seed_jobs_run is_dup ((spec, fault, now) # js) s = seed_jobs_run is_dup js (seed_job is_dup fault now spec s)"

section \<open>loadtest: fixtures\<close>

record fixturesMeta =
  fm_RNGSeed :: nat
  fm_AccountsPerTenant :: nat
  fm_TotalAccounts :: nat
  fm_HotShareHint :: rat

record fixtures =
  fx_Currency :: string
  fx_Tenants :: "string list"
  fx_AccountsByIndex :: "string list list"
  fx_Meta :: fixturesMeta

definition build_fixtures :: "(UUID \<Rightarrow> string) \<Rightarrow> seedFlags \<Rightarrow> fixtures" where
  "build_fixtures ustr f =
     \<lparr>fx_Currency = sf_currency f,
      fx_Tenants = map tenant_name [0..<sf_tenants f],
      fx_AccountsByIndex = map (\<lambda>ti. map (\<lambda>ai. ustr (deterministicAccountID (sf_rngSeed f) (tenant_name ti) ai))
                                [0..<sf_accountsPerTenant f]) [0..<sf_tenants f],
      fx_Meta = \<lparr>fm_RNGSeed = sf_rngSeed f, fm_AccountsPerTenant = sf_accountsPerTenant f,
                 fm_TotalAccounts = sf_tenants f * sf_accountsPerTenant f, fm_HotShareHint = 8 / 10\<rparr>\<rparr>"

record fixture_io =
  io_marshal :: "fixtures \<Rightarrow> bytes result"
  io_stdout :: "bytes \<Rightarrow> go_error option"
  io_Dir :: "string \<Rightarrow> string"
  io_MkdirAll :: "string \<Rightarrow> go_error option"
  io_WriteFile :: "string \<Rightarrow> bytes \<Rightarrow> go_error option"

definition writeFixtures :: "fixture_io \<Rightarrow> (UUID \<Rightarrow> string) \<Rightarrow> seedFlags \<Rightarrow> go_error option" where
  "writeFixtures IO ustr f =
     (case io_marshal IO (build_fixtures ustr f) of
        Inl err \<Rightarrow> Some err
      | Inr data \<Rightarrow>
          if sf_fixturesPath f = ''-'' then io_stdout IO data
          else
            let dir = io_Dir IO (sf_fixturesPath f);
                mk = (if dir \<noteq> [] then io_MkdirAll IO dir else None)
            in case mk of Some err \<Rightarrow> Some err | None \<Rightarrow> io_WriteFile IO (sf_fixturesPath f) data)"

text \<open>The pool is opened and pinged before anything is seeded.\<close>

definition seed_connect :: "(string \<Rightarrow> go_error option) \<Rightarrow> go_error option \<Rightarrow> seedFlags \<Rightarrow> go_error option" where
  "seed_connect new ping f =
     (if sf_dsn f = [] then Some (Errorf [Lit ''missing -dsn (or set DATABASE_URL)''])
      else case new (sf_dsn f) of
        Some err \<Rightarrow> Some (Errorf [Lit ''pgxpool.New: '', W err])
      | None \<Rightarrow> (case ping of
          Some err \<Rightarrow> Some (Errorf [Lit ''pgxpool.Ping: '', W err])
        | None \<Rightarrow> None))"

definition runSeed :: "(string \<Rightarrow> go_error option) \<Rightarrow> go_error option \<Rightarrow> fixture_io \<Rightarrow> (UUID \<Rightarrow> string) \<Rightarrow> (go_error \<Rightarrow> bool)
    \<Rightarrow> (accountSpec \<times> go_error option \<times> instant) list \<Rightarrow> seedFlags \<Rightarrow> db \<Rightarrow> db \<times> go_error option" where
  "runSeed new ping IO ustr is_dup js f d =
     (case seed_connect new ping f of
        Some err \<Rightarrow> (d, Some err)
      | None \<Rightarrow>
     (case seed_jobs_run is_dup js (d, \<lparr>sc_inserted = 0, sc_skipped = 0, sc_failed = 0\<rparr>) of
        (d1, c) \<Rightarrow>
          if sc_failed c > 0
          then (d1, Some (Errorf [Lit ''seed had '', D (int (sc_failed c)), Lit '' failures (check connectivity / schema)'']))
          else (case writeFixtures IO ustr f of
                  Some err \<Rightarrow> (d1, Some (Errorf [Lit ''write fixtures: '', W err]))
                | None \<Rightarrow> (d1, None))))"

section \<open>migrate\<close>

definition toFileURL :: "string \<Rightarrow> string" where
  "toFileURL p = (if length p \<ge> 7 \<and> take 7 p = ''file://'' then p else ''file://'' @ p)"

text \<open>What \<open>normalizeDSN\<close> uses of net/url: parsing, a query parameter, setting one, and the text.\<close>

record 'u net_url =
  url_Parse :: "string \<Rightarrow> 'u option"
  url_Get :: "'u \<Rightarrow> string \<Rightarrow> string"
  url_Set :: "'u \<Rightarrow> string \<Rightarrow> string \<Rightarrow> 'u"
  url_String :: "'u \<Rightarrow> string"

definition normalizeDSN :: "'u net_url \<Rightarrow> string \<Rightarrow> string" where
  "normalizeDSN N dsn =
     (case url_Parse N dsn of
        None \<Rightarrow> dsn
      | Some u \<Rightarrow> url_String N (if url_Get N u ''sslmode'' = [] then url_Set N u ''sslmode'' ''disable'' else u))"

datatype migrate_error = ErrNoChange | ErrNilVersion | OtherMigrateError string

record migrate_lib =
  mg_New :: "string \<Rightarrow> string \<Rightarrow> string option"
  mg_Up :: "migrate_error option"
  mg_Steps :: "int \<Rightarrow> migrate_error option"
  mg_Version :: "migrate_error + nat \<times> bool"
  mg_Force :: "int \<Rightarrow> migrate_error option"

text \<open>How the process ends: its exit code and what it prints.\<close>

datatype exit = Exit nat string | ExitWithError nat string "migrate_error option"

definition runErr :: "migrate_error option \<Rightarrow> exit" where
  "runErr err =
     (case err of
        None \<Rightarrow> Exit 0 ''ok''
      | Some ErrNoChange \<Rightarrow> Exit 0 ''ok''
      | Some e \<Rightarrow> ExitWithError 1 [] (Some e))"

definition migrate_main :: "'u net_url \<Rightarrow> migrate_lib \<Rightarrow> string \<Rightarrow> string \<Rightarrow> string list \<Rightarrow> exit" where
  "migrate_main N M dsn path args =
     (if dsn = [] then Exit 1 ''DATABASE_URL (or -dsn) is required''
      else case args of
        [] \<Rightarrow> Exit 2 ''usage''
      | cmd # rest \<Rightarrow>
     (case mg_New M (toFileURL path) (normalizeDSN N dsn) of
        Some err \<Rightarrow> Exit 1 (''init migrate: '' @ err)
      | None \<Rightarrow>
          if cmd = ''up'' then runErr (mg_Up M)
          else if cmd = ''down'' then
            (case rest of
               [] \<Rightarrow> runErr (mg_Steps M (- 1))
             | a # _ \<Rightarrow> (case strconv_Atoi a of
                 None \<Rightarrow> Exit 1 ''down: <n> must be a positive integer''
               | Some n \<Rightarrow> if n \<le> 0 then Exit 1 ''down: <n> must be a positive integer'' else runErr (mg_Steps M (- n))))
          else if cmd = ''version'' then
            (case mg_Version M of
               Inl ErrNilVersion \<Rightarrow> Exit 0 ''no migrations applied yet''
             | Inl e \<Rightarrow> ExitWithError 1 ''version: '' (Some e)
             | Inr (v, dirty) \<Rightarrow> Exit 0 (''version='' @ FormatInt (int v) @ '' dirty='' @ (if dirty then ''true'' else ''false'')))
          else if cmd = ''force'' then
            (case rest of
               [] \<Rightarrow> Exit 1 ''force: <version> required''
             | a # _ \<Rightarrow> (case strconv_Atoi a of
                 None \<Rightarrow> Exit 1 ''force: <version> must be an integer''
               | Some v \<Rightarrow> (case mg_Force M v of
                   Some e \<Rightarrow> ExitWithError 1 ''force: '' (Some e)
                 | None \<Rightarrow> Exit 0 (''forced version='' @ FormatInt v))))
          else Exit 1 (''unknown command: '' @ cmd)))"

section \<open>What the tools promise\<close>

lemma length_account_id: "length (deterministicAccountID_bytes seed tenant idx) = min 16 (length (sha256 (be64 seed @ tenant @ be64 idx)))"
  by (simp add: deterministicAccountID_bytes_def Let_def)

text \<open>A second run over the same jobs changes nothing: every id is already there.\<close>

lemma seed_insert_again: "seed_insert now spec d = Inr d' \<Longrightarrow> seed_insert later spec d' = Inr d'"
  by (auto simp: seed_insert_def insert_account_def list_ex_iff split: if_splits)

text \<open>An account that is there stays, with everything it holds.\<close>

lemma seed_job_keeps: "a \<in> set (accounts (fst s)) \<Longrightarrow> a \<in> set (accounts (fst (seed_job is_dup fault now spec s)))"
  by (auto simp: seed_job_def seed_insert_def insert_account_def split: option.splits sum.splits if_splits)

lemma seed_run_keeps: "a \<in> set (accounts (fst s)) \<Longrightarrow> a \<in> set (accounts (fst (seed_jobs_run is_dup js s)))"
proof (induction js arbitrary: s)
  case (Cons j js)
  obtain spec fault now where j: "j = (spec, fault, now)" by (cases j)
  show ?case using Cons.IH [OF seed_job_keeps [OF Cons.prems]] by (simp add: j)
qed simp

text \<open>Rows the conflict clause skipped are counted as inserted.\<close>

lemma conflicts_count_as_inserted:
  "list_ex (\<lambda>r. acc_ID r = as_id spec) (accounts d) \<Longrightarrow>
   seed_job is_dup None now spec (d, c) = (d, c\<lparr>sc_inserted := sc_inserted c + 1\<rparr>)"
  by (simp add: seed_job_def seed_insert_def)

lemma toFileURL_idem: "toFileURL (toFileURL p) = toFileURL p"
  by (simp add: toFileURL_def)

lemma runErr_no_change: "runErr (Some ErrNoChange) = runErr None"
  by (simp add: runErr_def)

end
