(* ===== verification/System.thy ===== *)
theory System
  imports Ledger_Machine Transport_Props Interceptor_Props Tools
begin

text \<open>
  The running program: the RPC server with its interceptor chain, the outbox and audit workers
  with a pool of their own, the reconciler in another process, and the seeding of accounts, all on one
  database and one topic. A transfer RPC acts only for the tenant of the caller's headers; every
  step of the program is a sequence of steps of the ledger machine; and so in every reachable
  state the ledger is balanced, rows have the types of their columns, nothing is held, and no event
  of a transaction is lost: good turns of the outbox worker bring each into the topic.
\<close>

section \<open>The transfer RPC behind the chain\<close>

text \<open>A method of the ledger service as a handler of the server: it works on the program's part of
  the server's state.\<close>

definition on_app :: "(req_ctx \<Rightarrow> 'q \<Rightarrow> 'a rpc_state \<Rightarrow> 'a rpc_state \<times> (status_error + 'r))
    \<Rightarrow> (('l, 'a) server_state, 'q, 'r) handler" where
  "on_app f ctx req s =
     (case f ctx req \<lparr>rs_world = ss_app (rs_world s), rs_header = rs_header s, rs_trailer = rs_trailer s, rs_log = rs_log s\<rparr> of
        (s1, x) \<Rightarrow>
          (\<lparr>rs_world = (rs_world s)\<lparr>ss_app := rs_world s1\<rparr>, rs_header = rs_header s1, rs_trailer = rs_trailer s1, rs_log = rs_log s1\<rparr>,
           case x of Inl st \<Rightarrow> Fail st | Inr r \<Rightarrow> Reply r))"

lemma on_app_run:
  assumes "on_app f ctx req s = (s', y)"
  obtains s0 s1 x where "f ctx req s0 = (s1, x)" "rs_world s0 = app s" "app s' = rs_world s1"
  using assms by (auto simp: on_app_def split: prod.splits)

lemma serve_on_app:
  assumes "serve_call E v m (on_app f) ctx req s = (s', y)"
  obtains "app s' = app s"
  | c s0 s1 x where "reached v m ctx c" "f c req s0 = (s1, x)" "rs_world s0 = app s" "app s' = rs_world s1"
  using serve_calls [OF assms] unfolding called_def
proof (elim disjE exE conjE)
  fix c t1 t2 z assume 1: "reached v m ctx c" "app t1 = app s" "app s' = app t2" and run: "on_app f c req t1 = (t2, z)"
  from run show thesis by (rule on_app_run) (rule that(2) [OF 1(1)], simp_all add: 1)
qed (rule that(1))

definition caller_tenant :: "req_ctx \<Rightarrow> string" where
  "caller_tenant ctx = (case ctx_md ctx of None \<Rightarrow> [] | Some md \<Rightarrow> firstHeader md HeaderTenantID)"

lemma reached_tenant:
  "reached v m ctx c \<Longrightarrow> anonymous ctx \<Longrightarrow> tenantFromClaims c = [] \<or> tenantFromClaims c = caller_tenant ctx"
  by (auto simp: reached_def anonymous_def tenantFromClaims_def caller_tenant_def split: if_splits)

text \<open>C5: behind the server's chain a transfer RPC acts only for the tenant of the caller's
  \<open>x-tenant-id\<close> header, whatever the request says, for every method name, fault of the driver and of
  Redis: nothing is booked under another tenant's keys, the whole change is at most one booking
  with the transfer that belongs to it, and a caller without the header changes nothing.\<close>

theorem rpc_is_tenant_scoped:
  assumes "apd_lib (lib_apd L)" "apd_lib (tl_apd T)" "quiet ex" "anonymous ctx" "db_ok (world_db (app s))"
    and "serve_call E v m (on_app (Transfer (program_handler T U L r ex rd R st lg) now)) ctx req s = (s', x)"
  shows "acts_for (caller_tenant ctx) (world_db (app s)) (world_db (app s')) \<and> (caller_tenant ctx = [] \<longrightarrow> app s' = app s)"
  using assms(6)
proof (cases rule: serve_on_app)
  case 1
  then show ?thesis using acts_for_refl [OF assms(5)] by simp
next
  case (2 c s0 s1 y)
  have ok: "db_ok (world_db (rs_world s0))" using assms(5) 2(3) by simp
  note eff = Transfer_acts_for [OF assms(1,2,3) ok 2(2)]
  from reached_tenant [OF 2(1) assms(4)] show ?thesis
  proof
    assume "tenantFromClaims c = []"
    with eff 2(3,4) show ?thesis using acts_for_refl [OF assms(5)] by simp
  next
    assume "tenantFromClaims c = caller_tenant ctx"
    with eff 2(3,4) show ?thesis by simp
  qed
qed

section \<open>The usecase as a session of the ledger machine\<close>

lemma Execute_inv:
  assumes "Execute U ledger idem ctx now i w = (w', r)" "I w"
    and "\<And>req w w' r. I w \<Longrightarrow> tr_Amount req = ti_Amount i \<Longrightarrow> port_ExecuteTransfer ledger req w = (w', r) \<Longrightarrow> I w'"
    and "\<And>tenant key w w' r. I w \<Longrightarrow> port_GetTransactionByIdempotencyKey ledger tenant key w = (w', r) \<Longrightarrow> I w'"
    and "\<And>k fp w w' r. I w \<Longrightarrow> port_Acquire idem k fp w = (w', r) \<Longrightarrow> I w'"
    and "\<And>k fp state w. I w \<Longrightarrow> I (fst (port_SetState idem k fp state w))"
  shows "I w'"
proof -
  have rep: "I v'" if "replay ledger t k fp v = (v', q)" "I v" for t k fp v v' q
    using that assms(4) by (auto simp: replay_def split: prod.splits sum.splits if_splits)
  have ex: "I v'" if x: "executeAndReplayOnDup U ledger ctx now i fp v = (v', q)" and v: "I v" for fp v v' q
  proof -
    have step: "I v1" if "port_ExecuteTransfer ledger (transfer_request i fp p e) v = (v1, q1)" for p e v1 q1
      by (rule assms(3) [OF v _ that]) (simp add: transfer_request_def)
    show ?thesis using x v
      by (auto simp: executeAndReplayOnDup_def split: sum.splits prod.splits if_splits dest: step intro: rep)
  qed
  show ?thesis
  proof (cases "validateTransferInput (ul_apd U) i = None \<and> AssertBalanced (ul_apd U) (buildPreflightTransaction (ul_apd U) i) = None")
    case True
    let ?k = "scopedIdempotencyKey (ti_TenantID i) (ti_IdempotencyKey i)" and ?fp = "TransferFingerprint U i"
    obtain w1 acq cur e where a: "port_Acquire idem ?k ?fp w = (w1, acq, cur, e)" by (metis prod_cases4)
    have w1: "I w1" by (rule assms(5) [OF assms(2) a])
    obtain w2 r2 where x: "executeAndReplayOnDup U ledger ctx now i ?fp w1 = (w2, r2)" by (rule prod.exhaust)
    obtain w3 r3 where p: "replay ledger (ti_TenantID i) (ti_IdempotencyKey i) ?fp w1 = (w3, r3)" by (rule prod.exhaust)
    have "w' = w1 \<or> w' = w2 \<or> w' = w3 \<or> (\<exists>s. w' = fst (port_SetState idem ?k ?fp s w2))"
      using assms(1) True a x p by (cases e; cases acq) (auto simp: Execute_def Let_def split: sum.splits if_splits)
    then show ?thesis using w1 ex [OF x w1] rep [OF p w1] assms(6) [OF ex [OF x w1]] by auto
  qed (use assms(1,2) in \<open>auto simp: Execute_def split: option.splits\<close>)
qed

lemma Execute_steps:
  assumes "apd_lib (lib_apd L)" "amount_in (ti_Amount i)" "\<And>i. others (lib_jsonb L) ustr k (ex_attempts ex i)"
    and "Execute U (ledger_port L r0 ex rd) (redis_port R st) ctx now i w = (w', r)"
  shows "ledger_steps (lib_jsonb L) ustr (world_db w, k) (world_db w', k)"
proof (rule Execute_inv [OF assms(4), where I = "\<lambda>v. ledger_steps (lib_jsonb L) ustr (world_db w, k) (world_db v, k)"])
  fix req v v' q
  assume *: "ledger_steps (lib_jsonb L) ustr (world_db w, k) (world_db v, k)" and "tr_Amount req = ti_Amount i"
    and "port_ExecuteTransfer (ledger_port L r0 ex rd) req v = (v', q)"
  then obtain l where "ExecuteTransfer L r0 ex req (tw_ledger v) = (l, q)" "v' = v\<lparr>tw_ledger := l\<rparr>" "amount_in (tr_Amount req)"
    using assms(2) by (auto simp: ledger_port_def split: prod.splits)
  with ExecuteTransfer_steps [OF assms(1) _ assms(3)] have "ledger_steps (lib_jsonb L) ustr (world_db v, k) (world_db v', k)" by simp
  with * show "ledger_steps (lib_jsonb L) ustr (world_db w, k) (world_db v', k)" by (rule rtranclp_trans)
qed (auto simp: ledger_port_def redis_port_def split: prod.splits)

lemma Transfer_steps:
  assumes "apd_lib (lib_apd L)" "apd_lib (tl_apd T)" "\<And>i. others (lib_jsonb L) ustr k (ex_attempts ex i)"
    and "Transfer (program_handler T U L r ex rd R st lg) now ctx req s = (s', x)"
  shows "ledger_steps (lib_jsonb L) ustr (world_db (rs_world s), k) (world_db (rs_world s'), k)"
  using assms(4)
proof (cases rule: Transfer_world)
  case (2 i q)
  have "amount_in (ti_Amount (i\<lparr>ti_TenantID := tenantFromClaims ctx\<rparr>))" using parsed_amount [OF assms(2) 2(1)] by simp
  from Execute_steps [OF assms(1) this assms(3) 2(3)] show ?thesis .
qed simp

section \<open>Connections\<close>

text \<open>A transfer gives back the connections it takes, whatever fails.\<close>

lemma ExecuteTransfer_pool:
  assumes "ExecuteTransfer L r ex req w = (w', res)"
  shows "pl_acquired (lw_pool w') = pl_acquired (lw_pool w)"
  using ExecuteTransfer_cases [OF assms]
proof (elim disjE exE conjE)
  fix body s err
  let ?s = "\<lparr>ts_pool = lw_pool w, ts_db = lw_db w, ts_vars = ()\<rparr>"
  assume tx: "InTx (lr_acquireCfg r) (lr_retry r)
      (transfer_tx L (build_transaction (lib_apd L) ex req) (ex_ids ex 3) req
        (audit_event_of req (build_transaction (lib_apd L) ex req) body)) (ex_attempts ex) ?s = (s, err)"
    and w': "lw_pool w' = ts_pool s"
  from InTx_invariant [OF tx, where I = "\<lambda>_. True"] w' show ?thesis by simp
qed simp

lemma Execute_pool:
  assumes "Execute U (ledger_port L r0 ex rd) (redis_port R st) ctx now i w = (w', r)"
  shows "pl_acquired (lw_pool (tw_ledger w')) = pl_acquired (lw_pool (tw_ledger w))"
  by (rule Execute_inv [OF assms, where I = "\<lambda>v. pl_acquired (lw_pool (tw_ledger v)) = pl_acquired (lw_pool (tw_ledger w))"])
     (auto simp: ledger_port_def redis_port_def ExecuteTransfer_pool split: prod.splits)

lemma Transfer_pool:
  assumes "Transfer (program_handler T U L r ex rd R st lg) now ctx req s = (s', x)"
  shows "pl_acquired (lw_pool (tw_ledger (rs_world s'))) = pl_acquired (lw_pool (tw_ledger (rs_world s)))"
  using assms by (cases rule: Transfer_world) (simp_all add: Execute_pool)

section \<open>The program\<close>

text \<open>The server process, with what it keeps in memory, and the topic. The database and the request
  pool are in the ledger repository's world; the workers have a pool of their own.\<close>

record ('l, 's) system =
  sy_server :: "('l, 's transfer_world) server_state"
  sy_workers :: pool_state
  sy_topic :: "KafkaMessage list"

abbreviation sy_db :: "('l, 's) system \<Rightarrow> db" where
  "sy_db s \<equiv> world_db (ss_app (sy_server s))"

abbreviation sy_requests :: "('l, 's) system \<Rightarrow> pool_state" where
  "sy_requests s \<equiv> lw_pool (tw_ledger (ss_app (sy_server s)))"

definition shared :: "('l, 's) system \<Rightarrow> db \<times> KafkaMessage list" where
  "shared s = (sy_db s, sy_topic s)"

definition with_db :: "db \<Rightarrow> ('l, 's) system \<Rightarrow> ('l, 's) system" where
  "with_db d s = s\<lparr>sy_server := (sy_server s)\<lparr>ss_app := (ss_app (sy_server s))
     \<lparr>tw_ledger := (tw_ledger (ss_app (sy_server s)))\<lparr>lw_db := d\<rparr>\<rparr>\<rparr>\<rparr>"

definition with_redis :: "'s \<Rightarrow> ('l, 's) system \<Rightarrow> ('l, 's) system" where
  "with_redis r s = s\<lparr>sy_server := (sy_server s)\<lparr>ss_app := (ss_app (sy_server s))\<lparr>tw_redis := r\<rparr>\<rparr>\<rparr>"

text \<open>Nothing is held: no connection is checked out of either pool and no admission slot is taken.\<close>

definition at_rest :: "('l, 's) system \<Rightarrow> bool" where
  "at_rest s \<longleftrightarrow> pl_acquired (sy_requests s) = 0 \<and> pl_acquired (sy_workers s) = 0 \<and> ss_current (sy_server s) = 0"

text \<open>One step: an RPC through the chain, one turn of an outbox drainer, one turn of the audit worker,
  one cycle of the reconciler (with a pool of its own), one seeded account, a tick of the limiter
  sweeper, any change in Redis (expiry, eviction, other clients), or a crash and restart of the
  server, which keeps only the database and the topic. The driver, the brokers, Redis, the clocks
  and the id sources are free in every step; transactions of other sessions may commit before each
  of its transactions.\<close>

inductive program_step :: "jsonb_in \<Rightarrow> (UUID \<Rightarrow> string) \<Rightarrow> ('l, 's) system \<Rightarrow> ('l, 's) system \<Rightarrow> bool"
  for jsonb :: jsonb_in and ustr :: "UUID \<Rightarrow> string" where
  transfer_rpc: "serve_call E v m (on_app (Transfer (program_handler T U L r ex rd R st lg) now)) ctx req c = (c', x) \<Longrightarrow>
    rs_world c = sy_server s \<Longrightarrow> apd_lib (lib_apd L) \<Longrightarrow> apd_lib (tl_apd T) \<Longrightarrow> lib_jsonb L = jsonb \<Longrightarrow>
    (\<And>i. others jsonb ustr (sy_topic s) (ex_attempts ex i)) \<Longrightarrow>
    program_step jsonb ustr s (s\<lparr>sy_server := rs_world c'\<rparr>)"
| get_rpc: "serve_call E v m (on_app (GetTransactionRPC (program_handler T U L r ex rd R st lg))) ctx gid c = (c', y) \<Longrightarrow>
    rs_world c = sy_server s \<Longrightarrow> program_step jsonb ustr s (s\<lparr>sy_server := rs_world c'\<rparr>)"
| outbox_worker: "runOne ustr pc cfg timeout [t] \<lparr>ow_pool = sy_workers s, ow_db = sy_db s, ow_kafka = sy_topic s\<rparr> = (w, waits, stopped) \<Longrightarrow>
    truthful_reports (ot_kafka t) \<Longrightarrow> others jsonb ustr (sy_topic s) (ot_env t) \<Longrightarrow>
    program_step jsonb ustr s (with_db (ow_db w) (s\<lparr>sy_workers := ow_pool w, sy_topic := ow_kafka w\<rparr>))"
| audit_worker: "runLoop jsonb pc [u] wk \<lparr>au_pool = sy_workers s, au_db = sy_db s\<rparr> = ((wk', a), waits, stopped) \<Longrightarrow>
    at_locked u = {} \<Longrightarrow> others jsonb ustr (sy_topic s) (at_env u) \<Longrightarrow>
    program_step jsonb ustr s (with_db (au_db a) (s\<lparr>sy_workers := au_pool a\<rparr>))"
| reconciler: "RunOnce ustr pc timeout rc re \<lparr>ow_pool = p, ow_db = sy_db s, ow_kafka = sy_topic s\<rparr> = (w, res) \<Longrightarrow>
    truthful_reports (re_kafka re) \<Longrightarrow> others jsonb ustr (sy_topic s) (re_env re) \<Longrightarrow>
    program_step jsonb ustr s (with_db (ow_db w) (s\<lparr>sy_topic := ow_kafka w\<rparr>))"
| seeding: "seed_job is_dup fault now spec (sy_db s, counts) = (d, counts') \<Longrightarrow>
    program_step jsonb ustr s (with_db d s)"
| sweeper: "program_step jsonb ustr s
    (s\<lparr>sy_server := (sy_server s)\<lparr>ss_limiters := sweepTick ttl now (ss_limiters (sy_server s))\<rparr>\<rparr>)"
| redis: "program_step jsonb ustr s (with_redis q s)"
| restart: "world_db (ss_app v') = sy_db s \<Longrightarrow> at_rest (s\<lparr>sy_server := v', sy_workers := p\<rparr>) \<Longrightarrow>
    program_step jsonb ustr s (s\<lparr>sy_server := v', sy_workers := p\<rparr>)"

lemma with_simps [simp]:
  "sy_db (with_db d s) = d" "sy_topic (with_db d s) = sy_topic s" "sy_workers (with_db d s) = sy_workers s"
  "sy_requests (with_db d s) = sy_requests s" "ss_current (sy_server (with_db d s)) = ss_current (sy_server s)"
  "sy_db (with_redis q s) = sy_db s" "sy_topic (with_redis q s) = sy_topic s" "sy_workers (with_redis q s) = sy_workers s"
  "sy_requests (with_redis q s) = sy_requests s" "ss_current (sy_server (with_redis q s)) = ss_current (sy_server s)"
  by (simp_all add: with_db_def with_redis_def)

text \<open>The lag probe gives its connection back, and a turn of the audit worker is at most one drain.\<close>

lemma publishLag_pool:
  "publishLag pc t wk w = (wk', w') \<Longrightarrow> au_db w' = au_db w \<and> pl_acquired (au_pool w') = pl_acquired (au_pool w)"
  by (auto simp: publishLag_def OldestPendingAge_def AcquireConn_def ObserveAcquire_def conn_Release_def Let_def
      split: option.splits prod.splits sum.splits if_splits)

lemma audit_turn_cases:
  assumes "runLoop jsonb pc [u] wk w = ((wk', a), waits, stopped)"
  obtains "a = w"
  | w1 j err where "audit_Drain jsonb pc (at_env u) (at_locked u) (aw_BatchSize (aw_cfg wk)) w = (w1, j, err)"
      "au_db a = au_db w1" "pl_acquired (au_pool a) = pl_acquired (au_pool w1)"
proof (cases "at_ctx_err u")
  case True
  with assms that(1) show ?thesis by simp
next
  case False
  obtain w1 j err where d: "audit_Drain jsonb pc (at_env u) (at_locked u) (aw_BatchSize (aw_cfg wk)) w = (w1, j, err)"
    by (metis prod_cases3)
  obtain wk2 w2 where p: "publishLag pc u wk w1 = (wk2, w2)" by (rule prod.exhaust)
  have "a = w1 \<or> a = w2" using assms False d p by (cases err) (auto simp: Let_def split: if_splits)
  with that(2) [OF d] publishLag_pool [OF p] show ?thesis by auto
qed

lemma GetTransactionRPC_world:
  "GetTransactionRPC (program_handler T U L r ex rd R st lg) ctx req s = (s', x) \<Longrightarrow> rs_world s' = rs_world s"
  by (auto simp: GetTransactionRPC_def NewLedgerHandler_def failWith_def ledger_port_def asGRPCError_def log_at_def
      split: option.splits sum.splits prod.splits)

lemma seed_job_steps:
  assumes "seed_job is_dup fault now spec (d, c) = (d', c')"
  shows "ledger_steps jsonb ustr (d, k) (d', k)"
proof -
  have "d' = d \<or> (\<exists>a. insert_account a d = Inr d')"
    using assms by (auto simp: seed_job_def seed_insert_def split: option.splits sum.splits if_splits)
  then show ?thesis by (auto intro: open_account)
qed

lemma program_step_machine:
  fixes s s' :: "('l, 's) system"
  assumes "program_step jsonb ustr s s'" "jsonb_stable jsonb" "shared_ok jsonb ustr (shared s)"
  shows "ledger_steps jsonb ustr (shared s) (shared s')"
  using assms(1)
proof (cases rule: program_step.cases)
  case (transfer_rpc E v m T U L r ex rd R st lg now ctx req c c' x)
  from transfer_rpc(2) show ?thesis
  proof (cases rule: serve_on_app)
    case (2 c2 s0 s1 z)
    from Transfer_steps [OF transfer_rpc(4,5) _ 2(2)] transfer_rpc(6,7) have
      "ledger_steps jsonb ustr (world_db (rs_world s0), sy_topic s) (world_db (rs_world s1), sy_topic s)" by simp
    then show ?thesis using transfer_rpc(1,3) 2(3,4) by (simp add: shared_def)
  qed (simp add: shared_def transfer_rpc(1,3))
next
  case (get_rpc E v m T U L r ex rd R st lg ctx gid c c' y)
  from get_rpc(2) show ?thesis
  proof (cases rule: serve_on_app)
    case (2 c2 s0 s1 z)
    from GetTransactionRPC_world [OF 2(2)] show ?thesis using get_rpc(1,3) 2(3,4) by (simp add: shared_def)
  qed (simp add: shared_def get_rpc(1,3))
next
  case (outbox_worker pc cfg timeout t w waits stopped)
  from outbox_worker(2) show ?thesis
  proof (cases rule: outbox_turn_cases)
    case (2 r)
    from tick_steps [OF 2 outbox_worker(3) assms(2)] outbox_worker(1,4) assms(3) show ?thesis by (simp add: shared_def)
  qed (simp add: shared_def outbox_worker(1))
next
  case (audit_worker pc u wk wk' a waits stopped)
  from audit_worker(2) show ?thesis
  proof (cases rule: audit_turn_cases)
    case (2 w1 j err)
    from audit_steps [OF 2(1) [unfolded audit_worker(3)] assms(2), of ustr "sy_topic s"] audit_worker(1,4) assms(3) 2(2)
    show ?thesis by (simp add: shared_def)
  qed (simp add: shared_def audit_worker(1))
next
  case (reconciler pc timeout rc re p w res)
  from RunOnce_steps [OF reconciler(2,3) assms(2)] reconciler(1,4) assms(3) show ?thesis by (simp add: shared_def)
next
  case (seeding is_dup fault now spec counts d counts')
  from seed_job_steps [OF seeding(2)] seeding(1) show ?thesis by (simp add: shared_def)
next
  case (sweeper ttl now)
  then show ?thesis by (simp add: shared_def)
next
  case (redis q)
  then show ?thesis by (simp add: shared_def)
next
  case (restart v' p)
  then show ?thesis by (simp add: shared_def)
qed

lemma program_step_ok:
  assumes "program_step jsonb ustr s s'" "jsonb_stable jsonb" "shared_ok jsonb ustr (shared s)"
  shows "shared_ok jsonb ustr (shared s')"
  by (rule steps_ok [OF program_step_machine [OF assms] assms(2,3)])

text \<open>C2: every run of the program refines the ledger machine: what it does to the database and the
  topic, through the whole interceptor chain, retries, lost commit acknowledgements and broker
  failures included, is a sequence of atomic machine steps (open an account, post a whole
  transfer, extend the topic, publish delivered events, move the head of an audit queue). The
  sessions that commit between its transactions are assumed to do no more than that themselves.\<close>

theorem program_refines_machine:
  fixes s s' :: "('l, 's) system"
  assumes "(program_step jsonb ustr)\<^sup>*\<^sup>* s s'" "jsonb_stable jsonb" "shared_ok jsonb ustr (shared s)"
  shows "ledger_steps jsonb ustr (shared s) (shared s')"
proof -
  have "ledger_steps jsonb ustr (shared s) (shared s') \<and> shared_ok jsonb ustr (shared s')"
    using assms(1)
  proof induction
    case (step s1 s2)
    then show ?case using program_step_machine [OF step(2) assms(2)] program_step_ok [OF step(2) assms(2)]
      by (auto intro: rtranclp_trans)
  qed (simp add: assms(3))
  then show ?thesis ..
qed

section \<open>Nothing is held between steps\<close>

lemma on_app_neutral: "slot_neutral (on_app f)"
  by (rule slot_neutralI) (auto simp: on_app_def split: prod.splits)

lemma serve_slots: "serve_call E v m (on_app f) ctx req s = (s', y) \<Longrightarrow> ss_current (rs_world s') = ss_current (rs_world s)"
  by (rule slot_neutralD [OF server.neutral [OF on_app_neutral]])

lemma audit_drain_pool: "audit_Drain jsonb pc env locked n w = (w', j, err) \<Longrightarrow> pl_acquired (au_pool w') = pl_acquired (au_pool w)"
  by (cases "0 < n") (auto simp: audit_Drain_def dest!: audit_inTx_cases)

lemma tick_pool: "outbox_tick ustr pc cfg timeout env locked ke w = (w', r) \<Longrightarrow> pl_acquired (ow_pool w') = pl_acquired (ow_pool w)"
  unfolding outbox_tick_def Drain_def by (rule drain_pool)

lemma program_step_rest:
  fixes s s' :: "('l, 's) system"
  assumes "program_step jsonb ustr s s'" "at_rest s"
  shows "at_rest s'"
  using assms(1)
proof (cases rule: program_step.cases)
  case (transfer_rpc E v m T U L r ex rd R st lg now ctx req c c' x)
  from transfer_rpc(2) have "pl_acquired (lw_pool (tw_ledger (app c'))) = pl_acquired (lw_pool (tw_ledger (app c)))"
    by (cases rule: serve_on_app) (auto dest!: Transfer_pool)
  with serve_slots [OF transfer_rpc(2)] transfer_rpc(1,3) assms(2) show ?thesis by (simp add: at_rest_def)
next
  case (get_rpc E v m T U L r ex rd R st lg ctx gid c c' y)
  from get_rpc(2) have "app c' = app c" by (cases rule: serve_on_app) (auto dest!: GetTransactionRPC_world)
  with serve_slots [OF get_rpc(2)] get_rpc(1,3) assms(2) show ?thesis by (simp add: at_rest_def)
next
  case (outbox_worker pc cfg timeout t w waits stopped)
  from outbox_worker(2) have "pl_acquired (ow_pool w) = pl_acquired (sy_workers s)"
    by (cases rule: outbox_turn_cases) (auto dest: tick_pool)
  with outbox_worker(1) assms(2) show ?thesis by (simp add: at_rest_def with_db_def)
next
  case (audit_worker pc u wk wk' a waits stopped)
  from audit_worker(2) have "pl_acquired (au_pool a) = pl_acquired (sy_workers s)"
    by (cases rule: audit_turn_cases) (auto dest: audit_drain_pool)
  with audit_worker(1) assms(2) show ?thesis by (simp add: at_rest_def with_db_def)
next
  case (sweeper ttl now)
  with assms(2) show ?thesis by (simp add: at_rest_def)
qed (use assms(2) in \<open>simp_all add: at_rest_def with_db_def with_redis_def\<close>)


section \<open>Every reachable state\<close>

text \<open>The books are closed: the ledger sums to zero, every transaction has two legs that cancel, one
  outbox event and one audit record, and every event still waits in the outbox or is in the topic.\<close>

definition accounted :: "(UUID \<Rightarrow> string) \<Rightarrow> KafkaMessage list \<Rightarrow> db \<Rightarrow> bool" where
  "accounted ustr k d \<longleftrightarrow> sum_amounts d = 0
     \<and> list_all (\<lambda>t. length (legs_of d (txr_id t)) = 2 \<and> tx_sum d (txr_id t) = 0
          \<and> outbox_count d (txr_id t) = 1 \<and> audit_count d (txr_id t) = 1) (transactions d)
     \<and> list_all (\<lambda>e. ob_Status e = OutboxStatusPending \<or> in_topic ustr k e) (outbox_events d)"

lemma accounted_ok: "shared_ok jsonb ustr (d, k) \<Longrightarrow> accounted ustr k d"
  using db_ok_sum_zero [of d]
  by (auto simp: shared_ok_def accounted_def db_ok_def legs_ok_def events_ok_def relay_inv_def tx_ids_def list_all_iff
      well_typed_def event_typed_def OutboxStatus_Valid_def)

lemma shared_ok_empty: "shared_ok jsonb ustr (empty_db, k)"
  by (simp add: shared_ok_def well_typed_empty relay_inv_def queue_ok_def db_ok_def keys_ok_def legs_ok_def events_ok_def tx_ids_def)
     (simp add: empty_db_def)

lemma reachable_shared_ok:
  fixes s :: "('l, 's) system"
  assumes "(program_step jsonb ustr)\<^sup>*\<^sup>* s0 s" "jsonb_stable jsonb" "sy_db s0 = empty_db"
  shows "shared_ok jsonb ustr (shared s)"
  using assms(1)
proof induction
  case base
  then show ?case using shared_ok_empty assms(3) by (simp add: shared_def)
next
  case (step s s')
  then show ?case using program_step_ok [OF _ assms(2)] by blast
qed

text \<open>C1: from an empty database every state the program reaches, in whatever order RPCs, workers,
  reconciler cycles, seeding and restarts come and whatever fails in them, has closed books: zero
  total, balanced transactions each with exactly one outbox event and one audit record, and no
  event lost: each is PENDING or its message is in the topic.\<close>

theorem books_always_close:
  fixes s :: "('l, 's) system"
  assumes "(program_step jsonb ustr)\<^sup>*\<^sup>* s0 s" "jsonb_stable jsonb" "sy_db s0 = empty_db"
  shows "db_ok (sy_db s) \<and> accounted ustr (sy_topic s) (sy_db s)"
  using reachable_shared_ok [OF assms] accounted_ok by (auto simp: shared_def shared_ok_def)


section \<open>Every event reaches the topic\<close>

text \<open>What the outbox worker sees of the system, and the system after its turns.\<close>

definition worker_view :: "('l, 's) system \<Rightarrow> KafkaMessage list outbox_world" where
  "worker_view s = \<lparr>ow_pool = sy_workers s, ow_db = sy_db s, ow_kafka = sy_topic s\<rparr>"

definition after_turns :: "KafkaMessage list outbox_world \<Rightarrow> ('l, 's) system \<Rightarrow> ('l, 's) system" where
  "after_turns w s = with_db (ow_db w) (s\<lparr>sy_workers := ow_pool w, sy_topic := ow_kafka w\<rparr>)"

lemma after_turns_simps [simp]:
  "worker_view (after_turns w s) = w" "after_turns w2 (after_turns w s) = after_turns w2 s" "after_turns (worker_view s) s = s"
  by (simp_all add: worker_view_def after_turns_def with_db_def)

lemma turns_reachable:
  fixes s :: "('l, 's) system"
  assumes "runOne ustr pc cfg timeout ts (worker_view s) = (w, waits, stopped)"
    and "\<And>t. t \<in> set ts \<Longrightarrow> truthful_reports (ot_kafka t) \<and> (\<forall>d. at_before (ot_env t) d = d)"
  shows "(program_step jsonb ustr)\<^sup>*\<^sup>* s (after_turns w s)"
  using assms
proof (induction ts arbitrary: s waits)
  case (Cons t ts)
  obtain w1 ds st where t: "runOne ustr pc cfg timeout [t] (worker_view s) = (w1, ds, st)" by (metis prod_cases3)
  have "others jsonb ustr (sy_topic s) (ot_env t)" using Cons.prems(2) by (intro others_still) simp
  then have 1: "program_step jsonb ustr s (after_turns w1 s)"
    unfolding after_turns_def using t Cons.prems(2) by (intro outbox_worker) (auto simp: worker_view_def)
  have "w = w1 \<or> (\<exists>waits. runOne ustr pc cfg timeout ts w1 = (w, waits, stopped))"
    using Cons.prems(1) t by (auto simp: Let_def split: if_splits prod.splits)
  then have "(program_step jsonb ustr)\<^sup>*\<^sup>* (after_turns w1 s) (after_turns w s)"
    using Cons.IH [of "after_turns w1 s"] Cons.prems(2) by auto
  with 1 show ?case by (rule converse_rtranclp_into_rtranclp)
qed auto

text \<open>C6: every event reaches the topic. From any reachable state, whatever failed before, good turns
  of the outbox worker (one for each full batch that is pending) lead to a reachable state with
  the same events and transactions in which every event is PUBLISHED and its message in the topic.\<close>

theorem events_reach_topic:
  fixes s :: "('l, 's) system"
  assumes "(program_step jsonb ustr)\<^sup>*\<^sup>* s0 s" "jsonb_stable jsonb" "sy_db s0 = empty_db"
    and "list_all (\<lambda>t. good_turn cfg t \<and> truthful_reports (ot_kafka t)) ts" "0 < ow_BatchSize cfg"
    and "pending_count (sy_db s) \<le> length ts * nat (ow_BatchSize cfg)"
    and "runOne ustr pc cfg timeout ts (worker_view s) = (w, waits, stopped)"
  shows "(program_step jsonb ustr)\<^sup>*\<^sup>* s0 (after_turns w s)
    \<and> status_moves (sy_db s) (ow_db w)
    \<and> list_all (\<lambda>e. ob_Status e = OutboxStatusPublished \<and> in_topic ustr (ow_kafka w) e) (outbox_events (ow_db w))"
proof -
  have still: "\<And>t. t \<in> set ts \<Longrightarrow> truthful_reports (ot_kafka t) \<and> (\<forall>d. at_before (ot_env t) d = d)"
    using assms(4) by (auto simp: list_all_iff good_turn_def healthy_def)
  from turns_reachable [OF assms(7) still] assms(1) have reach: "(program_step jsonb ustr)\<^sup>*\<^sup>* s0 (after_turns w s)"
    by (rule rtranclp_trans [rotated])
  have ids: "distinct (map ob_ID (outbox_events (ow_db (worker_view s))))"
    using reachable_shared_ok [OF assms(1-3)] by (simp add: shared_ok_def shared_def db_ok_def keys_ok_def worker_view_def)
  have moves: "status_moves (sy_db s) (ow_db w)"
    using runOne_moves [OF assms(7) _ ids] still by (simp add: worker_view_def)
  have good: "list_all (good_turn cfg) ts" using assms(4) by (auto simp: list_all_iff)
  have "pending_count (ow_db w) = 0"
    using outbox_drains [OF good assms(5) ids assms(7)] assms(6) by (simp add: worker_view_def)
  moreover have "shared_ok jsonb ustr (ow_db w, ow_kafka w)"
    using reachable_shared_ok [OF reach assms(2,3)] by (simp add: shared_def after_turns_def)
  ultimately have "list_all (\<lambda>e. ob_Status e = OutboxStatusPublished \<and> in_topic ustr (ow_kafka w) e) (outbox_events (ow_db w))"
    by (auto simp: shared_ok_def relay_inv_def well_typed_def event_typed_def OutboxStatus_Valid_def list_all_iff
        pending_count_def filter_empty_conv)
  with reach moves show ?thesis by blast
qed

section \<open>Witnesses\<close>

text \<open>A server that has just started on an empty database; two accounts are seeded, a caller of
  tenant t sends a transfer, and the outbox worker ticks.\<close>

definition fresh_server :: "db \<Rightarrow> (unit, mem_redis transfer_world) server_state" where
  "fresh_server d = \<lparr>ss_current = 0, ss_gauge = 0, ss_limiters = Map.empty, ss_rejected = [],
     ss_app = \<lparr>tw_ledger = \<lparr>lw_pool = \<lparr>pl_acquired = 0, pl_obs = []\<rparr>, lw_db = d, lw_breaker = None\<rparr>, tw_redis = mem_empty\<rparr>\<rparr>"

definition sample_system :: "(unit, mem_redis) system" where
  "sample_system = \<lparr>sy_server = fresh_server empty_db, sy_workers = \<lparr>pl_acquired = 0, pl_obs = []\<rparr>, sy_topic = []\<rparr>"

definition edge_ctx :: req_ctx where
  "edge_ctx = background\<lparr>ctx_md := Some [(''x-tenant-id'', [''t'']), (''x-actor-subject'', [''alice'']), (''x-request-id'', [''r1''])]\<rparr>"

definition paid_pb :: pb_TransferRequest where
  "paid_pb = sample_pb\<lparr>pbr_IdempotencyKey := ''k''\<rparr>"

definition sample_incoming :: "('l, 'a) server_state \<Rightarrow> ('l, 'a) server_state rpc_state" where
  "sample_incoming w = \<lparr>rs_world = w, rs_header = [], rs_trailer = [], rs_log = []\<rparr>"

abbreviation sample_method :: "(req_ctx \<Rightarrow> pb_TransferRequest option \<Rightarrow> mem_redis transfer_world rpc_state
    \<Rightarrow> mem_redis transfer_world rpc_state \<times> (status_error + pb_TransferResponse))" where
  "sample_method \<equiv> Transfer (program_handler sample_wire sample_uc sample_libs sample_repo sample_ex sample_read
     (mem_client 0) NewRedisIdempotencyStore None) 7000"

lemma sample_jsonb: "jsonb_stable (lib_jsonb sample_libs)"
  by (simp add: jsonb_stable_def sample_libs_def)

lemma sample_rpc_step:
  assumes "serve_call Interceptor_Props.sample_env sample_server ''/ledger.v1.LedgerService/Transfer'' (on_app sample_method)
      edge_ctx (Some paid_pb) (sample_incoming (sy_server s)) = (c, x)"
  shows "program_step (lib_jsonb sample_libs) sample_ustr s (s\<lparr>sy_server := rs_world c\<rparr>)"
  by (rule transfer_rpc [OF assms])
    (simp_all add: sample_incoming_def sample_facts(1,4) sample_wire_ok others_still)

definition sample_spec :: "UUID \<Rightarrow> accountSpec" where
  "sample_spec i = \<lparr>as_id = i, as_tenant = ''t'', as_currency = ''USD''\<rparr>"

abbreviation sample_steps :: "(unit, mem_redis) system \<Rightarrow> (unit, mem_redis) system \<Rightarrow> bool" where
  "sample_steps \<equiv> (program_step (lib_jsonb sample_libs) sample_ustr)\<^sup>*\<^sup>*"

definition seeded :: "UUID list \<Rightarrow> db" where
  "seeded is = empty_db\<lparr>accounts := map (\<lambda>i. sample_account i AccountStatusActive) is\<rparr>"

lemma seed_one:
  assumes "i \<notin> set is" "sy_db s = seeded is"
  shows "program_step (lib_jsonb sample_libs) sample_ustr s (with_db (seeded (is @ [i])) s)"
proof -
  let ?c = "\<lparr>sc_inserted = 0, sc_skipped = 0, sc_failed = 0\<rparr>"
  have fresh: "\<not> list_ex (\<lambda>r. acc_ID r = i) (accounts (seeded is))"
    using assms(1) by (auto simp: list_ex_iff seeded_def sample_account_def)
  have "AccountStatus_Valid ''ACTIVE''" "AccountStatusActive = ''ACTIVE''" by code_simp+
  with fresh have "seed_insert 0 (sample_spec i) (seeded is) = Inr (seeded (is @ [i]))"
    by (simp add: seed_insert_def sample_spec_def insert_account_def varchar_def)
      (simp add: seeded_def sample_account_def pg_timestamp_def)
  then have "seed_job (\<lambda>_. False) None 0 (sample_spec i) (sy_db s, ?c) = (seeded (is @ [i]), ?c\<lparr>sc_inserted := 1\<rparr>)"
    by (simp add: seed_job_def assms(2))
  from seeding [OF this] show ?thesis .
qed

text \<open>The transfer method on the seeded accounts: it answers, and the transfer is booked.\<close>

lemma seeded_ready: "sample_ready (tw_ledger (ss_app (fresh_server (seeded [1, 2]))))"
  by (simp add: sample_ready_def fresh_server_def seeded_def has_account_def key_used_def fresh_ids_def sample_ex_def
      sample_account_def empty_db_def tx_ids_def plain_env_def)

lemma paid_parse: "transferRequestFromPB sample_wire (Some paid_pb) = Inr (sample_input\<lparr>ti_TenantID := []\<rparr>)"
  using sample_parse by (simp add: transferRequestFromPB_def paid_pb_def sample_input_def split: sum.splits)

lemma Execute_ctx:
  assumes "EnvelopeFromContext c now = EnvelopeFromContext c' now"
  shows "Execute U ledger idem c now i w = Execute U ledger idem c' now i w"
proof -
  have "executeAndReplayOnDup U ledger c now = executeAndReplayOnDup U ledger c' now"
  proof (intro ext)
    fix i fp v
    show "executeAndReplayOnDup U ledger c now i fp v = executeAndReplayOnDup U ledger c' now i fp v"
      by (cases "MarshalTransferCommittedV1 U i") (simp_all add: executeAndReplayOnDup_def assms)
  qed
  then show ?thesis by (simp only: Execute_def)
qed

lemma envelope_tenant: "EnvelopeFromContext c now = Inr e \<Longrightarrow> tenantFromClaims c = env_TenantID e"
  by (auto simp: EnvelopeFromContext_def tenantFromClaims_def Let_def split: option.splits if_splits)

lemma sample_method_posts:
  "\<exists>w resp. bookings (world_db w) (''t'', ''k'') = Some (100, TransferFingerprint sample_uc sample_input)
    \<and> (\<forall>c s. EnvelopeFromContext c 7000 = Inr Ledger_Props.sample_env \<longrightarrow> ss_app (rs_world s) = ss_app (fresh_server (seeded [1, 2]))
        \<longrightarrow> on_app sample_method c (Some paid_pb) s = (s\<lparr>rs_world := (rs_world s)\<lparr>ss_app := w\<rparr>\<rparr>, Reply resp))"
proof -
  let ?st = "ss_app (fresh_server (seeded [1, 2]))"
  let ?x = "\<lambda>c. Execute sample_uc (ledger_port sample_libs sample_repo sample_ex sample_read) (redis_port (mem_client 0) NewRedisIdempotencyStore)
      c 7000 sample_input ?st"
  have "tw_redis ?st = mem_empty" by (simp add: fresh_server_def)
  with sample_call_fresh [OF sample_envelope seeded_ready] obtain w t where
    x: "?x sample_ctx = (w, Inr \<lparr>out_Transaction = t, out_Replayed = False\<rparr>)"
    and b: "bookings (world_db w) (''t'', ''k'') = Some (100, TransferFingerprint sample_uc sample_input)" by blast
  have "on_app sample_method c (Some paid_pb) s = (s\<lparr>rs_world := (rs_world s)\<lparr>ss_app := w\<rparr>\<rparr>,
      Reply \<lparr>resp_Transaction = transactionToPB sample_wire (Some t), resp_Replayed = False\<rparr>)"
    if c: "EnvelopeFromContext c 7000 = Inr Ledger_Props.sample_env" and s: "ss_app (rs_world s) = ?st" for c s
  proof -
    have "?x c = ?x sample_ctx" by (rule Execute_ctx) (simp add: c sample_envelope)
    moreover have "tenantFromClaims c = ''t''" using envelope_tenant [OF c] by (simp add: Ledger_Props.sample_env_def)
    moreover have "sample_input\<lparr>ti_TenantID := ''t''\<rparr> = sample_input" by (simp add: sample_input_def)
    ultimately show ?thesis
      using x s by (simp add: on_app_def Transfer_def paid_parse NewLedgerHandler_def)
  qed
  with b show ?thesis by blast
qed

text \<open>The call through the chain, layer by layer from the inside.\<close>

definition answers :: "'r \<Rightarrow> 'a \<Rightarrow> ('l, 'a) server_state rpc_state \<times> 'r outcome \<Rightarrow> bool" where
  "answers resp w y \<longleftrightarrow> (\<exists>s. y = (s, Reply resp) \<and> ss_app (rs_world s) = w)"

lemma sample_chain_passes:
  fixes h :: "((unit, 'a) server_state, 'q, 'r) handler" and m :: string
  assumes run: "\<And>c s. EnvelopeFromContext c 7000 = Inr Ledger_Props.sample_env \<Longrightarrow> app s = a \<Longrightarrow> answers resp w (h c req s)"
    and m: "m \<notin> set DefaultPublicMethods" and s: "app s = a" "ss_current (rs_world s) = 0"
  shows "answers resp w (serve_call Interceptor_Props.sample_env sample_server m h edge_ctx req s)"
proof -
  have cfg: "sc_Admission (srv_cfg sample_server) = Some \<lparr>ac_MaxInFlight = 1\<rparr>"
    by (simp add: sample_server_def NewServer_def withPublicMethods_def withDefaults_def defaultServerConfig_def Let_def DefaultAdmission_def)
  let ?log = "\<lambda>c. srv_log sample_server @ [(''rpc.method'', m), (''request_id'', RequestIDFromContext c), (''rpc.peer'', peerAddr c)]"
  let ?ei = "\<lparr>ei_PublicMethods = Some DefaultPublicMethods\<rparr>" and ?lg = "srv_log sample_server"
  have rl: "answers resp w (RateLimit Interceptor_Props.sample_env DefaultRateLimitConfig ?lg m h c req s)"
    if c: "EnvelopeFromContext c 7000 = Inr Ledger_Props.sample_env" and a: "app s = a" for c s
  proof -
    obtain k where "ClaimsFromContext c = Some k" "Tenant k \<noteq> []"
      using c by (auto simp: EnvelopeFromContext_def Let_def split: option.splits if_splits)
    with run [OF c] a show ?thesis
      by (simp add: RateLimit_def Interceptor_Props.sample_env_def answers_def split: prod.splits)
  qed
  have ei: "answers resp w (EdgeIdentity ?ei m (RateLimit Interceptor_Props.sample_env DefaultRateLimitConfig ?lg m h) c req s)"
    if "ctx_md c = ctx_md edge_ctx" "ctx_request_id c = Some ''r1''" "ctx_trace_id c = None" "app s = a" for c s
    using that m rl by (simp add: EdgeIdentity_def Let_def publicMethods_def edge_ctx_def firstHeader_def md_Get_def HeaderTenantID_def
        HeaderActorSubject_def HeaderActorSession_def ctx_defs EnvelopeFromContext_def Ledger_Props.sample_env_def)
  have ad: "answers resp w (Admission \<lparr>ac_MaxInFlight = 1\<rparr> m (EdgeIdentity ?ei m (RateLimit Interceptor_Props.sample_env DefaultRateLimitConfig ?lg m h)) c req s)"
    if "ctx_md c = ctx_md edge_ctx" "ctx_request_id c = Some ''r1''" "ctx_trace_id c = None" "ctx_deadline c = None" "app s = a"
      "ss_current (rs_world s) = 0" for c s
    using ei [OF that(1-3), of "on_server (\<lambda>w. w\<lparr>ss_current := 1, ss_gauge := 1\<rparr>) s"] that(4-6)
    by (auto simp: Admission_def Let_def answers_def release_slot_def)
  have lo: "answers resp w (Logging Interceptor_Props.sample_env (Some ?lg) m (Admission \<lparr>ac_MaxInFlight = 1\<rparr> m (EdgeIdentity ?ei m (RateLimit Interceptor_Props.sample_env DefaultRateLimitConfig ?lg m h))) c req s)"
    if "ctx_md c = ctx_md edge_ctx" "ctx_request_id c = Some ''r1''" "ctx_trace_id c = None" "ctx_deadline c = None" "app s = a"
      "ss_current (rs_world s) = 0" for c s
    using ad [of "WithLogger c (?log c)" "log_at LevelDebug (?log c) ''rpc start'' None s"] that
    by (auto simp: Logging_def Let_def answers_def WithLogger_def log_at_def)
  have "extractRequestID edge_ctx = ''r1''"
    by (simp add: extractRequestID_def edge_ctx_def md_Get_def RequestIDMetadataKey_def)
  then show ?thesis
    using lo [of "WithRequestID edge_ctx ''r1''" "SetHeader RequestIDMetadataKey ''r1'' s"] s
    by (auto simp: serve_call_def intChain_def sample_server_config cfg Recovery_def RequestID_def Let_def answers_def
        WithRequestID_def edge_ctx_def background_def SetHeader_def)
qed

lemma paid_call_posts:
  assumes "rs_world s = fresh_server (seeded [1, 2])"
  shows "\<exists>s' resp. serve_call Interceptor_Props.sample_env sample_server ''/ledger.v1.LedgerService/Transfer'' (on_app sample_method)
      edge_ctx (Some paid_pb) s = (s', Reply resp)
    \<and> bookings (world_db (app s')) (''t'', ''k'') = Some (100, TransferFingerprint sample_uc sample_input)"
proof -
  obtain w resp where b: "bookings (world_db w) (''t'', ''k'') = Some (100, TransferFingerprint sample_uc sample_input)"
    and run: "\<And>c (s :: (unit, mem_redis transfer_world) server_state rpc_state). EnvelopeFromContext c 7000 = Inr Ledger_Props.sample_env \<Longrightarrow> ss_app (rs_world s) = ss_app (fresh_server (seeded [1, 2]))
        \<Longrightarrow> on_app sample_method c (Some paid_pb) s = (s\<lparr>rs_world := (rs_world s)\<lparr>ss_app := w\<rparr>\<rparr>, Reply resp)"
    using sample_method_posts by blast
  have "''/ledger.v1.LedgerService/Transfer'' \<notin> set DefaultPublicMethods" by (simp add: DefaultPublicMethods_def)
  then have "answers resp w (serve_call Interceptor_Props.sample_env sample_server ''/ledger.v1.LedgerService/Transfer'' (on_app sample_method)
      edge_ctx (Some paid_pb) s)"
  proof (rule sample_chain_passes [where a = "ss_app (fresh_server (seeded [1, 2]))", rotated])
    show "app s = ss_app (fresh_server (seeded [1, 2]))" "ss_current (rs_world s) = 0"
      by (simp_all add: assms) (simp add: fresh_server_def)
  next
    fix c :: req_ctx and t :: "(unit, mem_redis transfer_world) server_state rpc_state"
    assume "EnvelopeFromContext c 7000 = Inr Ledger_Props.sample_env" "app t = ss_app (fresh_server (seeded [1, 2]))"
    from run [OF this] show "answers resp w (on_app sample_method c (Some paid_pb) t)" by (simp add: answers_def)
  qed
  then show ?thesis using b by (auto simp: answers_def)
qed

text \<open>A run that seeds two accounts and serves the call; the transfer is booked at its end.\<close>

abbreviation paid :: "db \<Rightarrow> bool" where
  "paid d \<equiv> bookings d (''t'', ''k'') = Some (100, TransferFingerprint sample_uc sample_input)"

lemma system_run: "\<exists>s. sample_steps sample_system s \<and> paid (sy_db s)"
proof -
  let ?s1 = "with_db (seeded [1]) sample_system" and ?s2 = "with_db (seeded [1, 2]) (with_db (seeded [1]) sample_system)"
  have "sy_db sample_system = seeded []" by (simp add: sample_system_def fresh_server_def seeded_def empty_db_def)
  from seed_one [OF _ this, of 1] have 1: "program_step (lib_jsonb sample_libs) sample_ustr sample_system ?s1" by simp
  from seed_one [of 2 "[1]" ?s1] have 2: "program_step (lib_jsonb sample_libs) sample_ustr ?s1 ?s2" by simp
  have "rs_world (sample_incoming (sy_server ?s2)) = fresh_server (seeded [1, 2])"
    by (simp add: sample_incoming_def with_db_def sample_system_def fresh_server_def)
  from paid_call_posts [OF this] obtain c resp where
    c: "serve_call Interceptor_Props.sample_env sample_server ''/ledger.v1.LedgerService/Transfer'' (on_app sample_method)
        edge_ctx (Some paid_pb) (sample_incoming (sy_server ?s2)) = (c, Reply resp)"
    and b: "paid (world_db (app c))" by blast
  from 1 2 sample_rpc_step [OF c] have "sample_steps sample_system (?s2\<lparr>sy_server := rs_world c\<rparr>)"
    by (meson rtranclp.rtrancl_into_rtrancl rtranclp.rtrancl_refl)
  moreover have "paid (sy_db (?s2\<lparr>sy_server := rs_world c\<rparr>))" using b by simp
  ultimately show ?thesis by blast
qed

theorem rpc_is_tenant_scoped_witness:
  "\<exists>c x. serve_call Interceptor_Props.sample_env sample_server ''/ledger.v1.LedgerService/Transfer'' (on_app sample_method)
      edge_ctx (Some paid_pb) (sample_incoming (fresh_server (seeded [1, 2]))) = (c, x)
    \<and> acts_for ''t'' (seeded [1, 2]) (world_db (app c)) \<and> paid (world_db (app c))"
proof -
  have "rs_world (sample_incoming (fresh_server (seeded [1, 2]))) = fresh_server (seeded [1, 2])" by (simp add: sample_incoming_def)
  from paid_call_posts [OF this] obtain c x where
    c: "serve_call Interceptor_Props.sample_env sample_server ''/ledger.v1.LedgerService/Transfer'' (on_app sample_method)
        edge_ctx (Some paid_pb) (sample_incoming (fresh_server (seeded [1, 2]))) = (c, x)"
    and b: "paid (world_db (app c))" by blast
  have "anonymous edge_ctx" by (simp add: anonymous_def edge_ctx_def background_def ClaimsFromContext_def)
  moreover have "caller_tenant edge_ctx = ''t''"
    by (simp add: caller_tenant_def edge_ctx_def background_def firstHeader_def md_Get_def HeaderTenantID_def)
  moreover have "db_ok (seeded [1, 2])"
    by (simp add: db_ok_def keys_ok_def legs_ok_def events_ok_def tx_ids_def seeded_def empty_db_def sample_account_def)
  ultimately show ?thesis
    using rpc_is_tenant_scoped [OF sample_facts(1) sample_wire_ok(2) sample_input_facts(4) _ _ c] c b
    by (simp add: sample_incoming_def fresh_server_def)
qed

theorem program_refines_machine_witness:
  "\<exists>s. sample_steps sample_system s \<and> paid (sy_db s)
     \<and> ledger_steps (lib_jsonb sample_libs) sample_ustr (empty_db, []) (sy_db s, sy_topic s)"
proof -
  obtain s where s: "sample_steps sample_system s" "paid (sy_db s)" using system_run by blast
  have e: "shared sample_system = (empty_db, [])" by (simp add: shared_def sample_system_def fresh_server_def)
  have "shared_ok (lib_jsonb sample_libs) sample_ustr (shared sample_system)" unfolding e by (rule shared_ok_empty)
  from program_refines_machine [OF s(1) sample_jsonb this] s show ?thesis unfolding e by (auto simp: shared_def)
qed

lemma sample_empty: "sy_db sample_system = empty_db" "at_rest sample_system"
  by (simp_all add: at_rest_def sample_system_def fresh_server_def)

theorem books_always_close_witness:
  "\<exists>s. sample_steps sample_system s \<and> paid (sy_db s) \<and> accounted sample_ustr (sy_topic s) (sy_db s)"
  using system_run books_always_close [OF _ sample_jsonb sample_empty(1)] by blast



theorem events_reach_topic_witness:
  "\<exists>s (w :: KafkaMessage list outbox_world). sample_steps sample_system s \<and> paid (sy_db s) \<and> status_moves (sy_db s) (ow_db w)
     \<and> list_all (\<lambda>e. ob_Status e = OutboxStatusPublished \<and> in_topic sample_ustr (ow_kafka w) e) (outbox_events (ow_db w))"
proof -
  obtain s where s: "sample_steps sample_system s" "paid (sy_db s)" using system_run by blast
  let ?ts = "replicate (pending_count (sy_db s)) sample_turn"
  obtain w waits stopped where w: "runOne sample_ustr plain_pool sample_worker 5 ?ts (worker_view s) = (w, waits, stopped)"
    by (metis prod_cases3)
  have b: "ow_BatchSize sample_worker = 2" by (simp add: sample_worker_def)
  have "good_turn sample_worker sample_turn \<and> truthful_reports (ot_kafka sample_turn)"
    using sample_honest by (simp add: good_turn_def sample_turn_def b acks_in_order_def acking_def healthy_def plain_env_def honest_turn_def)
  then have "list_all (\<lambda>t. good_turn sample_worker t \<and> truthful_reports (ot_kafka t)) ?ts" by (simp add: list_all_iff)
  from events_reach_topic [OF s(1) sample_jsonb sample_empty(1) this _ _ w] b have "status_moves (sy_db s) (ow_db w)
      \<and> list_all (\<lambda>e. ob_Status e = OutboxStatusPublished \<and> in_topic sample_ustr (ow_kafka w) e) (outbox_events (ow_db w))" by simp
  with s show ?thesis by (intro exI [of _ s] exI [of _ w]) simp
qed

end
