(* ===== verification/Admission_Steps.thy ===== *)
theory Admission_Steps
  imports Interceptor_Props
begin

text \<open>
  The admission interceptor under concurrency: each call is a thread whose atomic steps are the
  ones of the code between \<open>current.Add(1)\<close> and the deferred \<open>current.Add(-1)\<close>, interleaved freely.
  A call past the cap raises the counter for a moment before it gives the slot back, so the counter
  can exceed the cap; the number of admitted calls cannot.
\<close>

text \<open>A call before \<open>Add(1)\<close>; with the value it drew; in the handler; and returned.\<close>

datatype adm_pc = AdmArrived | AdmDrew int | AdmRunning | AdmReturned

record adm_state =
  adm_current :: int
  adm_calls :: "adm_pc list"

inductive adm_step :: "int \<Rightarrow> adm_state \<Rightarrow> adm_state \<Rightarrow> bool" for mx where
  arrive: "adm_step mx s (s\<lparr>adm_calls := adm_calls s @ [AdmArrived]\<rparr>)"
| draw: "i < length (adm_calls s) \<Longrightarrow> adm_calls s ! i = AdmArrived \<Longrightarrow>
    adm_step mx s (s\<lparr>adm_current := adm_current s + 1, adm_calls := (adm_calls s)[i := AdmDrew (adm_current s + 1)]\<rparr>)"
| reject: "i < length (adm_calls s) \<Longrightarrow> adm_calls s ! i = AdmDrew next \<Longrightarrow> next > mx \<Longrightarrow>
    adm_step mx s (s\<lparr>adm_current := adm_current s - 1, adm_calls := (adm_calls s)[i := AdmReturned]\<rparr>)"
| admit: "i < length (adm_calls s) \<Longrightarrow> adm_calls s ! i = AdmDrew next \<Longrightarrow> next \<le> mx \<Longrightarrow>
    adm_step mx s (s\<lparr>adm_calls := (adm_calls s)[i := AdmRunning]\<rparr>)"
| finish: "i < length (adm_calls s) \<Longrightarrow> adm_calls s ! i = AdmRunning \<Longrightarrow>
    adm_step mx s (s\<lparr>adm_current := adm_current s - 1, adm_calls := (adm_calls s)[i := AdmReturned]\<rparr>)"

inductive_cases adm_stepE: "adm_step mx s s'"

definition adm_start :: adm_state where
  "adm_start = \<lparr>adm_current = 0, adm_calls = []\<rparr>"

inductive adm_reachable :: "int \<Rightarrow> adm_state \<Rightarrow> bool" for mx where
  start: "adm_reachable mx adm_start"
| step: "adm_reachable mx s \<Longrightarrow> adm_step mx s s' \<Longrightarrow> adm_reachable mx s'"

section \<open>Counting threads\<close>

definition calls_in :: "(adm_pc \<Rightarrow> bool) \<Rightarrow> adm_state \<Rightarrow> int" where
  "calls_in P s = int (length (filter P (adm_calls s)))"

definition holds_slot :: "int \<Rightarrow> adm_pc \<Rightarrow> bool" where
  "holds_slot mx pc = (case pc of AdmDrew n \<Rightarrow> n \<le> mx | AdmRunning \<Rightarrow> True | _ \<Rightarrow> False)"

definition backs_off :: "int \<Rightarrow> adm_pc \<Rightarrow> bool" where
  "backs_off mx pc = (case pc of AdmDrew n \<Rightarrow> n > mx | _ \<Rightarrow> False)"

lemma length_filter_update:
  "i < length xs \<Longrightarrow> int (length (filter P (xs[i := y]))) =
     int (length (filter P xs)) - (if P (xs ! i) then 1 else 0) + (if P y then 1 else 0)"
proof (induction xs arbitrary: i)
  case (Cons x xs)
  show ?case
  proof (cases i)
    case (Suc n)
    with Cons.IH [of n] Cons.prems show ?thesis by (auto split: if_splits)
  qed simp
qed simp

lemma calls_in_update:
  "i < length (adm_calls s) \<Longrightarrow> calls_in P (s\<lparr>adm_current := c, adm_calls := (adm_calls s)[i := pc]\<rparr>)
     = calls_in P s - (if P (adm_calls s ! i) then 1 else 0) + (if P pc then 1 else 0)"
  "i < length (adm_calls s) \<Longrightarrow> calls_in P (s\<lparr>adm_calls := (adm_calls s)[i := pc]\<rparr>)
     = calls_in P s - (if P (adm_calls s ! i) then 1 else 0) + (if P pc then 1 else 0)"
  "calls_in P (s\<lparr>adm_calls := adm_calls s @ [pc]\<rparr>) = calls_in P s + (if P pc then 1 else 0)"
  by (simp_all add: calls_in_def length_filter_update)

definition adm_inv :: "int \<Rightarrow> adm_state \<Rightarrow> bool" where
  "adm_inv mx s \<longleftrightarrow> adm_current s = calls_in (holds_slot mx) s + calls_in (backs_off mx) s
     \<and> calls_in (holds_slot mx) s \<le> mx"

lemma calls_in_nonneg: "0 \<le> calls_in P s"
  by (simp add: calls_in_def)

lemma adm_step_inv: "adm_step mx s s' \<Longrightarrow> adm_inv mx s \<Longrightarrow> adm_inv mx s'"
  by (erule adm_stepE; insert calls_in_nonneg [of "backs_off mx" s])
     (auto simp: adm_inv_def calls_in_update holds_slot_def backs_off_def)

lemma adm_reachable_inv: "adm_reachable mx s \<Longrightarrow> 0 < mx \<Longrightarrow> adm_inv mx s"
proof (induction rule: adm_reachable.induct)
  case start
  then show ?case by (simp add: adm_inv_def adm_start_def calls_in_def)
qed (blast intro: adm_step_inv)

lemma calls_in_mono: "(\<And>pc. P pc \<Longrightarrow> G pc) \<Longrightarrow> calls_in P s \<le> calls_in G s"
proof -
  assume a: "\<And>pc. P pc \<Longrightarrow> G pc"
  have "length (filter P xs) \<le> length (filter G xs)" for xs by (induction xs) (auto dest: a)
  then show ?thesis by (simp add: calls_in_def)
qed

section \<open>The properties\<close>

text \<open>C36: in every interleaving of arriving, rejected, admitted and returning calls at most
  \<open>MaxInFlight\<close> handlers run at a time, and the counter is zero again once no call is between its
  draw and its return.\<close>

theorem admission_bounds_in_flight:
  assumes "adm_reachable mx s" "0 < mx"
  shows "calls_in (\<lambda>pc. pc = AdmRunning) s \<le> mx
    \<and> (set (adm_calls s) \<subseteq> {AdmArrived, AdmReturned} \<longrightarrow> adm_current s = 0)"
proof
  note inv = adm_reachable_inv [OF assms]
  have "calls_in (\<lambda>pc. pc = AdmRunning) s \<le> calls_in (holds_slot mx) s" by (rule calls_in_mono) (simp add: holds_slot_def)
  then show "calls_in (\<lambda>pc. pc = AdmRunning) s \<le> mx" using inv by (simp add: adm_inv_def)
  show "set (adm_calls s) \<subseteq> {AdmArrived, AdmReturned} \<longrightarrow> adm_current s = 0"
  proof
    assume quiet: "set (adm_calls s) \<subseteq> {AdmArrived, AdmReturned}"
    have "calls_in P s = 0" if "\<not> P AdmArrived" "\<not> P AdmReturned" for P
      using quiet that unfolding calls_in_def by (force simp: filter_empty_conv)
    then show "adm_current s = 0" using inv by (simp add: adm_inv_def holds_slot_def backs_off_def)
  qed
qed

text \<open>The sequential interceptor takes the same decision as a call that runs alone through these
  steps.\<close>

lemma admission_alone:
  assumes "0 < ac_MaxInFlight cfg" "ctx_deadline ctx = None"
  shows "(\<exists>st. snd (Admission cfg m (\<lambda>c q s. (s, Reply ())) ctx req s) = Fail st)
    \<longleftrightarrow> (ss_current (rs_world s) + 1 > ac_MaxInFlight cfg)"
  using assms by (simp add: Admission_def Let_def)

section \<open>Witness\<close>

lemma adm_two_calls:
  "adm_reachable 1 \<lparr>adm_current = 2, adm_calls = [AdmRunning, AdmDrew 2]\<rparr>"
proof -
  note next_state = adm_reachable.step
  have "adm_reachable 1 \<lparr>adm_current = 0, adm_calls = [AdmArrived]\<rparr>"
    using next_state [OF adm_reachable.start arrive [of 1 adm_start]] by (simp add: adm_start_def)
  then have "adm_reachable 1 \<lparr>adm_current = 0, adm_calls = [AdmArrived, AdmArrived]\<rparr>"
    using next_state [OF _ arrive] by fastforce
  then have "adm_reachable 1 \<lparr>adm_current = 1, adm_calls = [AdmDrew 1, AdmArrived]\<rparr>"
    using next_state [OF _ draw [of 0]] by fastforce
  then have "adm_reachable 1 \<lparr>adm_current = 2, adm_calls = [AdmDrew 1, AdmDrew 2]\<rparr>"
    using next_state [OF _ draw [of 1]] by fastforce
  then show ?thesis using next_state [OF _ admit [of 0 _ 1]] by fastforce
qed

theorem admission_bounds_in_flight_witness:
  "calls_in (\<lambda>pc. pc = AdmRunning) \<lparr>adm_current = 2, adm_calls = [AdmRunning, AdmDrew 2]\<rparr> \<le> 1"
  using admission_bounds_in_flight [OF adm_two_calls] by simp

end
