(* ===== verification/Rate_Isolation.thy ===== *)
theory Rate_Isolation
  imports Interceptor_Props
begin

text \<open>
  The rate limiter over a whole history: calls of many tenants interleaved with ticks of the
  eviction sweeper. What one tenant is answered does not depend on the calls of the others.
\<close>

datatype rl_op = RlCall instant string | RlSweep instant

fun concerns :: "string \<Rightarrow> rl_op \<Rightarrow> bool" where
  "concerns t (RlCall now tenant) = (tenant = t)"
| "concerns t (RlSweep now) = True"

definition tenant_ctx :: "string \<Rightarrow> req_ctx" where
  "tenant_ctx t = WithClaims background \<lparr>Subject = ''s'', Tenant = t, Session = []\<rparr>"

definition let_through :: "(('l, 'a) server_state, unit, unit) handler" where
  "let_through ctx req s = (s, Reply ())"

text \<open>A history, and the answer to each of its calls.\<close>

fun rl_run :: "'l ic_env \<Rightarrow> RateLimitConfig \<Rightarrow> log_attrs \<Rightarrow> string \<Rightarrow> rl_op list \<Rightarrow> ('l, 'a) server_state rpc_state
    \<Rightarrow> (string \<times> unit outcome) list" where
  "rl_run E cfg lg m [] s = []"
| "rl_run E cfg lg m (RlCall now tenant # ops) s =
     (case RateLimit (E\<lparr>ic_now := now\<rparr>) cfg lg m let_through (tenant_ctx tenant) () s of
        (s1, x) \<Rightarrow> (tenant, x) # rl_run E cfg lg m ops s1)"
| "rl_run E cfg lg m (RlSweep now # ops) s =
     rl_run E cfg lg m ops (on_server (\<lambda>w. w\<lparr>ss_limiters := sweepTick (effectiveTTL cfg) now (ss_limiters w)\<rparr>) s)"

abbreviation limiter_of :: "string \<Rightarrow> ('l, 'a) server_state rpc_state \<Rightarrow> 'l rateLimiterEntry option" where
  "limiter_of t s \<equiv> ss_limiters (rs_world s) t"

lemma tenant_claims [simp]: "ClaimsFromContext (tenant_ctx t) = Some \<lparr>Subject = ''s'', Tenant = t, Session = []\<rparr>"
  by (simp add: tenant_ctx_def ctx_defs)

lemma getOrCreate_frame:
  assumes "getOrCreateLimiter R now tenant cfg m = (m', e)"
  shows "t \<noteq> tenant \<Longrightarrow> m' t = m t"
  using assms by (auto simp: getOrCreateLimiter_def Let_def split: option.splits)

lemma getOrCreate_entry:
  "m1 tenant = m2 tenant \<Longrightarrow> snd (getOrCreateLimiter R now tenant cfg m1) = snd (getOrCreateLimiter R now tenant cfg m2)"
  by (simp add: getOrCreateLimiter_def Let_def split: option.splits)

text \<open>One call: its answer and the tenant's new bucket are functions of the tenant's bucket; every
  other bucket stays.\<close>

definition one_call :: "'l ic_env \<Rightarrow> RateLimitConfig \<Rightarrow> string \<Rightarrow> string \<Rightarrow> 'l rateLimiterEntry option
    \<Rightarrow> 'l rateLimiterEntry option \<times> unit outcome" where
  "one_call E cfg m t b =
     (if t = [] then (b, Fail (status_Error Unauthenticated (Text ''ratelimit: no tenant in context'')))
      else let e = snd (getOrCreateLimiter (ic_rate E) (ic_now E) t cfg (\<lambda>k. b));
               (l, allowed) = rate_Allow (ic_rate E) (ic_now E) (le_limiter e);
               b' = Some (e\<lparr>le_limiter := l, le_lastSeenUnix := time_Unix (ic_now E)\<rparr>)
           in (b', if allowed then Reply ()
                   else if duration_of_float E (rateOf (ic_rate E) l) = 0 then Panic ''runtime error: integer divide by zero''
                   else Fail (status_Error ResourceExhausted (Text (''rate limit exceeded for tenant '' @ t @ '' on '' @ m)))))"

lemma RateLimit_no_tenant:
  "RateLimit E cfg lg m let_through (tenant_ctx []) () s
     = (s, Fail (status_Error Unauthenticated (Text ''ratelimit: no tenant in context'')))"
  by (simp add: RateLimit_def)

definition after_call :: "'l ic_env \<Rightarrow> 'l limiters \<Rightarrow> 'l rateLimiterEntry \<Rightarrow> 'l \<Rightarrow> string \<Rightarrow> 'l limiters" where
  "after_call E ls e l t = ls(t \<mapsto> e\<lparr>le_limiter := l, le_lastSeenUnix := time_Unix (ic_now E)\<rparr>)"

lemma RateLimit_tenant:
  assumes "t \<noteq> []" "getOrCreateLimiter (ic_rate E) (ic_now E) t cfg (ss_limiters (rs_world s)) = (ls, e)"
    and "rate_Allow (ic_rate E) (ic_now E) (le_limiter e) = (l, a)"
  shows "\<exists>s'. RateLimit E cfg lg m let_through (tenant_ctx t) () s =
      (s', if a then Reply ()
           else if duration_of_float E (rateOf (ic_rate E) l) = 0 then Panic ''runtime error: integer divide by zero''
           else Fail (status_Error ResourceExhausted (Text (''rate limit exceeded for tenant '' @ t @ '' on '' @ m))))
    \<and> ss_limiters (rs_world s') = after_call E ls e l t"
proof (cases a)
  case True
  with assms show ?thesis by (simp add: RateLimit_def let_through_def after_call_def Let_def)
next
  case False
  with assms show ?thesis
    by (cases "duration_of_float E (rateOf (ic_rate E) l) = 0") (simp_all add: RateLimit_def after_call_def Let_def)
qed

lemma RateLimit_one_call:
  assumes "RateLimit E cfg lg m let_through (tenant_ctx t) () s = (s', x)"
  shows "(limiter_of t s', x) = one_call E cfg m t (limiter_of t s)"
    and "t' \<noteq> t \<Longrightarrow> limiter_of t' s' = limiter_of t' s"
proof -
  obtain ls e where g: "getOrCreateLimiter (ic_rate E) (ic_now E) t cfg (ss_limiters (rs_world s)) = (ls, e)" by (rule prod.exhaust)
  obtain l a where a: "rate_Allow (ic_rate E) (ic_now E) (le_limiter e) = (l, a)" by (rule prod.exhaust)
  have e: "snd (getOrCreateLimiter (ic_rate E) (ic_now E) t cfg (\<lambda>k. limiter_of t s)) = e"
    using getOrCreate_entry [of "\<lambda>k. limiter_of t s" t "ss_limiters (rs_world s)" "ic_rate E" "ic_now E" cfg] g by simp
  have "(limiter_of t s', x) = one_call E cfg m t (limiter_of t s) \<and> (t' \<noteq> t \<longrightarrow> limiter_of t' s' = limiter_of t' s)"
  proof (cases "t = []")
    case True
    then show ?thesis using assms by (auto simp: RateLimit_no_tenant one_call_def)
  next
    case False
    then show ?thesis using RateLimit_tenant [OF False g a, of lg m] assms getOrCreate_frame [OF g, of t']
      by (auto simp: one_call_def e a after_call_def Let_def)
  qed
  then show "(limiter_of t s', x) = one_call E cfg m t (limiter_of t s)"
    and "t' \<noteq> t \<Longrightarrow> limiter_of t' s' = limiter_of t' s" by auto
qed

lemma rl_run_tenant:
  "limiter_of t s = limiter_of t s0 \<Longrightarrow>
   filter (\<lambda>(u, x). u = t) (rl_run E cfg lg m ops s) = rl_run E cfg lg m (filter (concerns t) ops) s0"
proof (induction ops arbitrary: s s0)
  case (Cons op ops)
  show ?case
  proof (cases op)
    case (RlSweep now)
    let ?sw = "on_server (\<lambda>w. w\<lparr>ss_limiters := sweepTick (effectiveTTL cfg) now (ss_limiters w)\<rparr>)"
    have "limiter_of t (?sw s) = limiter_of t (?sw s0)" by (simp add: sweepTick_def Let_def Cons.prems)
    then show ?thesis using Cons.IH [of "?sw s" "?sw s0"] by (simp add: RlSweep)
  next
    case (RlCall now u)
    let ?E = "E\<lparr>ic_now := now\<rparr>"
    obtain s1 x where 1: "RateLimit ?E cfg lg m let_through (tenant_ctx u) () s = (s1, x)" by (rule prod.exhaust)
    obtain s2 y where 2: "RateLimit ?E cfg lg m let_through (tenant_ctx u) () s0 = (s2, y)" by (rule prod.exhaust)
    show ?thesis
    proof (cases "u = t")
      case True
      have "(limiter_of t s1, x) = (limiter_of t s2, y)"
        using RateLimit_one_call(1) [OF 1] RateLimit_one_call(1) [OF 2] Cons.prems by (simp add: True)
      then show ?thesis using 1 2 Cons.IH [of s1 s2] by (simp add: RlCall True)
    next
      case False
      then have "limiter_of t s1 = limiter_of t s0" using RateLimit_one_call(2) [OF 1, of t] Cons.prems by simp
      with False 1 show ?thesis using Cons.IH [of s1 s0] by (simp add: RlCall)
    qed
  qed
qed simp

text \<open>C14: the answers a tenant gets over any history of calls and sweeper ticks are exactly those
  it would get if no other tenant ever called, for every token-bucket implementation.\<close>

theorem rate_limit_isolates_tenants:
  "filter (\<lambda>(u, x). u = t) (rl_run E cfg lg m ops s) = rl_run E cfg lg m (filter (concerns t) ops) s"
  by (rule rl_run_tenant) (rule refl)

section \<open>The tier map\<close>

text \<open>A pair without a colon, with an empty tenant or an empty tier is skipped; the others are
  trimmed, and later pairs override earlier ones.\<close>

lemma addTierPair_skips: "CHR '':'' \<notin> set pair \<Longrightarrow> addTierPair pair out = out"
proof -
  assume "CHR '':'' \<notin> set pair"
  then have "strings_IndexByte pair CHR '':'' = -1" by (induction pair) auto
  then show ?thesis by (simp add: addTierPair_def)
qed

lemma index_append: "c \<notin> set a \<Longrightarrow> strings_IndexByte (a @ c # b) c = int (length a)"
  by (induction a) (auto simp: Let_def)

lemma addTierPair_pair:
  "CHR '':'' \<notin> set t \<Longrightarrow> t \<noteq> [] \<Longrightarrow> tier \<noteq> [] \<Longrightarrow>
   addTierPair (t @ CHR '':'' # tier) out = out(strings_TrimSpace t \<mapsto> strings_TrimSpace tier)"
  using index_append [of "CHR '':''" t tier] by (simp add: addTierPair_def Let_def)

end
