(* ===== verification/Gateway.thy ===== *)
theory Gateway
  imports Prelude
begin

text \<open>
  \<open>apps/gateway-svc/internal/domain\<close>: requests and their validation (\<open>card_charge.go\<close>,
  \<open>outbound_bank_transfer.go\<close>, \<open>money.go\<close>, \<open>errors.go\<close>), the two payment state machines, and
  the workflow port (\<open>workflow.go\<close>), which no code of the repository implements yet. What the two
  state machines share is the locale \<open>workflow_machine\<close>.
\<close>

section \<open>Errors and money\<close>

datatype gw_error =
    ErrWorkflowNotFound | ErrIdempotencyConflict | ErrCannotCancel | ErrInvalidTransition | ErrInvalidEvent
  | GwErrTenantRequired | ErrIdempotencyKeyEmpty | GwErrInvalidCurrency | ErrInvalidAmount
  | ErrAccountRequired | ErrPaymentMethodEmpty | ErrDestinationEmpty | ErrCountryRequired

type_synonym gw_Amount = string
type_synonym gw_Currency = string

definition gw_Amount_String :: "gw_Amount \<Rightarrow> string" where "gw_Amount_String a = a"

definition gw_Amount_IsZero :: "gw_Amount \<Rightarrow> bool" where
  "gw_Amount_IsZero a \<longleftrightarrow> a \<in> {[], ''0'', ''0.0'', ''0.00'', ''0.000'', ''0.0000''}"

definition gw_Currency_String :: "gw_Currency \<Rightarrow> string" where "gw_Currency_String c = c"

definition gw_Currency_Valid :: "gw_Currency \<Rightarrow> bool" where
  "gw_Currency_Valid c =
     (if length c \<noteq> 3 then False
      else list_all (\<lambda>i. let ch = c ! i in \<not> (ch < CHR ''A'' \<or> ch > CHR ''Z'')) [0..<3])"

section \<open>Requests\<close>

record CardChargeRequest =
  cc_TenantID :: string
  cc_IdempotencyKey :: string
  cc_UserAccountID :: UUID
  cc_Amount :: gw_Amount
  cc_Currency :: gw_Currency
  cc_PaymentMethodTok :: string
  cc_LedgerTransferID :: "UUID option"

definition CardChargeRequest_Validate :: "CardChargeRequest \<Rightarrow> gw_error option" where
  "CardChargeRequest_Validate r =
     (if cc_TenantID r = [] then Some GwErrTenantRequired
      else if cc_IdempotencyKey r = [] then Some ErrIdempotencyKeyEmpty
      else if cc_UserAccountID r = uuid_Nil then Some ErrAccountRequired
      else if \<not> gw_Currency_Valid (cc_Currency r) then Some GwErrInvalidCurrency
      else if gw_Amount_IsZero (cc_Amount r) then Some ErrInvalidAmount
      else if cc_PaymentMethodTok r = [] then Some ErrPaymentMethodEmpty
      else None)"

record OutboundDestination =
  od_Kind :: string
  od_Token :: string

record OutboundBankTransferRequest =
  ob_TenantID :: string
  ob_IdempotencyKey :: string
  ob_UserAccountID :: UUID
  ob_LedgerTransferID :: UUID
  ob_Amount :: gw_Amount
  ob_Currency :: gw_Currency
  ob_Country :: string
  ob_Destination :: OutboundDestination

definition OutboundBankTransferRequest_Validate :: "OutboundBankTransferRequest \<Rightarrow> gw_error option" where
  "OutboundBankTransferRequest_Validate r =
     (if ob_TenantID r = [] then Some GwErrTenantRequired
      else if ob_IdempotencyKey r = [] then Some ErrIdempotencyKeyEmpty
      else if ob_UserAccountID r = uuid_Nil then Some ErrAccountRequired
      else if ob_LedgerTransferID r = uuid_Nil then Some ErrAccountRequired
      else if \<not> gw_Currency_Valid (ob_Currency r) then Some GwErrInvalidCurrency
      else if gw_Amount_IsZero (ob_Amount r) then Some ErrInvalidAmount
      else if ob_Country r = [] \<or> length (ob_Country r) \<noteq> 2 then Some ErrCountryRequired
      else if od_Kind (ob_Destination r) = [] \<or> od_Token (ob_Destination r) = [] then Some ErrDestinationEmpty
      else None)"

section \<open>State machines\<close>

text \<open>A transition table is a list of entries; a state without an entry is terminal.\<close>

type_synonym transitions = "(string \<times> string list) list"

type_synonym CardChargeState = string

definition CardChargeInitiated :: CardChargeState where "CardChargeInitiated = ''INITIATED''"
definition CardChargeAuthorizing :: CardChargeState where "CardChargeAuthorizing = ''AUTHORIZING''"
definition CardChargeAuthorized :: CardChargeState where "CardChargeAuthorized = ''AUTHORIZED''"
definition CardChargeCaptured :: CardChargeState where "CardChargeCaptured = ''CAPTURED''"
definition CardChargeSettled :: CardChargeState where "CardChargeSettled = ''SETTLED''"
definition CardChargeFailed :: CardChargeState where "CardChargeFailed = ''FAILED''"
definition CardChargeVoided :: CardChargeState where "CardChargeVoided = ''VOIDED''"
definition CardChargeRefunded :: CardChargeState where "CardChargeRefunded = ''REFUNDED''"
definition CardChargeChargeback :: CardChargeState where "CardChargeChargeback = ''CHARGEBACK''"
definition CardChargeAbandoned :: CardChargeState where "CardChargeAbandoned = ''ABANDONED''"

lemmas card_states = CardChargeInitiated_def CardChargeAuthorizing_def CardChargeAuthorized_def
  CardChargeCaptured_def CardChargeSettled_def CardChargeFailed_def CardChargeVoided_def
  CardChargeRefunded_def CardChargeChargeback_def CardChargeAbandoned_def

definition validCardChargeTransitions :: transitions where
  "validCardChargeTransitions =
     [(CardChargeInitiated, [CardChargeAuthorizing]),
      (CardChargeAuthorizing, [CardChargeAuthorized, CardChargeFailed]),
      (CardChargeAuthorized, [CardChargeCaptured, CardChargeVoided, CardChargeAbandoned]),
      (CardChargeCaptured, [CardChargeSettled, CardChargeRefunded]),
      (CardChargeSettled, [CardChargeChargeback])]"

definition CardCharge_CanTransitionTo :: "CardChargeState \<Rightarrow> CardChargeState \<Rightarrow> bool" where
  "CardCharge_CanTransitionTo s next =
     (case map_of validCardChargeTransitions s of None \<Rightarrow> False | Some allowed \<Rightarrow> next \<in> set allowed)"

definition CardCharge_Terminal :: "CardChargeState \<Rightarrow> bool" where
  "CardCharge_Terminal s \<longleftrightarrow> map_of validCardChargeTransitions s = None"

definition CardCharge_Cancellable :: "CardChargeState \<Rightarrow> bool" where
  "CardCharge_Cancellable s \<longleftrightarrow> s \<in> {CardChargeInitiated, CardChargeAuthorizing, CardChargeAuthorized}"

type_synonym OutboundBankTransferState = string

definition OutboundRequested :: OutboundBankTransferState where "OutboundRequested = ''REQUESTED''"
definition OutboundInFlight :: OutboundBankTransferState where "OutboundInFlight = ''IN_FLIGHT''"
definition OutboundSettled :: OutboundBankTransferState where "OutboundSettled = ''SETTLED''"
definition OutboundReversed :: OutboundBankTransferState where "OutboundReversed = ''REVERSED''"
definition OutboundFailed :: OutboundBankTransferState where "OutboundFailed = ''FAILED''"
definition OutboundCancelled :: OutboundBankTransferState where "OutboundCancelled = ''CANCELLED''"

lemmas outbound_states = OutboundRequested_def OutboundInFlight_def OutboundSettled_def
  OutboundReversed_def OutboundFailed_def OutboundCancelled_def

definition validOutboundTransitions :: transitions where
  "validOutboundTransitions =
     [(OutboundRequested, [OutboundInFlight, OutboundCancelled, OutboundFailed]),
      (OutboundInFlight, [OutboundSettled, OutboundFailed]),
      (OutboundSettled, [OutboundReversed])]"

definition Outbound_CanTransitionTo :: "OutboundBankTransferState \<Rightarrow> OutboundBankTransferState \<Rightarrow> bool" where
  "Outbound_CanTransitionTo s next =
     (case map_of validOutboundTransitions s of None \<Rightarrow> False | Some allowed \<Rightarrow> next \<in> set allowed)"

definition Outbound_Terminal :: "OutboundBankTransferState \<Rightarrow> bool" where
  "Outbound_Terminal s \<longleftrightarrow> map_of validOutboundTransitions s = None"

definition Outbound_Cancellable :: "OutboundBankTransferState \<Rightarrow> bool" where
  "Outbound_Cancellable s \<longleftrightarrow> s = OutboundRequested"

section \<open>The workflow port\<close>

type_synonym WorkflowKind = string

definition WorkflowKindCardCharge :: WorkflowKind where "WorkflowKindCardCharge = ''card_charge''"
definition WorkflowKindOutboundBankTransfer :: WorkflowKind where
  "WorkflowKindOutboundBankTransfer = ''outbound_bank_transfer''"

definition WorkflowKind_Valid :: "WorkflowKind \<Rightarrow> bool" where
  "WorkflowKind_Valid k \<longleftrightarrow> k \<in> {WorkflowKindCardCharge, WorkflowKindOutboundBankTransfer}"

record WorkflowID =
  wf_Kind :: WorkflowKind
  wf_ID :: UUID

record Event =
  ev_ID :: UUID
  ev_Kind :: string
  ev_OccurredAt :: instant
  ev_Source :: string
  ev_Payload :: bytes

record HistoryRecord =
  hr_EventType :: string
  hr_OccurredAt :: instant
  hr_Details :: bytes

record 'state Snapshot =
  sn_ID :: WorkflowID
  sn_State :: 'state
  sn_CreatedAt :: instant
  sn_UpdatedAt :: instant
  sn_NextActionAt :: "instant option"
  sn_NextAction :: string
  sn_History :: "HistoryRecord list"
  sn_LastError :: string

record ('w, 'req, 'state) PaymentWorkflow =
  pw_Start :: "'req \<Rightarrow> 'w \<Rightarrow> 'w \<times> (gw_error + WorkflowID)"
  pw_Signal :: "WorkflowID \<Rightarrow> Event \<Rightarrow> 'w \<Rightarrow> 'w \<times> gw_error option"
  pw_Query :: "WorkflowID \<Rightarrow> 'w \<Rightarrow> 'w \<times> (gw_error + 'state Snapshot)"
  pw_Cancel :: "WorkflowID \<Rightarrow> string \<Rightarrow> 'w \<Rightarrow> 'w \<times> gw_error option"

type_synonym 'w CardChargeWorkflow = "('w, CardChargeRequest, CardChargeState) PaymentWorkflow"
type_synonym 'w OutboundBankTransferWorkflow = "('w, OutboundBankTransferRequest, OutboundBankTransferState) PaymentWorkflow"

section \<open>What a payment state machine promises\<close>

text \<open>A run: a list of states each of which may follow the one before.\<close>

fun workflow_run :: "(string \<Rightarrow> string \<Rightarrow> bool) \<Rightarrow> string \<Rightarrow> string list \<Rightarrow> bool" where
  "workflow_run can s [] \<longleftrightarrow> True"
| "workflow_run can s (t # ts) \<longleftrightarrow> can s t \<and> workflow_run can t ts"

lemma workflow_run_append:
  "workflow_run can s (ts @ us) \<longleftrightarrow> workflow_run can s ts \<and> workflow_run can (last (s # ts)) us"
  by (induction ts arbitrary: s) auto

text \<open>What a run of at most \<open>n\<close> steps should look like: declared states, none twice, and a way on
  to a terminal state.\<close>

definition well_run :: "(string \<Rightarrow> string \<Rightarrow> bool) \<Rightarrow> (string \<Rightarrow> bool) \<Rightarrow> string list \<Rightarrow> nat \<Rightarrow> string \<Rightarrow> string list \<Rightarrow> bool" where
  "well_run can terminal states n s ts \<longleftrightarrow> set ts \<subseteq> set states \<and> distinct (s # ts) \<and> length ts \<le> n
     \<and> (\<exists>us. workflow_run can s (ts @ us) \<and> terminal (last (s # ts @ us)))"

text \<open>\<open>rank\<close> bounds the number of steps left; a state with rank zero is terminal.\<close>

locale workflow_machine =
  fixes can :: "string \<Rightarrow> string \<Rightarrow> bool" and terminal :: "string \<Rightarrow> bool" and states :: "string list"
    and rank :: "string \<Rightarrow> nat"
  assumes closed: "can s t \<Longrightarrow> t \<in> set states"
    and decreases: "can s t \<Longrightarrow> rank t < rank s"
    and dead_end: "terminal s \<longleftrightarrow> (\<forall>t. \<not> can s t)"
begin

lemma run_bounded: "workflow_run can s ts \<Longrightarrow> length ts \<le> rank s"
  by (induction ts arbitrary: s) (fastforce dest: decreases)+

lemma run_ranks: "workflow_run can s ts \<Longrightarrow> t \<in> set ts \<Longrightarrow> rank t < rank s"
  by (induction ts arbitrary: s) (auto dest: decreases intro: less_trans)

lemma run_states: "workflow_run can s ts \<Longrightarrow> set ts \<subseteq> set states"
  by (induction ts arbitrary: s) (auto dest: closed)

lemma run_distinct: "workflow_run can s ts \<Longrightarrow> distinct (s # ts)"
proof (induction ts arbitrary: s)
  case (Cons t ts)
  from run_ranks [OF Cons.prems] have "s \<notin> set (t # ts)" by blast
  with Cons show ?case by auto
qed simp

lemma run_completes: "\<exists>ts. workflow_run can s ts \<and> terminal (last (s # ts))"
proof (induction "rank s" arbitrary: s rule: less_induct)
  case less
  show ?case
  proof (cases "terminal s")
    case True
    then show ?thesis by (intro exI [of _ "[]"]) simp
  next
    case False
    then obtain t where t: "can s t" using dead_end by blast
    from less [OF decreases [OF t]] obtain ts where "workflow_run can t ts" "terminal (last (t # ts))" by blast
    with t show ?thesis by (intro exI [of _ "t # ts"]) simp
  qed
qed

lemma run_is_well:
  assumes "workflow_run can s ts" shows "well_run can terminal states (rank s) s ts"
proof -
  obtain us where us: "workflow_run can (last (s # ts)) us" "terminal (last (last (s # ts) # us))" using run_completes by blast
  then have "terminal (last (s # ts @ us))" by (cases us) auto
  moreover have "workflow_run can s (ts @ us)" using us(1) assms by (simp only: workflow_run_append)
  ultimately show ?thesis unfolding well_run_def using run_states [OF assms] run_distinct [OF assms] run_bounded [OF assms] by blast
qed

end

definition card_states_list :: "CardChargeState list" where
  "card_states_list = [CardChargeInitiated, CardChargeAuthorizing, CardChargeAuthorized, CardChargeCaptured,
     CardChargeSettled, CardChargeFailed, CardChargeVoided, CardChargeRefunded, CardChargeChargeback, CardChargeAbandoned]"

definition card_rank :: "CardChargeState \<Rightarrow> nat" where
  "card_rank s = (if s = CardChargeInitiated then 5 else if s = CardChargeAuthorizing then 4
     else if s = CardChargeAuthorized then 3 else if s = CardChargeCaptured then 2 else if s = CardChargeSettled then 1 else 0)"

definition outbound_states_list :: "OutboundBankTransferState list" where
  "outbound_states_list = [OutboundRequested, OutboundInFlight, OutboundSettled, OutboundReversed, OutboundFailed, OutboundCancelled]"

definition outbound_rank :: "OutboundBankTransferState \<Rightarrow> nat" where
  "outbound_rank s = (if s = OutboundRequested then 3 else if s = OutboundInFlight then 2 else if s = OutboundSettled then 1 else 0)"

text \<open>The transition tables as lists of steps.\<close>

lemma card_distinct: "distinct card_states_list"
  by (simp add: card_states_list_def card_states)

lemma outbound_distinct: "distinct outbound_states_list"
  by (simp add: outbound_states_list_def outbound_states)

lemma card_steps:
  "CardCharge_CanTransitionTo s t \<longleftrightarrow>
     (s = CardChargeInitiated \<and> t = CardChargeAuthorizing)
     \<or> (s = CardChargeAuthorizing \<and> t \<in> {CardChargeAuthorized, CardChargeFailed})
     \<or> (s = CardChargeAuthorized \<and> t \<in> {CardChargeCaptured, CardChargeVoided, CardChargeAbandoned})
     \<or> (s = CardChargeCaptured \<and> t \<in> {CardChargeSettled, CardChargeRefunded})
     \<or> (s = CardChargeSettled \<and> t = CardChargeChargeback)"
  using card_distinct
  by (auto simp: CardCharge_CanTransitionTo_def validCardChargeTransitions_def card_states_list_def split: if_splits)

lemma outbound_steps:
  "Outbound_CanTransitionTo s t \<longleftrightarrow>
     (s = OutboundRequested \<and> t \<in> {OutboundInFlight, OutboundCancelled, OutboundFailed})
     \<or> (s = OutboundInFlight \<and> t \<in> {OutboundSettled, OutboundFailed})
     \<or> (s = OutboundSettled \<and> t = OutboundReversed)"
  using outbound_distinct
  by (auto simp: Outbound_CanTransitionTo_def validOutboundTransitions_def outbound_states_list_def split: if_splits)

lemma card_dead_ends: "CardCharge_Terminal s \<longleftrightarrow> (\<forall>t. \<not> CardCharge_CanTransitionTo s t)"
  unfolding card_steps by (auto simp: CardCharge_Terminal_def validCardChargeTransitions_def split: if_splits)

lemma outbound_dead_ends: "Outbound_Terminal s \<longleftrightarrow> (\<forall>t. \<not> Outbound_CanTransitionTo s t)"
  unfolding outbound_steps by (auto simp: Outbound_Terminal_def validOutboundTransitions_def split: if_splits)

interpretation card: workflow_machine CardCharge_CanTransitionTo CardCharge_Terminal card_states_list card_rank
proof
  fix s t assume "CardCharge_CanTransitionTo s t"
  then show "t \<in> set card_states_list" "card_rank t < card_rank s"
    using card_distinct unfolding card_steps card_states_list_def card_rank_def by auto
qed (rule card_dead_ends)

interpretation outbound: workflow_machine Outbound_CanTransitionTo Outbound_Terminal outbound_states_list outbound_rank
proof
  fix s t assume "Outbound_CanTransitionTo s t"
  then show "t \<in> set outbound_states_list" "outbound_rank t < outbound_rank s"
    using outbound_distinct unfolding outbound_steps outbound_states_list_def outbound_rank_def by auto
qed (rule outbound_dead_ends)

section \<open>Runs of the two machines\<close>

text \<open>C38: a run of either payment state machine from its initial state visits declared states only,
  none of them twice, takes at most five (card) or three (outbound) steps, and from wherever it
  stands it can go on to a terminal state.\<close>

theorem payments_end:
  "(\<forall>ts. workflow_run CardCharge_CanTransitionTo CardChargeInitiated ts \<longrightarrow>
      well_run CardCharge_CanTransitionTo CardCharge_Terminal card_states_list 5 CardChargeInitiated ts)
   \<and> (\<forall>ts. workflow_run Outbound_CanTransitionTo OutboundRequested ts \<longrightarrow>
      well_run Outbound_CanTransitionTo Outbound_Terminal outbound_states_list 3 OutboundRequested ts)"
proof (intro conjI allI impI)
  fix ts assume "workflow_run CardCharge_CanTransitionTo CardChargeInitiated ts"
  from card.run_is_well [OF this] show "well_run CardCharge_CanTransitionTo CardCharge_Terminal card_states_list 5 CardChargeInitiated ts"
    by (simp add: card_rank_def)
next
  fix ts assume "workflow_run Outbound_CanTransitionTo OutboundRequested ts"
  from outbound.run_is_well [OF this] show "well_run Outbound_CanTransitionTo Outbound_Terminal outbound_states_list 3 OutboundRequested ts"
    by (simp add: outbound_rank_def)
qed

lemma card_run_sample:
  "workflow_run CardCharge_CanTransitionTo CardChargeInitiated
     [CardChargeAuthorizing, CardChargeAuthorized, CardChargeCaptured]"
  by (simp add: card_steps)

theorem payments_end_witness:
  "well_run CardCharge_CanTransitionTo CardCharge_Terminal card_states_list 5 CardChargeInitiated
     [CardChargeAuthorizing, CardChargeAuthorized, CardChargeCaptured]"
  using payments_end card_run_sample by blast

section \<open>Cancelling\<close>

text \<open>An outbound transfer is cancellable exactly where the table leads to CANCELLED. A card charge
  is cancellable in two states that have no step to VOIDED.\<close>

theorem outbound_cancel_agrees:
  "Outbound_Cancellable s \<longleftrightarrow> Outbound_CanTransitionTo s OutboundCancelled"
  using outbound_distinct by (auto simp: outbound_steps Outbound_Cancellable_def outbound_states_list_def)

theorem card_cancel_gap:
  "CardCharge_Cancellable s \<and> \<not> CardCharge_CanTransitionTo s CardChargeVoided
   \<longleftrightarrow> s = CardChargeInitiated \<or> s = CardChargeAuthorizing"
  using card_distinct by (auto simp: card_steps CardCharge_Cancellable_def card_states_list_def)

text \<open>The validation lets a negative amount pass, although its error says that amounts must be
  positive.\<close>

lemma negative_amount_passes:
  "CardChargeRequest_Validate \<lparr>cc_TenantID = ''t'', cc_IdempotencyKey = ''k'', cc_UserAccountID = 1, cc_Amount = ''-5.00'',
     cc_Currency = ''USD'', cc_PaymentMethodTok = ''pm_1'', cc_LedgerTransferID = None\<rparr> = None"
proof -
  have "gw_Currency_Valid ''USD''" by code_simp
  then show ?thesis by (simp add: CardChargeRequest_Validate_def gw_Amount_IsZero_def)
qed

end
