(* ===== verification/Config.thy ===== *)
theory Config
  imports Complex_Main Prelude
begin

text \<open>
  \<open>internal/config/config.go\<close>: the configuration record, its validation, and loading with the
  dotenv layers. The environment is a partial function; \<open>env.Parse\<close> (third-party, driven by the
  struct tags), \<open>os.Stat\<close> and \<open>godotenv.Load\<close> are arguments. \<open>filepath.Clean\<close> is modelled.
\<close>

section \<open>The configuration\<close>

record GRPCConfig =
  grpc_Addr :: string
  grpc_ShutdownTimeout :: duration

record MetricsConfig =
  metrics_Addr :: string

record ProfilingConfig =
  prof_Enabled :: bool
  prof_BlockProfileRate :: int
  prof_MutexProfileFraction :: int

record CfgAdmission =
  adm_Enabled :: bool
  adm_MaxInFlight :: int

record CfgRateLimit =
  rlim_Enabled :: bool
  rlim_TenantTierMap :: string

record DBConfig =
  db_URL :: string
  db_MaxConns :: int
  db_MinConns :: int
  db_ConnMaxLifetime :: duration
  db_ConnMaxIdleTime :: duration
  db_AcquireTimeout :: duration
  db_WorkerAcquireTimeout :: duration
  db_WorkerMaxConns :: int

record RedisConfig =
  redis_URL :: string

record KafkaConfig =
  kafka_Brokers :: "string list"
  kafka_ClientID :: string

record OutboxConfig =
  outbox_Topic :: string
  outbox_Workers :: int

record AuditConfig =
  audit_BatchSize :: int

record OTelConfig =
  otel_Endpoint :: string
  otel_Insecure :: bool
  otel_ServiceName :: string
  otel_Version :: string
  otel_Sampler :: string
  otel_SamplerArg :: rat
  otel_StdoutDebug :: bool

record Config =
  AppEnv :: string
  LogLevel :: string
  cfg_GRPC :: GRPCConfig
  cfg_Metrics :: MetricsConfig
  cfg_Profiling :: ProfilingConfig
  cfg_Admission :: CfgAdmission
  cfg_RateLimit :: CfgRateLimit
  cfg_DB :: DBConfig
  cfg_Redis :: RedisConfig
  cfg_Kafka :: KafkaConfig
  cfg_Outbox :: OutboxConfig
  cfg_Audit :: AuditConfig
  cfg_OTel :: OTelConfig

fun strings_Join :: "string list \<Rightarrow> string \<Rightarrow> string" where
  "strings_Join [] sep = []"
| "strings_Join [x] sep = x"
| "strings_Join (x # xs) sep = x @ sep @ strings_Join xs sep"

definition BootstrapServers :: "KafkaConfig \<Rightarrow> string" where
  "BootstrapServers k = strings_Join (kafka_Brokers k) '',''"

section \<open>Validation\<close>

definition minAcquireTimeout :: duration where "minAcquireTimeout = 50 * Millisecond"
definition maxAcquireTimeout :: duration where "maxAcquireTimeout = 30 * Second"
definition maxWorkerAcquire :: duration where "maxWorkerAcquire = 5 * Minute"

definition when_err :: "bool \<Rightarrow> fmt_part list \<Rightarrow> go_error list" where
  "when_err c parts = (if c then [Errorf parts] else [])"

text \<open>\<open>errors.Join\<close> of no errors is nil. The sampler argument is printed with \<open>%v\<close>; its text is
  left out.\<close>

definition errors_Join :: "go_error list \<Rightarrow> go_error option" where
  "errors_Join errs = (if errs = [] then None else Some (Joined errs))"

definition Config_Validate :: "Config \<Rightarrow> go_error option" where
  "Config_Validate c =
     (let db = cfg_DB c; ot = cfg_OTel c; w = outbox_Workers (cfg_Outbox c); b = audit_BatchSize (cfg_Audit c) in
      errors_Join
       (when_err (w < 1) [Lit ''OUTBOX_WORKERS must be >= 1 (got '', D w, Lit '')'']
        @ when_err (db_MaxConns db < db_MinConns db)
            [Lit ''DATABASE_MAX_CONNS ('', D (db_MaxConns db), Lit '') must be >= DATABASE_MIN_CONNS ('', D (db_MinConns db), Lit '')'']
        @ when_err (db_AcquireTimeout db \<le> 0 \<or> db_AcquireTimeout db < minAcquireTimeout \<or> db_AcquireTimeout db > maxAcquireTimeout)
            [Lit ''DATABASE_ACQUIRE_TIMEOUT must be in ['', Dur minAcquireTimeout, Lit '', '', Dur maxAcquireTimeout,
             Lit ''] (got '', Dur (db_AcquireTimeout db), Lit '')'']
        @ when_err (db_WorkerAcquireTimeout db \<le> 0 \<or> db_WorkerAcquireTimeout db > maxWorkerAcquire)
            [Lit ''DATABASE_WORKER_ACQUIRE_TIMEOUT must be in (0, '', Dur maxWorkerAcquire, Lit ''] (got '',
             Dur (db_WorkerAcquireTimeout db), Lit '')'']
        @ when_err (db_WorkerMaxConns db < 2)
            [Lit ''DATABASE_WORKER_MAX_CONNS must be >= 2 (got '', D (db_WorkerMaxConns db), Lit '')'']
        @ when_err (b < 100 \<or> b > 10000) [Lit ''AUDIT_BATCH_SIZE must be in [100, 10000] (got '', D b, Lit '')'']
        @ (if otel_Sampler ot = ''traceidratio'' \<or> otel_Sampler ot = ''parentbased_traceidratio''
           then when_err (otel_SamplerArg ot < 0 \<or> otel_SamplerArg ot > 1)
             [Lit ''OTEL_TRACES_SAMPLER_ARG must be in [0,1] for ratio samplers (got '', Lit '')'']
           else [])))"

section \<open>Dotenv layers\<close>

text \<open>\<open>filepath.Clean\<close>: dots are dropped, an inner \<open>..\<close> removes the element before it, a leading
  one stays unless the path is rooted.\<close>

definition clean_step :: "bool \<Rightarrow> string list \<Rightarrow> string \<Rightarrow> string list" where
  "clean_step rooted out e =
     (if e = [] \<or> e = ''.'' then out
      else if e = ''..'' then
        (case out of
           [] \<Rightarrow> if rooted then [] else [e]
         | x # rest \<Rightarrow> if x = ''..'' then e # out else rest)
      else e # out)"

definition filepath_Clean :: "string \<Rightarrow> string" where
  "filepath_Clean p =
     (if p = [] then ''.''
      else
        let rooted = hd p = CHR ''/'';
            es = rev (foldl (clean_step rooted) [] (strings_Split p CHR ''/''));
            body = strings_Join es ''/''
        in if rooted then CHR ''/'' # body else if body = [] then ''.'' else body)"

definition candidateDotenvPaths :: "string \<Rightarrow> string list" where
  "candidateDotenvPaths serviceFile =
     [''.env''] @ (if serviceFile \<noteq> [] then [filepath_Clean serviceFile] else [])"

type_synonym environ = "string \<rightharpoonup> string"

text \<open>The file system and the dotenv package: which paths exist, and what loading a file makes of
  the environment (its error is ignored).\<close>

record dotenv =
  os_Stat :: "string \<Rightarrow> bool"
  godotenv_Load :: "string \<Rightarrow> environ \<Rightarrow> environ"

definition load_if_present :: "dotenv \<Rightarrow> string \<Rightarrow> environ \<Rightarrow> environ" where
  "load_if_present F p e = (if os_Stat F p then godotenv_Load F p e else e)"

definition loadDotenv_unguarded :: "dotenv \<Rightarrow> string \<Rightarrow> environ \<Rightarrow> environ" where
  "loadDotenv_unguarded F serviceFile e = fold (load_if_present F) (candidateDotenvPaths serviceFile) e"

definition Getenv :: "environ \<Rightarrow> string \<Rightarrow> string" where
  "Getenv e k = (case e k of None \<Rightarrow> [] | Some v \<Rightarrow> v)"

definition LoadDotenv :: "dotenv \<Rightarrow> string \<Rightarrow> environ \<Rightarrow> environ" where
  "LoadDotenv F serviceFile e =
     (if Getenv e ''APP_ENV'' = ''production'' then e
      else fold (load_if_present F) (candidateDotenvPaths serviceFile) e)"

record LoadOptions =
  SkipDotenv :: bool
  ServiceEnvFile :: string

definition Load :: "dotenv \<Rightarrow> (environ \<Rightarrow> Config result) \<Rightarrow> LoadOptions \<Rightarrow> environ \<Rightarrow> environ \<times> Config result" where
  "Load F env_Parse opts e =
     (let e1 = (if \<not> SkipDotenv opts \<and> Getenv e ''APP_ENV'' \<noteq> ''production''
                then loadDotenv_unguarded F (ServiceEnvFile opts) e else e)
      in (e1,
          case env_Parse e1 of
            Inl err \<Rightarrow> Inl (Errorf [Lit ''config: parse env: '', W err])
          | Inr c \<Rightarrow>
              (case Config_Validate c of
                 Some err \<Rightarrow> Inl (Errorf [Lit ''config: '', W err])
               | None \<Rightarrow> Inr c)))"

section \<open>What loading promises\<close>

definition config_ok :: "Config \<Rightarrow> bool" where
  "config_ok c \<longleftrightarrow> 1 \<le> outbox_Workers (cfg_Outbox c) \<and> db_MinConns (cfg_DB c) \<le> db_MaxConns (cfg_DB c)
     \<and> db_AcquireTimeout (cfg_DB c) \<in> {50 * Millisecond..30 * Second}
     \<and> db_WorkerAcquireTimeout (cfg_DB c) \<in> {0<..5 * Minute} \<and> 2 \<le> db_WorkerMaxConns (cfg_DB c)
     \<and> audit_BatchSize (cfg_Audit c) \<in> {100..10000}
     \<and> (otel_Sampler (cfg_OTel c) \<in> {''traceidratio'', ''parentbased_traceidratio''} \<longrightarrow> otel_SamplerArg (cfg_OTel c) \<in> {0..1})"

lemma when_err_Nil [simp]: "when_err c parts = [] \<longleftrightarrow> \<not> c"
  by (simp add: when_err_def)

lemma Config_Validate_ok: "Config_Validate c = None \<longleftrightarrow> config_ok c"
  unfolding Config_Validate_def config_ok_def errors_Join_def Let_def minAcquireTimeout_def maxAcquireTimeout_def maxWorkerAcquire_def
  by (auto simp: duration_units not_less)

lemma Load_ok: "Load F parse opts e = (e', Inr c) \<Longrightarrow> config_ok c \<and> parse e' = Inr c"
  by (auto simp: Load_def Let_def Config_Validate_ok [symmetric] split: sum.splits option.splits)

text \<open>Documented behaviour of \<open>godotenv.Load\<close>: it never overrides a variable that is set.\<close>

definition non_overriding :: "dotenv \<Rightarrow> bool" where
  "non_overriding F \<longleftrightarrow> (\<forall>p e k v. e k = Some v \<longrightarrow> godotenv_Load F p e k = Some v)"

lemma layers_keep: "non_overriding F \<Longrightarrow> e k = Some v \<Longrightarrow> fold (load_if_present F) ps e k = Some v"
  by (induction ps arbitrary: e) (auto simp: load_if_present_def non_overriding_def)

lemma shell_wins: "non_overriding F \<Longrightarrow> e k = Some v \<Longrightarrow> fst (Load F parse opts e) k = Some v"
  by (auto simp: Load_def Let_def loadDotenv_unguarded_def layers_keep)

lemma production_ignores_files: "e ''APP_ENV'' = Some ''production'' \<Longrightarrow> fst (Load F parse opts e) = e"
  by (simp add: Load_def Let_def Getenv_def)

end
