(* ===== verification/Observability.thy ===== *)
theory Observability
  imports Config
begin

text \<open>
  \<open>internal/observability\<close>: what \<open>Init\<close> installs for tracing (\<open>otel.go\<close>) and which runtime limits are
  set (\<open>runtime.go\<close>). The OpenTelemetry SDK, automemlimit and the float formatter are arguments. The
  registration of metrics (\<open>metrics.go\<close>) has no behaviour to model.
\<close>

section \<open>Tracing\<close>

record ObsConfig =
  ob_Endpoint :: string
  ob_Insecure :: bool
  ob_ServiceName :: string
  ob_Version :: string
  ob_Sampler :: string
  ob_SamplerArg :: rat
  ob_StdoutDebug :: bool

datatype sampler = AlwaysSample | NeverSample | TraceIDRatioBased rat | ParentBased sampler

text \<open>\<open>strings.ToLower\<close> on ASCII text.\<close>

definition lower_char :: "char \<Rightarrow> char" where
  "lower_char c = (if 65 \<le> (of_char c :: nat) \<and> (of_char c :: nat) \<le> 90 then char_of (of_char c + 32 :: nat) else c)"

definition strings_ToLower :: "string \<Rightarrow> string" where
  "strings_ToLower s = map lower_char s"

definition buildSampler :: "ObsConfig \<Rightarrow> sampler" where
  "buildSampler cfg =
     (let s = strings_ToLower (ob_Sampler cfg) in
      if s = ''always_off'' then NeverSample
      else if s = ''parentbased_traceidratio'' then ParentBased (TraceIDRatioBased (ob_SamplerArg cfg))
      else if s = ''traceidratio'' then TraceIDRatioBased (ob_SamplerArg cfg)
      else AlwaysSample)"

datatype otlp_option = WithEndpointURL string | WithInsecure

definition strings_HasPrefix :: "string \<Rightarrow> string \<Rightarrow> bool" where
  "strings_HasPrefix s p \<longleftrightarrow> take (length p) s = p"

definition otlp_options :: "ObsConfig \<Rightarrow> otlp_option list" where
  "otlp_options cfg =
     [WithEndpointURL (ob_Endpoint cfg)]
     @ (if ob_Insecure cfg \<or> strings_HasPrefix (ob_Endpoint cfg) ''http://'' then [WithInsecure] else [])"

datatype processor = BatchProcessor "otlp_option list" | SimpleStdoutProcessor

datatype provider_option = WithResource string string | WithSampler sampler | WithSpanProcessor processor

definition mapProcessors :: "processor list \<Rightarrow> provider_option list" where
  "mapProcessors ps = map WithSpanProcessor ps"

text \<open>\<open>resource.New\<close> may fail, partially or not; a partial resource is used.\<close>

datatype resource_answer = ResourceOk | ResourcePartial | ResourceFails go_error

definition buildResource :: "resource_answer \<Rightarrow> string \<Rightarrow> string \<Rightarrow> ObsConfig \<Rightarrow> (string \<times> string) result" where
  "buildResource answer serviceName version cfg =
     (let serviceName = (if ob_ServiceName cfg \<noteq> [] then ob_ServiceName cfg else serviceName);
          version = (if ob_Version cfg \<noteq> [] then ob_Version cfg else version)
      in case answer of
           ResourceFails err \<Rightarrow> Inl err
         | _ \<Rightarrow> Inr (serviceName, version))"

record otel_sdk =
  sdk_resource :: resource_answer
  sdk_otlp :: "otlp_option list \<Rightarrow> go_error option"
  sdk_stdout :: "go_error option"

text \<open>What \<open>Init\<close> leaves behind: whether the propagator is installed, the provider if one is, and
  whether the returned shutdown function does anything.\<close>

record otel_state =
  os_propagator :: bool
  os_provider :: "provider_option list option"
  os_shutdown :: bool

definition Init :: "otel_sdk \<Rightarrow> string \<Rightarrow> string \<Rightarrow> ObsConfig \<Rightarrow> otel_state \<times> go_error option" where
  "Init S serviceName version cfg =
     (let noop = \<lparr>os_propagator = True, os_provider = None, os_shutdown = False\<rparr> in
      if ob_Endpoint cfg = [] \<and> \<not> ob_StdoutDebug cfg then (noop, None)
      else case buildResource (sdk_resource S) serviceName version cfg of
        Inl err \<Rightarrow> (noop, Some (Errorf [Lit ''otel: build resource: '', W err]))
      | Inr (name, ver) \<Rightarrow>
     (case (if ob_Endpoint cfg \<noteq> [] then sdk_otlp S (otlp_options cfg) else None) of
        Some err \<Rightarrow> (noop, Some (Errorf [Lit ''otel: otlp exporter: '', W err]))
      | None \<Rightarrow>
     (case (if ob_StdoutDebug cfg then sdk_stdout S else None) of
        Some err \<Rightarrow> (noop, Some (Errorf [Lit ''otel: stdout exporter: '', W err]))
      | None \<Rightarrow>
          let processors = (if ob_Endpoint cfg \<noteq> [] then [BatchProcessor (otlp_options cfg)] else [])
                @ (if ob_StdoutDebug cfg then [SimpleStdoutProcessor] else [])
          in (\<lparr>os_propagator = True,
               os_provider = Some ([WithResource name ver, WithSampler (buildSampler cfg)] @ mapProcessors processors),
               os_shutdown = True\<rparr>, None))))"

section \<open>Runtime limits\<close>

definition humanBytes :: "(rat \<Rightarrow> string) \<Rightarrow> int \<Rightarrow> string" where
  "humanBytes FormatFloat2 n =
     (let kib = 2 ^ 10; mib = 2 ^ 20; gib = 2 ^ 30 in
      if n \<ge> gib then FormatFloat2 (of_int n / of_int gib) @ ''GiB''
      else if n \<ge> mib then FormatFloat2 (of_int n / of_int mib) @ ''MiB''
      else if n \<ge> kib then FormatFloat2 (of_int n / of_int kib) @ ''KiB''
      else FormatInt n @ ''B'')"

datatype memlimit_log = LimitApplied string | LimitNotDetected go_error | LimitUnlimited

text \<open>The answer of automemlimit, and the garbage collector percentage that is set: none when the
  environment has one.\<close>

definition ApplyRuntimeLimits :: "(rat \<Rightarrow> string) \<Rightarrow> go_error + int \<Rightarrow> environ \<Rightarrow> memlimit_log \<times> int option" where
  "ApplyRuntimeLimits FormatFloat2 limit e =
     ((case limit of
         Inr l \<Rightarrow> if l > 0 then LimitApplied (humanBytes FormatFloat2 l) else LimitUnlimited
       | Inl err \<Rightarrow> LimitNotDetected err),
      (if e ''GOGC'' \<noteq> None then None else Some 200))"

section \<open>Sampler and validation\<close>

text \<open>The options \<open>run\<close> passes on are the fields of the configuration.\<close>

definition obsConfig :: "Config \<Rightarrow> ObsConfig" where
  "obsConfig c =
     \<lparr>ob_Endpoint = otel_Endpoint (cfg_OTel c), ob_Insecure = otel_Insecure (cfg_OTel c),
      ob_ServiceName = otel_ServiceName (cfg_OTel c), ob_Version = otel_Version (cfg_OTel c),
      ob_Sampler = otel_Sampler (cfg_OTel c), ob_SamplerArg = otel_SamplerArg (cfg_OTel c),
      ob_StdoutDebug = otel_StdoutDebug (cfg_OTel c)\<rparr>"

fun sampler_ratio :: "sampler \<Rightarrow> rat option" where
  "sampler_ratio (TraceIDRatioBased r) = Some r"
| "sampler_ratio (ParentBased s) = sampler_ratio s"
| "sampler_ratio s = None"

text \<open>A validated configuration whose sampler is written in lower case gives a ratio in the unit
  interval; \<open>buildSampler\<close> ignores case and the validation does not, so other spellings pass with any
  ratio.\<close>

lemma sampler_ratio_bounds:
  "config_ok c \<Longrightarrow> strings_ToLower (otel_Sampler (cfg_OTel c)) = otel_Sampler (cfg_OTel c) \<Longrightarrow>
   sampler_ratio (buildSampler (obsConfig c)) = Some r \<Longrightarrow> 0 \<le> r \<and> r \<le> 1"
  by (auto simp: config_ok_def buildSampler_def obsConfig_def Let_def split: if_splits)

lemma sampler_case_gap:
  "otel_Sampler (cfg_OTel c) = ''TraceIDRatio'' \<Longrightarrow> otel_SamplerArg (cfg_OTel c) = 7 \<Longrightarrow>
   sampler_ratio (buildSampler (obsConfig c)) = Some 7"
proof -
  assume a: "otel_Sampler (cfg_OTel c) = ''TraceIDRatio''" "otel_SamplerArg (cfg_OTel c) = 7"
  have "strings_ToLower ''TraceIDRatio'' = ''traceidratio''" by code_simp
  with a show ?thesis by (simp add: buildSampler_def obsConfig_def)
qed

lemma Init_propagates: "os_propagator (fst (Init S n v cfg))"
  by (auto simp: Init_def Let_def split: sum.splits option.splits)

lemma Init_noop_iff:
  "snd (Init S n v cfg) = None \<Longrightarrow>
   (os_provider (fst (Init S n v cfg)) = None) = (ob_Endpoint cfg = [] \<and> \<not> ob_StdoutDebug cfg)"
  by (auto simp: Init_def Let_def split: sum.splits option.splits if_splits)

end
