(* ===== verification/Workers.thy ===== *)
theory Workers
  imports Outbox_Props Audit_Props
begin

text \<open>
  Starting, interleaving and joining the worker goroutines: \<open>Run\<close> and \<open>Wait\<close> of
  \<open>infrastructure/{outbox_worker,audit_worker}.go\<close>. A group holds the ids of the loops that still run,
  the counter of its \<open>sync.WaitGroup\<close> and the state they share; a schedule says which loop takes its
  next turn. The counter never goes below zero, a group whose context is cancelled is joined, and
  what one loop guarantees any number of interleaved loops guarantee.
\<close>

section \<open>Groups of loops\<close>

record 'w worker_group =
  wg_count :: int
  wg_live :: "nat list"
  wg_state :: 'w

definition wg_go :: "nat \<Rightarrow> 'w worker_group \<Rightarrow> 'w worker_group" where
  "wg_go i g = g\<lparr>wg_count := wg_count g + 1, wg_live := wg_live g @ [i]\<rparr>"

text \<open>\<open>turn\<close> is one turn of a loop, with whether the loop returned in it; the deferred \<open>wg.Done\<close> then
  counts down. A loop that has returned takes no more turns.\<close>

definition group_turn :: "('t \<Rightarrow> 'w \<Rightarrow> 'w \<times> bool) \<Rightarrow> nat \<times> 't \<Rightarrow> 'w worker_group \<Rightarrow> 'w worker_group" where
  "group_turn turn x g =
     (if fst x \<notin> set (wg_live g) then g
      else case turn (snd x) (wg_state g) of (w, returned) \<Rightarrow>
        if returned then g\<lparr>wg_count := wg_count g - 1, wg_live := remove1 (fst x) (wg_live g), wg_state := w\<rparr>
        else g\<lparr>wg_state := w\<rparr>)"

fun group_run :: "('t \<Rightarrow> 'w \<Rightarrow> 'w \<times> bool) \<Rightarrow> (nat \<times> 't) list \<Rightarrow> 'w worker_group \<Rightarrow> 'w worker_group" where
  "group_run turn [] g = g"
| "group_run turn (x # xs) g = group_run turn xs (group_turn turn x g)"

text \<open>Whether \<open>Wait\<close> returns now.\<close>

definition wg_Wait :: "'w worker_group \<Rightarrow> bool" where
  "wg_Wait g \<longleftrightarrow> wg_count g = 0"

section \<open>The workers of the server\<close>

definition OutboxWorker_Run :: "OutboxWorkerConfig \<Rightarrow> KafkaMessage list outbox_world \<Rightarrow> KafkaMessage list outbox_world worker_group" where
  "OutboxWorker_Run cfg w = fold wg_go [0..<nat (ow_MaxConcurrency cfg)] \<lparr>wg_count = 0, wg_live = [], wg_state = w\<rparr>"

definition OutboxWorker_Wait :: "KafkaMessage list outbox_world worker_group \<Rightarrow> bool" where
  "OutboxWorker_Wait = wg_Wait"

definition AuditWorker_Run :: "AuditWorker \<Rightarrow> audit_world \<Rightarrow> (AuditWorker \<times> audit_world) worker_group" where
  "AuditWorker_Run wk w = wg_go 0 \<lparr>wg_count = 0, wg_live = [], wg_state = (wk, w)\<rparr>"

definition AuditWorker_Wait :: "(AuditWorker \<times> audit_world) worker_group \<Rightarrow> bool" where
  "AuditWorker_Wait = wg_Wait"

definition outbox_loop :: "(UUID \<Rightarrow> string) \<Rightarrow> PoolConfig \<Rightarrow> OutboxWorkerConfig \<Rightarrow> duration \<Rightarrow> outbox_turn list
    \<Rightarrow> KafkaMessage list outbox_world \<Rightarrow> KafkaMessage list outbox_world \<times> bool" where
  "outbox_loop ustr pc cfg timeout ts w = (case runOne ustr pc cfg timeout ts w of (w', waits, stopped) \<Rightarrow> (w', stopped))"

definition audit_loop :: "jsonb_in \<Rightarrow> PoolConfig \<Rightarrow> audit_turn list \<Rightarrow> AuditWorker \<times> audit_world
    \<Rightarrow> (AuditWorker \<times> audit_world) \<times> bool" where
  "audit_loop jsonb pc ts s = (case runLoop jsonb pc ts (fst s) (snd s) of (s', waits, stopped) \<Rightarrow> (s', stopped))"

text \<open>\<open>ConfluentProducer.Close\<close>: flush for up to 15 seconds, then close; it never fails.\<close>

datatype producer_call = FlushCall duration | CloseCall

definition producer_Close :: "producer_call list \<times> go_error option" where
  "producer_Close = ([FlushCall (15000 * Millisecond), CloseCall], None)"

section \<open>What a group guarantees\<close>

definition group_ok :: "'w worker_group \<Rightarrow> bool" where
  "group_ok g \<longleftrightarrow> wg_count g = int (length (wg_live g)) \<and> distinct (wg_live g)"

lemma group_ok_go: "group_ok g \<Longrightarrow> i \<notin> set (wg_live g) \<Longrightarrow> group_ok (wg_go i g)"
  by (simp add: group_ok_def wg_go_def)

lemma group_start:
  "fold wg_go [0..<n] \<lparr>wg_count = 0, wg_live = [], wg_state = w\<rparr> = \<lparr>wg_count = int n, wg_live = [0..<n], wg_state = w\<rparr>"
  by (induction n) (simp_all add: wg_go_def)

lemma group_ok_start:
  "group_ok (OutboxWorker_Run cfg w)" "group_ok (AuditWorker_Run wk a)"
  "wg_live (OutboxWorker_Run cfg w) = [0..<nat (ow_MaxConcurrency cfg)]" "wg_live (AuditWorker_Run wk a) = [0]"
  "wg_state (OutboxWorker_Run cfg w) = w" "wg_state (AuditWorker_Run wk a) = (wk, a)"
  by (simp_all add: OutboxWorker_Run_def AuditWorker_Run_def group_start group_ok_def) (simp_all add: wg_go_def)

lemma group_ok_turn: "group_ok g \<Longrightarrow> group_ok (group_turn turn x g)"
proof (cases "fst x \<in> set (wg_live g)")
  case True
  then have "int (length (wg_live g)) - 1 = int (length (remove1 (fst x) (wg_live g)))"
    by (cases "wg_live g") (auto simp: length_remove1 dest: length_pos_if_in_set)
  then show "group_ok g \<Longrightarrow> ?thesis" using True by (simp add: group_ok_def group_turn_def split: prod.splits)
qed (simp add: group_turn_def)

lemma group_ok_run: "group_ok g \<Longrightarrow> group_ok (group_run turn xs g)"
  by (induction xs arbitrary: g) (simp_all add: group_ok_turn)

lemma group_live_subset: "set (wg_live (group_run turn xs g)) \<subseteq> set (wg_live g)"
proof (induction xs arbitrary: g)
  case (Cons x xs)
  have "set (wg_live (group_turn turn x g)) \<subseteq> set (wg_live g)"
    using set_remove1_subset [of "fst x" "wg_live g"] by (auto simp: group_turn_def split: prod.splits)
  with Cons show ?case by fastforce
qed simp

text \<open>A loop is given by its turn: \<open>loop\<close> over a list of turns is the turns one after the other until
  one returns, and \<open>quit\<close> turns, those that begin with the context done, return at once.\<close>

locale worker_loop =
  fixes loop :: "'t list \<Rightarrow> 'w \<Rightarrow> 'w \<times> bool" and quit :: "'t \<Rightarrow> bool"
  assumes loop_Nil: "loop [] w = (w, False)"
    and loop_Cons: "loop (t # ts) w = (case loop [t] w of (w1, returned) \<Rightarrow> if returned then (w1, True) else loop ts w1)"
    and quits: "quit t \<Longrightarrow> loop [t] w = (w, True)"
begin

abbreviation interleaved :: "(nat \<times> 't) list \<Rightarrow> 'w worker_group \<Rightarrow> 'w worker_group" where
  "interleaved \<equiv> group_run (\<lambda>t. loop [t])"

text \<open>Alone in its group a loop does what it does by itself.\<close>

lemma idle: "wg_live g = [] \<Longrightarrow> interleaved xs g = g"
  by (induction xs) (simp_all add: group_turn_def)

lemma alone:
  "loop ts w = (w', returned) \<Longrightarrow>
   interleaved (map (Pair i) ts) \<lparr>wg_count = 1, wg_live = [i], wg_state = w\<rparr>
     = \<lparr>wg_count = (if returned then 0 else 1), wg_live = (if returned then [] else [i]), wg_state = w'\<rparr>"
proof (induction ts arbitrary: w)
  case (Cons t ts)
  obtain w1 r where t: "loop [t] w = (w1, r)" by (rule prod.exhaust)
  show ?case
  proof (cases r)
    case True
    with t Cons.prems show ?thesis by (simp add: loop_Cons [of t ts] group_turn_def idle)
  next
    case False
    with t Cons show ?thesis by (simp add: loop_Cons [of t ts] group_turn_def)
  qed
qed (simp add: loop_Nil)

text \<open>Once every loop has begun a turn with its context done, \<open>Wait\<close> returns.\<close>

lemma quit_leaves: "group_ok g \<Longrightarrow> (i, t) \<in> set xs \<Longrightarrow> quit t \<Longrightarrow> i \<notin> set (wg_live (interleaved xs g))"
proof (induction xs arbitrary: g)
  case (Cons x xs)
  show ?case
  proof (cases "x = (i, t)")
    case True
    have "i \<notin> set (wg_live (group_turn (\<lambda>t. loop [t]) x g))"
      using Cons.prems by (auto simp: True group_turn_def quits group_ok_def)
    then show ?thesis using group_live_subset [of "\<lambda>t. loop [t]" xs "group_turn (\<lambda>t. loop [t]) x g"] by auto
  next
    case False
    with Cons.prems have "(i, t) \<in> set xs" by auto
    then show ?thesis using Cons.IH [OF group_ok_turn [OF Cons.prems(1)] _ Cons.prems(3)] by simp
  qed
qed simp

lemma cancelled_joins:
  assumes "group_ok g" "\<And>i. i \<in> set (wg_live g) \<Longrightarrow> \<exists>t. (i, t) \<in> set xs \<and> quit t"
  shows "wg_Wait (interleaved xs g)"
proof -
  have "i \<notin> set (wg_live (interleaved xs g))" for i
    using assms(2) [of i] quit_leaves [OF assms(1)] group_live_subset [of "\<lambda>t. loop [t]" xs g] by blast
  then have "wg_live (interleaved xs g) = []" by (cases "wg_live (interleaved xs g)") auto
  then show ?thesis using group_ok_run [OF assms(1), of "\<lambda>t. loop [t]" xs] by (simp add: wg_Wait_def group_ok_def)
qed

text \<open>What every turn keeps, every schedule keeps.\<close>

lemma keeps:
  assumes "\<And>t w w' r. ok t \<Longrightarrow> I w \<Longrightarrow> loop [t] w = (w', r) \<Longrightarrow> I w'" "list_all (\<lambda>x. ok (snd x)) xs" "I (wg_state g)"
  shows "I (wg_state (interleaved xs g))"
  using assms(2,3)
proof (induction xs arbitrary: g)
  case (Cons x xs)
  have "I (wg_state (group_turn (\<lambda>t. loop [t]) x g))"
    using Cons.prems assms(1) by (auto simp: group_turn_def split: prod.splits)
  with Cons show ?case by simp
qed simp

end

interpretation drainers: worker_loop "outbox_loop ustr pc cfg timeout" ot_ctx_err
  by unfold_locales (auto simp: outbox_loop_def Let_def split: prod.splits)

interpretation audit_writer: worker_loop "audit_loop jsonb pc" at_ctx_err
  by unfold_locales (auto simp: audit_loop_def Let_def split: prod.splits option.splits)

section \<open>The drainers and the audit writer\<close>

text \<open>The server stops its workers by cancelling their context: once every drainer has begun a turn
  with its context done, \<open>Wait\<close> returns; the same for the audit worker. With one drainer the group is
  the loop itself.\<close>

theorem workers_join:
  assumes "\<And>i. i < nat (ow_MaxConcurrency cfg) \<Longrightarrow> \<exists>t. (i, t) \<in> set sched \<and> ot_ctx_err t"
  shows "OutboxWorker_Wait (group_run (\<lambda>t. outbox_loop ustr pc cfg timeout [t]) sched (OutboxWorker_Run cfg w))"
  using drainers.cancelled_joins [OF group_ok_start(1)] assms by (simp add: OutboxWorker_Wait_def group_ok_start)

theorem audit_worker_joins:
  assumes "(0, u) \<in> set sched" "at_ctx_err u"
  shows "AuditWorker_Wait (group_run (\<lambda>u. audit_loop jsonb pc [u]) sched (AuditWorker_Run wk a))"
  unfolding AuditWorker_Wait_def
  by (rule audit_writer.cancelled_joins [OF group_ok_start(2)]) (use assms in \<open>auto simp: group_ok_start\<close>)

lemma single_drainer:
  assumes "nat (ow_MaxConcurrency cfg) = 1" "outbox_loop ustr pc cfg timeout ts w = (w', stopped)"
  shows "wg_state (group_run (\<lambda>t. outbox_loop ustr pc cfg timeout [t]) (map (Pair 0) ts) (OutboxWorker_Run cfg w)) = w'"
  using drainers.alone [OF assms(2), of 0] by (simp add: OutboxWorker_Run_def assms(1) wg_go_def)

text \<open>However the drainers interleave, they return the connections they take.\<close>

lemma drainers_pool:
  "pl_acquired (ow_pool (wg_state (group_run (\<lambda>t. outbox_loop ustr pc cfg timeout [t]) sched (OutboxWorker_Run cfg w))))
     = pl_acquired (ow_pool w)"
proof (rule drainers.keeps [where I = "\<lambda>v. pl_acquired (ow_pool v) = pl_acquired (ow_pool w)" and ok = "\<lambda>_. True"])
  fix t v v' r
  assume *: "pl_acquired (ow_pool v) = pl_acquired (ow_pool w)" and "outbox_loop ustr pc cfg timeout [t] v = (v', r)"
  then obtain waits where "runOne ustr pc cfg timeout [t] v = (v', waits, r)" by (auto simp: outbox_loop_def split: prod.splits)
  then show "pl_acquired (ow_pool v') = pl_acquired (ow_pool w)"
    by (cases rule: outbox_turn_cases) (auto simp: * outbox_tick_def Drain_def dest: drain_pool)
qed (simp_all add: list_all_iff group_ok_start)

text \<open>C10: an event is marked PUBLISHED only when a message with its key, payload and id header is
  in the topic. The drainers keep this, however many of them run and however their turns
  interleave, whatever fails in the pool, the database or the producer and whether or not commits
  are acknowledged, provided that success reports are truthful. So every event reaches the topic
  before the outbox forgets it.\<close>

theorem published_was_delivered:
  assumes "relay_inv (in_topic ustr) (ow_kafka w) (ow_db w)" "list_all (\<lambda>x. honest_turn ustr (snd x)) sched"
    and "g = group_run (\<lambda>t. outbox_loop ustr pc cfg timeout [t]) sched (OutboxWorker_Run cfg w)"
    and "e \<in> set (outbox_events (ow_db (wg_state g)))" "ob_Status e = OutboxStatusPublished"
  shows "\<exists>m \<in> set (ow_kafka (wg_state g)). carries ustr e m"
proof -
  have "relay_inv (in_topic ustr) (ow_kafka (wg_state g)) (ow_db (wg_state g))"
    unfolding assms(3)
  proof (rule drainers.keeps [where I = "\<lambda>v. relay_inv (in_topic ustr) (ow_kafka v) (ow_db v)", OF _ assms(2)])
    fix t v v' r
    assume h: "honest_turn ustr t" "relay_inv (in_topic ustr) (ow_kafka v) (ow_db v)" and "outbox_loop ustr pc cfg timeout [t] v = (v', r)"
    then obtain waits where "runOne ustr pc cfg timeout [t] v = (v', waits, r)" by (auto simp: outbox_loop_def split: prod.splits)
    then show "relay_inv (in_topic ustr) (ow_kafka v') (ow_db v')"
      by (cases rule: outbox_turn_cases) (use h tick_relay_inv in auto)
  qed (simp add: group_ok_start assms(1))
  with assms(4,5) show ?thesis by (auto simp: relay_inv_def in_topic_def list_ex_iff)
qed

theorem published_was_delivered_witness:
  "\<exists>g. g = group_run (\<lambda>t. outbox_loop sample_ustr plain_pool sample_worker 5 [t]) [(0, sample_turn), (3, sample_turn), (0, sample_turn)]
         (OutboxWorker_Run sample_worker sample_outbox)
     \<and> list_all (in_topic sample_ustr (ow_kafka (wg_state g)))
          (filter (\<lambda>e. ob_Status e = OutboxStatusPublished) (outbox_events (ow_db (wg_state g))))"
proof -
  let ?sched = "[(0, sample_turn), (3, sample_turn), (0, sample_turn)]"
  let ?g = "group_run (\<lambda>t. outbox_loop sample_ustr plain_pool sample_worker 5 [t]) ?sched (OutboxWorker_Run sample_worker sample_outbox)"
  have h: "list_all (\<lambda>x. honest_turn sample_ustr (snd x)) ?sched" by (simp add: sample_honest)
  have "in_topic sample_ustr (ow_kafka (wg_state ?g)) e"
    if "e \<in> set (outbox_events (ow_db (wg_state ?g)))" "ob_Status e = OutboxStatusPublished" for e
    using published_was_delivered [OF sample_relay_inv h refl that] by (simp add: in_topic_def list_ex_iff)
  then show ?thesis by (auto simp: list_all_iff)
qed

end
