(* ===== verification/Metrics.thy ===== *)
theory Metrics
  imports Pool_Tx Breaker Interceptors
begin

text \<open>
  \<open>internal/observability/metrics.go\<close> and the code that feeds it: the handles \<open>NewMetrics\<close> declares
  and registers, the sample each recorder of the service writes, and the goroutines that copy pool
  statistics. The Prometheus client is the record \<open>prom\<close> (a parameter) with its documented behaviour
  in the locale \<open>prom_lib\<close>: \<open>MustRegister\<close> panics when a name is invalid or taken, and a vector panics
  when a sample has not as many values as the vector has labels. Neither happens.
\<close>

section \<open>Handles and the registry\<close>

datatype metric_kind = Counter | Gauge | Histogram "rat list"

record metric_desc =
  md_Name :: string
  md_Help :: string
  md_kind :: metric_kind
  md_labels :: "string list"

text \<open>A collector is the list of its descriptors; a registry holds the descriptors registered so far.
  \<open>pr_Register\<close> is the error of registering one collector, \<open>None\<close> when it is accepted.\<close>

type_synonym registry = "metric_desc list"

record prom =
  pr_Register :: "registry \<Rightarrow> metric_desc list \<Rightarrow> go_error option"
  pr_ProcessCollector :: "metric_desc list"
  pr_GoCollector :: "metric_desc list"
  pr_ExponentialBuckets :: "rat \<Rightarrow> rat \<Rightarrow> nat \<Rightarrow> rat list"

text \<open>\<^const>\<open>None\<close> is the panic on the first collector that is refused.\<close>

fun MustRegister :: "prom \<Rightarrow> registry \<Rightarrow> metric_desc list list \<Rightarrow> registry option" where
  "MustRegister P reg [] = Some reg"
| "MustRegister P reg (c # cs) =
     (case pr_Register P reg c of Some err \<Rightarrow> None | None \<Rightarrow> MustRegister P (reg @ c) cs)"

record Metrics =
  m_Registry :: registry
  PoolAcquireWait :: metric_desc
  PoolAcquired :: metric_desc
  PoolIdle :: metric_desc
  RateLimitRejected :: metric_desc
  AdmissionRejected :: metric_desc
  AdmissionInFlight :: metric_desc
  DBTxOutcomes :: metric_desc
  DBCircuitState :: metric_desc
  AuditPendingLagSeconds :: metric_desc
  AuditDrainedTotal :: metric_desc

definition NewMetrics_handles :: "prom \<Rightarrow> registry \<Rightarrow> Metrics" where
  "NewMetrics_handles P reg =
     \<lparr>m_Registry = reg,
      PoolAcquireWait =
        \<lparr>md_Name = ''pgxpool_acquire_wait_seconds'', md_Help = ''Time spent waiting on pgxpool.Acquire (seconds).'',
         md_kind = Histogram (pr_ExponentialBuckets P (1 / 10000) 2 12), md_labels = [''outcome'']\<rparr>,
      PoolAcquired =
        \<lparr>md_Name = ''pgxpool_acquired_conns'', md_Help = ''Current number of acquired (in-use) Postgres connections.'',
         md_kind = Gauge, md_labels = []\<rparr>,
      PoolIdle =
        \<lparr>md_Name = ''pgxpool_idle_conns'', md_Help = ''Current number of idle Postgres connections in the pool.'',
         md_kind = Gauge, md_labels = []\<rparr>,
      RateLimitRejected =
        \<lparr>md_Name = ''grpc_ratelimit_rejected_total'', md_Help = ''Per-tenant rate-limit rejections.'',
         md_kind = Counter, md_labels = [''tenant'', ''method'', ''tier'']\<rparr>,
      AdmissionRejected =
        \<lparr>md_Name = ''grpc_admission_rejected_total'', md_Help = ''RPCs rejected by the global in-flight admission cap.'',
         md_kind = Counter, md_labels = [''method'']\<rparr>,
      AdmissionInFlight =
        \<lparr>md_Name = ''grpc_admission_inflight'', md_Help = ''Current number of admitted (in-flight) RPCs.'',
         md_kind = Gauge, md_labels = []\<rparr>,
      DBTxOutcomes =
        \<lparr>md_Name = ''db_tx_outcomes_total'',
         md_Help = ''Outcomes of repository tx operations: ok or cap_reached (retry budget exhausted).'',
         md_kind = Counter, md_labels = [''tenant'', ''method'', ''outcome'']\<rparr>,
      DBCircuitState =
        \<lparr>md_Name = ''db_tx_circuit_state'',
         md_Help = ''Per-(tenant, method) breaker state: 0=closed, 1=half-open, 2=open.'',
         md_kind = Gauge, md_labels = [''tenant'', ''method'']\<rparr>,
      AuditPendingLagSeconds =
        \<lparr>md_Name = ''audit_pending_lag_seconds'', md_Help = ''Age (seconds) of the oldest row in audit_pending; 0 when drained.'',
         md_kind = Gauge, md_labels = []\<rparr>,
      AuditDrainedTotal =
        \<lparr>md_Name = ''audit_drained_total'', md_Help = ''Rows forwarded from audit_pending into audit_log.'',
         md_kind = Counter, md_labels = []\<rparr>\<rparr>"

definition handles :: "Metrics \<Rightarrow> metric_desc list" where
  "handles m = [PoolAcquireWait m, PoolAcquired m, PoolIdle m, RateLimitRejected m, AdmissionRejected m,
     AdmissionInFlight m, DBTxOutcomes m, DBCircuitState m, AuditPendingLagSeconds m, AuditDrainedTotal m]"

definition NewMetrics :: "prom \<Rightarrow> Metrics option" where
  "NewMetrics P =
     (case MustRegister P [] [pr_ProcessCollector P, pr_GoCollector P] of
        None \<Rightarrow> None
      | Some reg \<Rightarrow>
          let m = NewMetrics_handles P reg
          in map_option (\<lambda>reg. m\<lparr>m_Registry := reg\<rparr>) (MustRegister P reg (map (\<lambda>d. [d]) (handles m))))"

text \<open>The names a scrape of \<open>/metrics\<close> can show, with OpenMetrics enabled.\<close>

definition Metrics_Handler :: "Metrics \<Rightarrow> string list \<times> bool" where
  "Metrics_Handler m = (map md_Name (m_Registry m), True)"

section \<open>What the client library promises\<close>

definition name_char :: "char \<Rightarrow> bool" where
  "name_char c \<longleftrightarrow> c \<in> {CHR ''a''..CHR ''z''} \<or> c \<in> {CHR ''A''..CHR ''Z''} \<or> c \<in> set ''_:''"

definition metric_name_ok :: "string \<Rightarrow> bool" where
  "metric_name_ok s \<longleftrightarrow> s \<noteq> [] \<and> name_char (hd s) \<and> list_all (\<lambda>c. name_char c \<or> c \<in> {CHR ''0''..CHR ''9''}) s"

definition desc_ok :: "metric_desc \<Rightarrow> bool" where
  "desc_ok d \<longleftrightarrow> metric_name_ok (md_Name d) \<and> list_all metric_name_ok (md_labels d) \<and> distinct (md_labels d)"

definition new_names :: "registry \<Rightarrow> metric_desc list \<Rightarrow> bool" where
  "new_names reg c \<longleftrightarrow> distinct (map md_Name c) \<and> list_all (\<lambda>d. md_Name d \<notin> set (map md_Name reg)) c"

definition runtime_name :: "string \<Rightarrow> bool" where
  "runtime_name s \<longleftrightarrow> take 3 s = ''go_'' \<or> take 8 s = ''process_''"

text \<open>A collector of valid descriptors with new names is accepted; the process and Go collectors
  describe metrics under the prefixes \<open>process_\<close> and \<open>go_\<close>.\<close>

locale prom_lib =
  fixes P :: prom
  assumes accepts: "list_all desc_ok c \<Longrightarrow> new_names reg c \<Longrightarrow> pr_Register P reg c = None"
    and builtin: "list_all desc_ok (pr_ProcessCollector P @ pr_GoCollector P)"
      "distinct (map md_Name (pr_ProcessCollector P @ pr_GoCollector P))"
      "list_all (\<lambda>d. runtime_name (md_Name d)) (pr_ProcessCollector P @ pr_GoCollector P)"
begin

lemma registers:
  "list_all desc_ok (concat cs) \<Longrightarrow> new_names reg (concat cs) \<Longrightarrow> MustRegister P reg cs = Some (reg @ concat cs)"
proof (induction cs arbitrary: reg)
  case (Cons c cs)
  then have "pr_Register P reg c = None" by (intro accepts) (auto simp: new_names_def)
  moreover have "new_names (reg @ c) (concat cs)" using Cons.prems(2) by (auto simp: new_names_def list_all_iff)
  ultimately show ?case using Cons by simp
qed simp

end

lemma handles_of: "handles (m\<lparr>m_Registry := r\<rparr>) = handles m"
  by (simp add: handles_def)

lemma handle_names:
  "map md_Name (handles (NewMetrics_handles P reg)) =
     [''pgxpool_acquire_wait_seconds'', ''pgxpool_acquired_conns'', ''pgxpool_idle_conns'', ''grpc_ratelimit_rejected_total'',
      ''grpc_admission_rejected_total'', ''grpc_admission_inflight'', ''db_tx_outcomes_total'', ''db_tx_circuit_state'',
      ''audit_pending_lag_seconds'', ''audit_drained_total'']"
  by (simp add: handles_def NewMetrics_handles_def)

lemma handles_ok: "list_all desc_ok (handles (NewMetrics_handles P reg))"
  by (simp add: handles_def NewMetrics_handles_def desc_ok_def metric_name_ok_def name_char_def less_eq_char_def)

text \<open>Booting never panics on a metric: the service's names are valid, distinct, and not those of
  the runtime collectors; all of them are exposed.\<close>

theorem NewMetrics_boots:
  assumes "prom_lib P"
  shows "\<exists>m. NewMetrics P = Some m
    \<and> m_Registry m = pr_ProcessCollector P @ pr_GoCollector P @ handles m \<and> distinct (fst (Metrics_Handler m))"
proof -
  let ?b = "pr_ProcessCollector P @ pr_GoCollector P"
  let ?m = "NewMetrics_handles P ?b"
  have b: "MustRegister P [] [pr_ProcessCollector P, pr_GoCollector P] = Some ?b"
    using prom_lib.registers [OF assms, of "[pr_ProcessCollector P, pr_GoCollector P]" "[]"]
      prom_lib.builtin(1,2) [OF assms] by (simp add: new_names_def list_all_iff del: MustRegister.simps)
  have "list_all (\<lambda>n. \<not> runtime_name n) (map md_Name (handles ?m))"
    unfolding handle_names by (simp add: runtime_name_def)
  then have fresh: "list_all (\<lambda>d. md_Name d \<notin> set (map md_Name ?b)) (handles ?m)"
    using prom_lib.builtin(3) [OF assms] by (auto simp: list_all_iff)
  moreover have "distinct (map md_Name (handles ?m))" unfolding handle_names by simp
  ultimately have n: "new_names ?b (handles ?m)" by (simp add: new_names_def)
  have one: "concat (map (\<lambda>d. [d]) ds) = ds" for ds :: registry by (induction ds) simp_all
  have r: "MustRegister P ?b (map (\<lambda>d. [d]) (handles ?m)) = Some (?b @ handles ?m)"
    using prom_lib.registers [OF assms, of "map (\<lambda>d. [d]) (handles ?m)" ?b] handles_ok n by (simp add: one)
  have "distinct (map md_Name (?b @ handles ?m))"
    using n prom_lib.builtin(2) [OF assms] by (auto simp: new_names_def list_all_iff) (metis image_eqI)+
  then show ?thesis unfolding NewMetrics_def b by (simp add: r Let_def handles_of Metrics_Handler_def)
qed

text \<open>A registry that checks exactly these rules.\<close>

definition strict_prom :: prom where
  "strict_prom =
     \<lparr>pr_Register = (\<lambda>reg c. if list_all desc_ok c \<and> new_names reg c then None else Some (Foreign ''duplicate metrics collector registration attempted'')),
      pr_ProcessCollector = [\<lparr>md_Name = ''process_open_fds'', md_Help = ''Number of open file descriptors.'', md_kind = Gauge, md_labels = []\<rparr>],
      pr_GoCollector = [\<lparr>md_Name = ''go_goroutines'', md_Help = ''Number of goroutines that currently exist.'', md_kind = Gauge, md_labels = []\<rparr>],
      pr_ExponentialBuckets = (\<lambda>start factor n. map (\<lambda>i. start * factor ^ i) [0..<n])\<rparr>"

interpretation strict_prom: prom_lib strict_prom
  by unfold_locales (simp_all add: strict_prom_def desc_ok_def metric_name_ok_def name_char_def less_eq_char_def runtime_name_def)

section \<open>Recording\<close>

text \<open>\<open>WithLabelValues\<close> panics (\<^const>\<open>None\<close>) when the values do not match the labels in number;
  otherwise it gives the series the sample goes to.\<close>

definition WithLabelValues :: "metric_desc \<Rightarrow> string list \<Rightarrow> (string \<times> (string \<times> string) list) option" where
  "WithLabelValues d vs = (if length vs = length (md_labels d) then Some (md_Name d, zip (md_labels d) vs) else None)"

text \<open>The series of a breaker's sample, and of one acquire observation; a missing handle records
  nothing.\<close>

definition breaker_series :: "Metrics \<Rightarrow> breaker_metric \<Rightarrow> (string \<times> (string \<times> string) list) option" where
  "breaker_series m x =
     (case x of StateGauge tenant method s \<Rightarrow> WithLabelValues (DBCircuitState m) [tenant, method]
      | OutcomeCounter tenant method outcome \<Rightarrow> WithLabelValues (DBTxOutcomes m) [tenant, method, outcome])"

definition acquire_series :: "Metrics \<Rightarrow> duration \<times> string \<Rightarrow> (string \<times> (string \<times> string) list) option" where
  "acquire_series m x = WithLabelValues (PoolAcquireWait m) [snd x]"

text \<open>The service's recorders never panic, and the outcome label of an acquire comes from a closed set
  of three.\<close>

lemma NewMetrics_handles_eq: "NewMetrics P = Some m \<Longrightarrow> \<exists>reg. handles m = handles (NewMetrics_handles P reg)"
  by (auto simp: NewMetrics_def Let_def handles_of split: option.splits)

theorem recorders_fit:
  assumes "NewMetrics P = Some m"
  shows "breaker_series m x \<noteq> None" "acquire_series m obs \<noteq> None"
    "WithLabelValues (AdmissionRejected m) [method] \<noteq> None"
    "WithLabelValues (RateLimitRejected m) [tenant, method, tier] \<noteq> None"
  using NewMetrics_handles_eq [OF assms]
  by (auto simp: handles_def NewMetrics_handles_def breaker_series_def acquire_series_def WithLabelValues_def split: breaker_metric.splits)

theorem acquire_outcomes_closed:
  assumes "AcquireConn cfg env p = (p', e)"
  shows "\<exists>d out. pl_obs p' = pl_obs p @ [(d, out)] \<and> out \<in> {''ok'', ''timeout'', ''err''} \<and> (out = ''ok'' \<longleftrightarrow> e = None)"
  using assms by (cases "at_acquire env") (auto simp: AcquireConn_def ObserveAcquire_def Let_def split: if_splits, metis+)

section \<open>Pool statistics\<close>

text \<open>What the select of the exporter's loop takes next: the done channel, or a tick with what
  \<open>pool.Stat()\<close> says then.\<close>

record pool_stat =
  AcquiredConns :: int
  IdleConns :: int
  TotalConns :: int

datatype 'a loop_event = LoopDone | LoopTick 'a

text \<open>The two gauges, \<^const>\<open>None\<close> before the first value; the second result says whether the goroutine
  has returned.\<close>

type_synonym pool_gauges = "rat option \<times> rat option"

fun ExportPoolStats :: "pool_stat loop_event list \<Rightarrow> pool_gauges \<Rightarrow> pool_gauges \<times> bool" where
  "ExportPoolStats [] g = (g, False)"
| "ExportPoolStats (LoopDone # evs) g = (g, True)"
| "ExportPoolStats (LoopTick st # evs) g =
     ExportPoolStats evs (Some (of_int (AcquiredConns st)), Some (of_int (IdleConns st)))"

text \<open>The debug heartbeat of the server reads both pools and logs six numbers per tick.\<close>

fun pool_stats_heartbeat :: "(pool_stat \<times> pool_stat) loop_event list \<Rightarrow> (string \<times> int) list list \<Rightarrow> (string \<times> int) list list \<times> bool" where
  "pool_stats_heartbeat [] lg = (lg, False)"
| "pool_stats_heartbeat (LoopDone # evs) lg = (lg, True)"
| "pool_stats_heartbeat (LoopTick st # evs) lg =
     (case st of (rs, ws) \<Rightarrow>
        pool_stats_heartbeat evs (lg @
          [[(''req_acquired'', AcquiredConns rs), (''req_idle'', IdleConns rs), (''req_total'', TotalConns rs),
            (''wkr_acquired'', AcquiredConns ws), (''wkr_idle'', IdleConns ws), (''wkr_total'', TotalConns ws)]]))"

text \<open>The gauges show the last tick before the stop, and ticks after it are not read.\<close>

lemma ExportPoolStats_last:
  "ExportPoolStats (map LoopTick (sts @ [st]) @ evs) g
     = ExportPoolStats evs (Some (of_int (AcquiredConns st)), Some (of_int (IdleConns st)))"
  by (induction sts arbitrary: g) simp_all

lemma ExportPoolStats_stops:
  "snd (ExportPoolStats evs g) \<longleftrightarrow> LoopDone \<in> set evs"
  by (induction evs g rule: ExportPoolStats.induct) simp_all

end
