(* ===== verification/Boot.thy ===== *)
theory Boot
  imports Observability Server Workers Metrics Go_Flag
begin

text \<open>
  \<open>cmd/server/main.go\<close> and \<open>cmd/reconciler/main.go\<close>: how a configuration becomes the sizes and
  options of the components, the order in which \<open>run\<close> opens resources and starts workers, and the
  order in which they are closed on every path out of it. What the packages answer during boot is
  the record \<open>boot_env\<close>; a run is the list of events it causes.
\<close>

section \<open>From the configuration to the components\<close>

definition requestPoolCfg :: "Config \<Rightarrow> PoolConfig" where
  "requestPoolCfg c =
     \<lparr>DSN = db_URL (cfg_DB c), MaxConns = db_MaxConns (cfg_DB c), MinConns = db_MinConns (cfg_DB c),
      MaxConnLifetime = db_ConnMaxLifetime (cfg_DB c), MaxConnIdleTime = db_ConnMaxIdleTime (cfg_DB c),
      AcquireTimeout = db_AcquireTimeout (cfg_DB c)\<rparr>"

definition workerPoolCfg :: "Config \<Rightarrow> PoolConfig" where
  "workerPoolCfg c =
     \<lparr>DSN = db_URL (cfg_DB c), MaxConns = db_WorkerMaxConns (cfg_DB c), MinConns = 2,
      MaxConnLifetime = db_ConnMaxLifetime (cfg_DB c), MaxConnIdleTime = db_ConnMaxIdleTime (cfg_DB c),
      AcquireTimeout = db_WorkerAcquireTimeout (cfg_DB c)\<rparr>"

definition producerCfg :: "Config \<Rightarrow> ConfluentProducerConfig" where
  "producerCfg c =
     \<lparr>Brokers = BootstrapServers (cfg_Kafka c), ClientID = kafka_ClientID (cfg_Kafka c), LingerMs = 0,
      CompressionType = [], ProduceTimeout = 0, AdditionalConfig = []\<rparr>"

definition outboxWorkerCfg :: "Config \<Rightarrow> OutboxWorkerConfig" where
  "outboxWorkerCfg c =
     \<lparr>ow_Topic = outbox_Topic (cfg_Outbox c), ow_BatchSize = 0, ow_PollInterval = 0, ow_IdleInterval = 0,
      ow_BackoffOnError = 0, ow_MaxConcurrency = outbox_Workers (cfg_Outbox c)\<rparr>"

definition auditWorkerCfg :: "Config \<Rightarrow> AuditWorkerConfig" where
  "auditWorkerCfg c =
     \<lparr>aw_BatchSize = audit_BatchSize (cfg_Audit c), aw_PollInterval = 0, aw_IdleInterval = 0, aw_BackoffOnError = 0\<rparr>"

definition admissionCap :: "Config \<Rightarrow> int" where
  "admissionCap c =
     (let mx = adm_MaxInFlight (cfg_Admission c)
      in if mx \<le> 0 then MaxConns (requestPoolCfg c) * 2 else mx)"

definition serverCfg :: "Config \<Rightarrow> ServerConfig" where
  "serverCfg c =
     \<lparr>sc_Addr = grpc_Addr (cfg_GRPC c), sc_MaxRecvMsgSize = 0, sc_KeepaliveTime = 0,
      sc_EdgeIdentity = \<lparr>ei_PublicMethods = Some DefaultPublicMethods\<rparr>,
      sc_RateLimit = (if rlim_Enabled (cfg_RateLimit c)
        then Some (DefaultRateLimitConfig\<lparr>rl_TierByTenant := ParseTierMap (rlim_TenantTierMap (cfg_RateLimit c))\<rparr>)
        else None),
      sc_Admission = (if adm_Enabled (cfg_Admission c) then Some \<lparr>ac_MaxInFlight = admissionCap c\<rparr> else None)\<rparr>"

text \<open>The graph \<open>run\<close> wires: which pool a repository draws from, and whether its acquires are observed
  (a missing adapter is replaced by one that records nothing).\<close>

datatype pool_ref = RequestPool | WorkerPool

record drain_repo =
  dr_pool :: pool_ref
  dr_acquireCfg :: PoolConfig
  dr_observes :: bool

definition NewOutboxRepo :: "pool_ref \<Rightarrow> PoolConfig \<Rightarrow> metric_desc option \<Rightarrow> drain_repo" where
  "NewOutboxRepo pool acquireCfg metrics = \<lparr>dr_pool = pool, dr_acquireCfg = acquireCfg, dr_observes = (metrics \<noteq> None)\<rparr>"

definition NewAuditDrainRepo :: "pool_ref \<Rightarrow> PoolConfig \<Rightarrow> metric_desc option \<Rightarrow> drain_repo" where
  "NewAuditDrainRepo pool acquireCfg metrics = \<lparr>dr_pool = pool, dr_acquireCfg = acquireCfg, dr_observes = (metrics \<noteq> None)\<rparr>"

record wiring =
  wi_ledger :: "pool_ref \<times> LedgerRepo"
  wi_breaker :: Breaker
  wi_outbox :: drain_repo
  wi_audit :: drain_repo

definition wire_repositories :: "Config \<Rightarrow> Metrics \<Rightarrow> wiring" where
  "wire_repositories c m =
     \<lparr>wi_ledger = (RequestPool, NewLedgerRepo (requestPoolCfg c)), wi_breaker = NewBreaker (DefaultBreakerConfig\<lparr>MetricsOutcomes := True, MetricsState := True\<rparr>),
      wi_outbox = NewOutboxRepo WorkerPool (workerPoolCfg c) (Some (PoolAcquireWait m)),
      wi_audit = NewAuditDrainRepo WorkerPool (workerPoolCfg c) (Some (PoolAcquireWait m))\<rparr>"

section \<open>Profiling and the metrics listener\<close>

text \<open>The calls into the runtime: the block rate and the mutex fraction that are set.\<close>

definition applyRuntimeProfilingRates :: "ProfilingConfig \<Rightarrow> int option \<times> int option" where
  "applyRuntimeProfilingRates p =
     ((if prof_BlockProfileRate p > 0 then Some (prof_BlockProfileRate p) else None),
      (if prof_MutexProfileFraction p > 0 then Some (prof_MutexProfileFraction p) else None))"

text \<open>The listener runs in a goroutine of its own, so its bind error is only logged: the function
  itself never fails. The result is the address and the routes, or nothing when it is disabled.\<close>

definition startMetricsServer :: "string \<Rightarrow> bool \<Rightarrow> (string \<times> string list) result" where
  "startMetricsServer addr pprofEnabled =
     (if addr = [] then Inr ([], [])
      else Inr (addr, [''/metrics'', ''/healthz'']
        @ (if pprofEnabled then [''/debug/pprof/'', ''/debug/pprof/cmdline'', ''/debug/pprof/profile'',
             ''/debug/pprof/symbol'', ''/debug/pprof/trace''] else [])))"

section \<open>The run of the server\<close>

datatype resource = ROtel | RMetrics | RRequestPool | RPoolStats | RWorkerPool | RRedis | RProducer

datatype boot_event =
    Opened resource | Closed resource
  | OutboxWorkerStarted OutboxWorkerConfig | AuditWorkerStarted AuditWorker
  | ServerBound Server | HealthNotServing | ServerStopped Server
  | SignalContextDone | WorkersCancelled | OutboxWorkerAwaited | AuditWorkerAwaited

text \<open>Why \<open>run\<close> stops blocking: a signal, or the end of \<open>Serve\<close>.\<close>

datatype serve_end = SignalReceived | ServeReturned

record boot_env =
  be_otel :: otel_sdk
  be_parse :: "string \<Rightarrow> PoolConfig result"
  be_connect :: "PoolConfig \<Rightarrow> go_error option"
  be_ping :: "PoolConfig \<Rightarrow> go_error option"
  be_redis_parse :: "string \<Rightarrow> go_error option"
  be_redis_ping :: "go_error option"
  be_kafka :: "(string \<times> string) list \<Rightarrow> go_error option"
  be_listen :: "string \<Rightarrow> string result"
  be_serve :: serve_end
  be_grpc :: "string \<Rightarrow> go_error option"
  be_drained :: bool

text \<open>What has happened so far, and the deferred calls, the latest first. Leaving \<open>run\<close> performs
  them.\<close>

type_synonym boot = "boot_event list \<times> boot_event list"

definition open_resource :: "resource \<Rightarrow> boot \<Rightarrow> boot" where
  "open_resource r b = (fst b @ [Opened r], Closed r # snd b)"

definition emit :: "boot_event list \<Rightarrow> boot \<Rightarrow> boot" where
  "emit es b = (fst b @ es, snd b)"

definition defer_call :: "boot_event \<Rightarrow> boot \<Rightarrow> boot" where
  "defer_call e b = (fst b, e # snd b)"

definition leave :: "boot \<Rightarrow> go_error option \<Rightarrow> boot_event list \<times> go_error option" where
  "leave b err = (fst b @ snd b, err)"

definition fail_boot :: "boot \<Rightarrow> string \<Rightarrow> go_error \<Rightarrow> boot_event list \<times> go_error option" where
  "fail_boot b msg err = leave b (Some (Errorf [Lit msg, W err]))"

definition boot_pool :: "boot_env \<Rightarrow> PoolConfig \<Rightarrow> PoolConfig result" where
  "boot_pool E cfg = fst (NewPool (be_parse E) (be_connect E) (be_ping E cfg) cfg)"

text \<open>Set by the build; the default of an uninstrumented one.\<close>

definition Version :: string where "Version = ''dev''"

text \<open>The part after the server is bound: wait, then the two-phase shutdown. The workers' context is a
  child of the one the signal cancels, so a signal is \<open>SignalContextDone\<close> for them as well.\<close>

definition shutdown_events :: "boot_env \<Rightarrow> Server \<Rightarrow> boot_event list" where
  "shutdown_events E srv =
     [HealthNotServing, ServerStopped (GracefulStop (be_drained E) (SetNotServing srv)),
      WorkersCancelled, OutboxWorkerAwaited, AuditWorkerAwaited]"

definition serve_and_stop :: "boot_env \<Rightarrow> Server \<Rightarrow> boot \<Rightarrow> boot_event list \<times> go_error option" where
  "serve_and_stop E srv b =
     (case be_serve E of
        SignalReceived \<Rightarrow> leave (emit (shutdown_events E srv) (emit [SignalContextDone] b)) None
      | ServeReturned \<Rightarrow>
          (case Serve (be_grpc E) srv of
             Some err \<Rightarrow>
               if \<not> errors_Is err ContextCanceled then fail_boot b ''grpc serve: '' err
               else leave (emit (shutdown_events E srv) b) None
           | None \<Rightarrow> leave (emit (shutdown_events E srv) b) None))"

definition start_workers :: "Config \<Rightarrow> boot \<Rightarrow> boot" where
  "start_workers cfg b =
     emit [OutboxWorkerStarted (NewOutboxWorker (outboxWorkerCfg cfg)), AuditWorkerStarted (WithDrainCounter (WithLagGauge (NewAuditWorker (auditWorkerCfg cfg)) 0) 0)]
       (defer_call WorkersCancelled b)"

definition run :: "boot_env \<Rightarrow> log_attrs option \<Rightarrow> Config \<Rightarrow> boot_event list \<times> go_error option" where
  "run E lg cfg =
     (case snd (Init (be_otel E) ''ledger-svc'' Version (obsConfig cfg)) of
        Some err \<Rightarrow> fail_boot ([], []) ''otel init: '' err
      | None \<Rightarrow>
     (let b1 = open_resource ROtel ([], []) in
      case startMetricsServer (metrics_Addr (cfg_Metrics cfg)) (prof_Enabled (cfg_Profiling cfg)) of
        Inl err \<Rightarrow> fail_boot b1 ''metrics server: '' err
      | Inr (addr, routes) \<Rightarrow>
     (let b2 = (if addr = [] then b1 else open_resource RMetrics b1) in
      case boot_pool E (requestPoolCfg cfg) of
        Inl err \<Rightarrow> fail_boot b2 ''postgres request pool: '' err
      | Inr rp \<Rightarrow>
     (let b3 = open_resource RPoolStats (open_resource RRequestPool b2) in
      case boot_pool E (workerPoolCfg cfg) of
        Inl err \<Rightarrow> fail_boot b3 ''postgres worker pool: '' err
      | Inr wp \<Rightarrow>
     (let b4 = open_resource RWorkerPool b3 in
      case be_redis_parse E (redis_URL (cfg_Redis cfg)) of
        Some err \<Rightarrow> fail_boot b4 ''parse REDIS_URL: '' err
      | None \<Rightarrow>
     (let b5 = open_resource RRedis b4 in
      case be_redis_ping E of
        Some err \<Rightarrow> fail_boot b5 ''redis ping: '' err
      | None \<Rightarrow>
     (case NewConfluentProducer (be_kafka E) (producerCfg cfg) of
        Inl err \<Rightarrow> fail_boot b5 ''kafka producer: '' err
      | Inr tmo \<Rightarrow>
     (let b6 = start_workers cfg (open_resource RProducer b5) in
      case NewServer (be_listen E) (serverCfg cfg) lg of
        Inl err \<Rightarrow> fail_boot b6 ''grpc server: '' err
      | Inr srv \<Rightarrow> serve_and_stop E srv (emit [ServerBound srv] b6)))))))))"

section \<open>The program\<close>

text \<open>The only flag overrides the listen address.\<close>

definition overrideAddr :: "string \<Rightarrow> Config \<Rightarrow> Config" where
  "overrideAddr addr c = (if addr \<noteq> [] then c\<lparr>cfg_GRPC := (cfg_GRPC c)\<lparr>grpc_Addr := addr\<rparr>\<rparr> else c)"

text \<open>The handler of \<open>newLogger\<close> writes the lines at or above the configured level.\<close>

definition newLogger_writes :: "string \<Rightarrow> log_line list \<Rightarrow> log_line list" where
  "newLogger_writes level ls = filter (\<lambda>l. newLogger_level level \<le> level_value (ll_Level l)) ls"

text \<open>Exit code and events of \<open>main\<close>, with what it sets for the process once the configuration is
  loaded: the level of the logger and the runtime limits.\<close>

type_synonym process_settings = "int \<times> memlimit_log \<times> int option"

definition server_main :: "boot_env \<Rightarrow> dotenv \<Rightarrow> (environ \<Rightarrow> Config result) \<Rightarrow> (rat \<Rightarrow> string) \<Rightarrow> go_error + int \<Rightarrow> string \<Rightarrow> environ
    \<Rightarrow> nat \<times> process_settings option \<times> boot_event list" where
  "server_main E F env_Parse FormatFloat2 limit addr e =
     (case Load F env_Parse \<lparr>SkipDotenv = False, ServiceEnvFile = ''apps/ledger-svc/.env''\<rparr> e of
        (e1, Inl err) \<Rightarrow> (1, None, [])
      | (e1, Inr cfg) \<Rightarrow>
          let cfg1 = overrideAddr addr cfg;
              settings = Some (newLogger_level (LogLevel cfg1), ApplyRuntimeLimits FormatFloat2 limit e1)
          in (case run E (Some []) cfg1 of
                (tr, Some err) \<Rightarrow> (1, settings, tr)
              | (tr, None) \<Rightarrow> (0, settings, tr)))"

section \<open>The reconciler daemon\<close>

definition reconcilerPoolCfg :: "Config \<Rightarrow> PoolConfig" where
  "reconcilerPoolCfg c =
     \<lparr>DSN = db_URL (cfg_DB c), MaxConns = 8, MinConns = 0, MaxConnLifetime = 0, MaxConnIdleTime = 0,
      AcquireTimeout = db_AcquireTimeout (cfg_DB c)\<rparr>"

definition reconcilerOf :: "Config \<Rightarrow> duration \<Rightarrow> int \<Rightarrow> Reconciler" where
  "reconcilerOf c staleAfter batchSize =
     NewReconciler (outbox_Topic (cfg_Outbox c)) \<lparr>StaleAfter = staleAfter, rc_BatchSize = batchSize, DrilldownLimit = 0\<rparr>"

text \<open>A cycle, and the daemon: one cycle at once, then one per tick until the context is done. The
  list holds what happens while waiting: \<^const>\<open>None\<close> is the signal, \<open>Some re\<close> a tick with the
  answers the cycle gets.\<close>

definition runCycle :: "(UUID \<Rightarrow> string) \<Rightarrow> PoolConfig \<Rightarrow> duration \<Rightarrow> Reconciler \<Rightarrow> recon_env
    \<Rightarrow> KafkaMessage list outbox_world \<Rightarrow> KafkaMessage list outbox_world \<times> ReconcilerResult" where
  "runCycle ustr pc tmo r re w = RunOnce ustr pc tmo r re w"

fun daemon_loop :: "(UUID \<Rightarrow> string) \<Rightarrow> PoolConfig \<Rightarrow> duration \<Rightarrow> Reconciler \<Rightarrow> recon_env option list
    \<Rightarrow> KafkaMessage list outbox_world \<Rightarrow> KafkaMessage list outbox_world \<times> ReconcilerResult list" where
  "daemon_loop ustr pc tmo r [] w = (w, [])"
| "daemon_loop ustr pc tmo r (None # evs) w = (w, [])"
| "daemon_loop ustr pc tmo r (Some re # evs) w =
     (case runCycle ustr pc tmo r re w of (w1, x) \<Rightarrow>
        case daemon_loop ustr pc tmo r evs w1 of (w2, xs) \<Rightarrow> (w2, x # xs))"

definition reconciler_main :: "(UUID \<Rightarrow> string) \<Rightarrow> Config \<Rightarrow> duration \<Rightarrow> int \<Rightarrow> bool \<Rightarrow> duration \<Rightarrow> recon_env \<Rightarrow> recon_env option list
    \<Rightarrow> KafkaMessage list outbox_world \<Rightarrow> KafkaMessage list outbox_world \<times> ReconcilerResult list" where
  "reconciler_main ustr c staleAfter batchSize once tmo re evs w =
     (let r = reconcilerOf c staleAfter batchSize; pc = reconcilerPoolCfg c
      in if once then (case runCycle ustr pc tmo r re w of (w1, x) \<Rightarrow> (w1, [x]))
         else daemon_loop ustr pc tmo r (Some re # evs) w)"

end
