(* ===== verification/Boot_Props.thy ===== *)
theory Boot_Props
  imports Boot
begin

text \<open>
  Two promises of the boot code: whatever fails, \<open>run\<close> closes exactly what it opened, in reverse
  order, and ends a graceful stop with both workers finished before anything they use is closed;
  and a configuration that loads gives every component sizes within their documented bounds.
\<close>

section \<open>Opening and closing\<close>

definition opened :: "boot_event list \<Rightarrow> resource list" where
  "opened tr = concat (map (\<lambda>e. case e of Opened r \<Rightarrow> [r] | _ \<Rightarrow> []) tr)"

definition closed :: "boot_event list \<Rightarrow> resource list" where
  "closed tr = concat (map (\<lambda>e. case e of Closed r \<Rightarrow> [r] | _ \<Rightarrow> []) tr)"

lemma opened_simps [simp]:
  "opened [] = []" "opened (Opened r # tr) = r # opened tr" "opened (Closed r # tr) = opened tr"
  "opened (tr @ tr') = opened tr @ opened tr'"
  by (simp_all add: opened_def)

lemma closed_simps [simp]:
  "closed [] = []" "closed (Closed r # tr) = r # closed tr" "closed (Opened r # tr) = closed tr"
  "closed (tr @ tr') = closed tr @ closed tr'"
  by (simp_all add: closed_def)

text \<open>Nothing has been closed yet, and the deferred calls close what is open, the latest first.\<close>

definition balanced :: "boot \<Rightarrow> bool" where
  "balanced b \<longleftrightarrow> closed (fst b) = [] \<and> opened (snd b) = [] \<and> closed (snd b) = rev (opened (fst b))"

lemma balanced_steps [simp, intro]:
  "balanced ([], [])" "balanced b \<Longrightarrow> balanced (open_resource r b)"
  "balanced b \<Longrightarrow> opened es = [] \<Longrightarrow> closed es = [] \<Longrightarrow> balanced (emit es b)"
  by (simp_all add: balanced_def open_resource_def emit_def)

lemma balanced_workers [simp, intro]: "balanced b \<Longrightarrow> balanced (start_workers cfg b)"
  by (simp add: balanced_def start_workers_def emit_def defer_call_def opened_def closed_def)

definition orderly :: "boot_event list \<Rightarrow> bool" where
  "orderly tr \<longleftrightarrow> closed tr = rev (opened tr) \<and> (\<exists>t d. tr = t @ d \<and> closed t = [] \<and> opened d = [])"

definition graceful :: "boot_event list \<Rightarrow> bool" where
  "graceful tr \<longleftrightarrow> (\<exists>pre E v post. tr = pre @ shutdown_events E v @ post \<and> closed pre = [] \<and> closed post = rev (opened pre))"

lemma leave_orderly: "balanced b \<Longrightarrow> orderly (fst b @ snd b)"
  by (auto simp: balanced_def orderly_def)

lemma fail_orderly: "balanced b \<Longrightarrow> fail_boot b msg e = (tr, err) \<Longrightarrow> orderly tr \<and> err \<noteq> None"
  by (auto simp: fail_boot_def leave_def leave_orderly)

lemma shutdown_neutral [simp]: "opened (shutdown_events E v) = []" "closed (shutdown_events E v) = []"
  by (simp_all add: shutdown_events_def opened_def closed_def)

lemma stop_orderly:
  assumes "balanced b" "leave (emit (shutdown_events E v) b) None = (tr, err)"
  shows "orderly tr \<and> (err = None \<longrightarrow> graceful tr)"
proof
  have tr: "tr = fst b @ shutdown_events E v @ snd b" using assms(2) by (simp add: leave_def emit_def)
  show "orderly tr" using leave_orderly [of "emit (shutdown_events E v) b"] assms(1) by (simp add: emit_def balanced_def tr)
  show "err = None \<longrightarrow> graceful tr" using assms(1) by (auto simp: graceful_def balanced_def tr)
qed

lemma serve_orderly:
  assumes "balanced b" "serve_and_stop E srv b = (tr, err)"
  shows "orderly tr \<and> (err = None \<longrightarrow> graceful tr)"
proof -
  have sig: "balanced (emit [SignalContextDone] b)" using assms(1) by (rule balanced_steps) (simp_all add: opened_def closed_def)
  consider e where "fail_boot b ''grpc serve: '' e = (tr, err)"
    | "leave (emit (shutdown_events E srv) b) None = (tr, err)"
    | "leave (emit (shutdown_events E srv) (emit [SignalContextDone] b)) None = (tr, err)"
    using assms(2) by (auto simp: serve_and_stop_def split: serve_end.splits option.splits if_splits)
  then show ?thesis using fail_orderly [OF assms(1)] stop_orderly [OF assms(1)] stop_orderly [OF sig] by cases auto
qed


text \<open>A server that fails on its own is left without waiting for the workers: the producer, the Redis
  client and the pools are closed under them.\<close>

theorem serve_error_skips_waiting:
  assumes "be_serve E = ServeReturned" "be_grpc E (srv_listener srv) = Some e" "\<not> errors_Is e ContextCanceled" "serve_and_stop E srv b = (tr, err)"
    and "OutboxWorkerAwaited \<notin> set (fst b @ snd b)"
  shows "OutboxWorkerAwaited \<notin> set tr"
  using assms by (auto simp: serve_and_stop_def Serve_def fail_boot_def leave_def)

text \<open>A signal reaches the workers before the server: their context is a child of the signal's, so they
  may stop while the server still answers calls, although the shutdown is written to stop them last.\<close>

theorem signal_cancels_workers_first:
  assumes "be_serve E = SignalReceived"
  shows "fst (serve_and_stop E srv b) = fst b @ SignalContextDone # shutdown_events E srv @ snd b"
  using assms by (simp add: serve_and_stop_def leave_def emit_def)

section \<open>Sizes\<close>

text \<open>The bounds a loaded configuration gives the components; the defaults of the two worker
  constructors do not override the configured sizes.\<close>

definition sized :: "Config \<Rightarrow> bool" where
  "sized c \<longleftrightarrow> MinConns (requestPoolCfg c) \<le> MaxConns (requestPoolCfg c)
     \<and> MinConns (workerPoolCfg c) \<le> MaxConns (workerPoolCfg c)
     \<and> AcquireTimeout (requestPoolCfg c) \<in> {50 * Millisecond..30 * Second}
     \<and> AcquireTimeout (workerPoolCfg c) \<in> {0<..5 * Minute}
     \<and> ow_MaxConcurrency (NewOutboxWorker (outboxWorkerCfg c)) = outbox_Workers (cfg_Outbox c)
     \<and> aw_BatchSize (aw_cfg (NewAuditWorker (auditWorkerCfg c))) = audit_BatchSize (cfg_Audit c)
     \<and> (0 < db_MaxConns (cfg_DB c) \<longrightarrow> 0 < admissionCap c)"

text \<open>C40: from whatever environment and dotenv files a configuration was loaded, it satisfies the
  cross-field rules, and the pools, the workers and the admission cap built from it are within
  their bounds (the cap is positive when the pool is).\<close>

theorem loaded_config_is_sized:
  assumes "Load F env_Parse opts e = (e', Inr c)"
  shows "config_ok c \<and> sized c"
proof -
  have ok: "config_ok c" using Load_ok [OF assms] by blast
  then have "sized c"
    by (auto simp: config_ok_def sized_def requestPoolCfg_def workerPoolCfg_def outboxWorkerCfg_def auditWorkerCfg_def
        NewOutboxWorker_def NewAuditWorker_def admissionCap_def Let_def)
  with ok show ?thesis by blast
qed

section \<open>The logger\<close>

text \<open>A line that is written stays written when its level is raised, and under every level name of
  slog, or none, the lines at \<open>LevelError\<close>, such as those of recovered panics, are all written.\<close>

lemma written_mono:
  assumes "l \<in> set (newLogger_writes level ls)" "ll_Level l \<le> ll_Level l'" "l' \<in> set ls"
  shows "l' \<in> set (newLogger_writes level ls)"
  using assms by (auto simp: newLogger_writes_def less_eq_log_level_def)

lemma errors_are_written:
  assumes "map_of slog_levels (map char_upper level) \<noteq> None \<and> set level \<inter> set ''+-'' = {} \<or> UnmarshalLevel level = None"
  shows "filter (\<lambda>l. ll_Level l = LevelError) (newLogger_writes level ls) = filter (\<lambda>l. ll_Level l = LevelError) ls"
proof -
  have "newLogger_level level \<le> 8"
  proof (cases "UnmarshalLevel level")
    case (Some v)
    with assms have "set level \<inter> set ''+-'' = {}" by auto
    then have "takeWhile (\<lambda>c. c \<noteq> CHR ''+'' \<and> c \<noteq> CHR ''-'') level = level" by (auto simp: takeWhile_eq_all_conv)
    with Some have "map_of slog_levels (map char_upper level) = Some v"
      by (auto simp: UnmarshalLevel_def Let_def split: option.splits)
    then show ?thesis using Some by (auto simp: slog_levels_def newLogger_level_def split: if_splits)
  qed (simp add: newLogger_level_def)
  then show ?thesis by (auto simp: newLogger_writes_def intro!: filter_cong)
qed

section \<open>The daemon\<close>

text \<open>The reconciler runs one cycle at start and one per tick until the signal.\<close>

lemma daemon_cycles:
  "length (snd (daemon_loop ustr pc tmo r evs w)) = length (takeWhile (\<lambda>e. e \<noteq> None) evs)"
proof (induction evs arbitrary: w)
  case (Cons ev evs)
  then show ?case by (cases ev) (auto split: prod.splits, metis snd_conv)
qed simp

section \<open>Witnesses\<close>

definition sample_config :: Config where
  "sample_config =
     \<lparr>AppEnv = ''development'', LogLevel = ''info'', cfg_GRPC = \<lparr>grpc_Addr = '':9090'', grpc_ShutdownTimeout = 30 * Second\<rparr>,
      cfg_Metrics = \<lparr>metrics_Addr = '':9100''\<rparr>,
      cfg_Profiling = \<lparr>prof_Enabled = False, prof_BlockProfileRate = 0, prof_MutexProfileFraction = 0\<rparr>,
      cfg_Admission = \<lparr>adm_Enabled = True, adm_MaxInFlight = 0\<rparr>, cfg_RateLimit = \<lparr>rlim_Enabled = True, rlim_TenantTierMap = []\<rparr>,
      cfg_DB = \<lparr>db_URL = ''postgres'', db_MaxConns = 120, db_MinConns = 20, db_ConnMaxLifetime = Hour,
        db_ConnMaxIdleTime = 30 * Minute, db_AcquireTimeout = 500 * Millisecond, db_WorkerAcquireTimeout = 30 * Second,
        db_WorkerMaxConns = 16\<rparr>,
      cfg_Redis = \<lparr>redis_URL = ''redis''\<rparr>, cfg_Kafka = \<lparr>kafka_Brokers = [''kafka:9092''], kafka_ClientID = ''ledger-svc''\<rparr>,
      cfg_Outbox = \<lparr>outbox_Topic = ''t'', outbox_Workers = 4\<rparr>, cfg_Audit = \<lparr>audit_BatchSize = 1000\<rparr>,
      cfg_OTel = \<lparr>otel_Endpoint = [], otel_Insecure = False, otel_ServiceName = ''ledger-svc'', otel_Version = [],
        otel_Sampler = ''always_on'', otel_SamplerArg = 1 / 10, otel_StdoutDebug = False\<rparr>\<rparr>"

definition sample_boot :: boot_env where
  "sample_boot = \<lparr>be_otel = \<lparr>sdk_resource = ResourceOk, sdk_otlp = (\<lambda>os. None), sdk_stdout = None\<rparr>, be_parse = (\<lambda>d. Inr (requestPoolCfg sample_config)), be_connect = (\<lambda>c. None), be_ping = (\<lambda>c. None),
     be_redis_parse = (\<lambda>u. None), be_redis_ping = Some (Foreign ''redis down''), be_kafka = (\<lambda>c. None), be_listen = Inr,
     be_serve = SignalReceived, be_grpc = (\<lambda>a. None), be_drained = True\<rparr>"

definition no_dotenv :: dotenv where
  "no_dotenv = \<lparr>os_Stat = (\<lambda>p. False), godotenv_Load = (\<lambda>p e. e)\<rparr>"


theorem loaded_config_is_sized_witness: "config_ok sample_config \<and> sized sample_config"
proof (rule loaded_config_is_sized)
  have "config_ok sample_config" by (simp add: config_ok_def sample_config_def duration_units)
  then show "Load no_dotenv (\<lambda>e. Inr sample_config) \<lparr>SkipDotenv = True, ServiceEnvFile = []\<rparr> Map.empty = (Map.empty, Inr sample_config)"
    by (simp add: Load_def Config_Validate_ok [symmetric])
qed

end
