(* ===== verification/Commands.thy ===== *)
theory Commands
  imports Boot Tools
begin

text \<open>
  The four commands from their arguments to their exit code: \<open>cmd/server\<close>, \<open>cmd/reconciler\<close>,
  \<open>cmd/migrate\<close> and \<open>cmd/loadtest\<close>. \<open>flag.CommandLine\<close> exits with 0 on a request for help and with 2 on any
  other mistake; \<open>fail\<close> exits with 1 and skips the deferred calls; a panic runs them and ends the
  process. \<open>time.ParseDuration\<close> is an argument.
\<close>

datatype prog_end = ExitCode nat | Panicked string

definition flag_exit :: "flag_error \<Rightarrow> nat" where
  "flag_exit err = (case err of ErrHelp \<Rightarrow> 0 | FlagError m \<Rightarrow> 2)"

definition any_value :: "string \<Rightarrow> flag_decl" where
  "any_value n = \<lparr>fd_name = n, fd_bool = False, fd_accepts = (\<lambda>_. True)\<rparr>"

definition typed_value :: "(string \<Rightarrow> 'a option) \<Rightarrow> string \<Rightarrow> flag_decl" where
  "typed_value conv n = \<lparr>fd_name = n, fd_bool = False, fd_accepts = (\<lambda>v. conv v \<noteq> None)\<rparr>"

definition bool_value :: "string \<Rightarrow> flag_decl" where
  "bool_value n = \<lparr>fd_name = n, fd_bool = True, fd_accepts = (\<lambda>v. strconv_ParseBool v \<noteq> None)\<rparr>"

section \<open>server\<close>

definition parseFlags :: "string list \<Rightarrow> flag_error + string" where
  "parseFlags args =
     (case flag_Parse [any_value ''addr''] args [] of
        Inl err \<Rightarrow> Inl err
      | Inr (as, rest) \<Rightarrow> Inr (flag_value as ''addr'' Some []))"

definition server_command :: "boot_env \<Rightarrow> dotenv \<Rightarrow> (environ \<Rightarrow> Config result) \<Rightarrow> (rat \<Rightarrow> string) \<Rightarrow> go_error + int \<Rightarrow> string list \<Rightarrow> environ
    \<Rightarrow> nat \<times> process_settings option \<times> boot_event list" where
  "server_command E F env_Parse FormatFloat2 limit args e =
     (case parseFlags args of
        Inl err \<Rightarrow> (flag_exit err, None, [])
      | Inr addr \<Rightarrow> server_main E F env_Parse FormatFloat2 limit addr e)"

section \<open>reconciler\<close>

definition reconciler_flags :: "(string \<Rightarrow> duration option) \<Rightarrow> flag_decl list" where
  "reconciler_flags ParseDuration =
     [typed_value ParseDuration ''stale-after'', typed_value strconv_ParseInt ''batch-size'',
      typed_value ParseDuration ''interval'', bool_value ''once'']"

definition reconcilerProducerCfg :: "Config \<Rightarrow> ConfluentProducerConfig" where
  "reconcilerProducerCfg c =
     \<lparr>Brokers = BootstrapServers (cfg_Kafka c), ClientID = ''ledger-reconciler'', LingerMs = 0,
      CompressionType = [], ProduceTimeout = 0, AdditionalConfig = []\<rparr>"

text \<open>What the packages answer while the reconciler starts.\<close>

record recon_boot =
  rb_parse :: "string \<Rightarrow> PoolConfig result"
  rb_connect :: "PoolConfig \<Rightarrow> go_error option"
  rb_ping :: "go_error option"
  rb_kafka :: "(string \<times> string) list \<Rightarrow> go_error option"

text \<open>The cycles: with \<open>--once\<close> a single one, otherwise one at once and then one per tick; the ticker
  panics when its interval is not positive, after the first cycle. The result says how the process
  ends, what was opened and closed, and the results of the cycles.\<close>

definition reconciler_command :: "recon_boot \<Rightarrow> dotenv \<Rightarrow> (environ \<Rightarrow> Config result) \<Rightarrow> (string \<Rightarrow> duration option) \<Rightarrow> (UUID \<Rightarrow> string)
    \<Rightarrow> string list \<Rightarrow> environ \<Rightarrow> recon_env \<Rightarrow> recon_env option list \<Rightarrow> KafkaMessage list outbox_world
    \<Rightarrow> prog_end \<times> boot_event list \<times> KafkaMessage list outbox_world \<times> ReconcilerResult list" where
  "reconciler_command B F env_Parse ParseDuration ustr args e re evs w =
     (case flag_Parse (reconciler_flags ParseDuration) args [] of
        Inl err \<Rightarrow> (ExitCode (flag_exit err), [], w, [])
      | Inr (as, rest) \<Rightarrow>
     (let staleAfter = flag_value as ''stale-after'' ParseDuration (5 * Minute);
          batchSize = flag_value as ''batch-size'' strconv_ParseInt 500;
          interval = flag_value as ''interval'' ParseDuration Hour;
          once = flag_value as ''once'' strconv_ParseBool False
      in case snd (Load F env_Parse \<lparr>SkipDotenv = False, ServiceEnvFile = ''apps/ledger-svc/.env''\<rparr> e) of
        Inl err \<Rightarrow> (ExitCode 1, [], w, [])
      | Inr cfg \<Rightarrow>
     (case fst (NewPool (rb_parse B) (rb_connect B) (rb_ping B) (reconcilerPoolCfg cfg)) of
        Inl err \<Rightarrow> (ExitCode 1, [], w, [])
      | Inr p \<Rightarrow>
     (case NewConfluentProducer (rb_kafka B) (reconcilerProducerCfg cfg) of
        Inl err \<Rightarrow> (ExitCode 1, [Opened RWorkerPool], w, [])
      | Inr tmo \<Rightarrow>
     (let opens = [Opened RWorkerPool, Opened RProducer]; closes = [Closed RProducer, Closed RWorkerPool];
          bad = (\<not> once \<and> interval \<le> 0)
      in case reconciler_main ustr cfg staleAfter batchSize (once \<or> bad) tmo re evs w of (w1, xs) \<Rightarrow>
           (if bad then Panicked ''non-positive interval for NewTicker'' else ExitCode 0, opens @ closes, w1, xs))))))"

section \<open>migrate\<close>

definition migrate_command :: "'u net_url \<Rightarrow> migrate_lib \<Rightarrow> dotenv \<Rightarrow> string list \<Rightarrow> environ \<Rightarrow> exit" where
  "migrate_command N M F args e =
     (let e1 = LoadDotenv F ''apps/ledger-svc/.env'' e
      in case flag_Parse [any_value ''dsn'', any_value ''path''] args [] of
           Inl err \<Rightarrow> Exit (flag_exit err) ''usage''
         | Inr (as, rest) \<Rightarrow>
             migrate_main N M (flag_value as ''dsn'' Some (Getenv e1 ''DATABASE_URL'')) (flag_value as ''path'' Some ''./migrations'') rest)"

section \<open>loadtest\<close>

definition seed_flag_decls :: "flag_decl list" where
  "seed_flag_decls =
     [any_value ''dsn'', typed_value strconv_ParseInt ''tenants'', typed_value strconv_ParseInt ''accounts-per-tenant'',
      any_value ''currency'', typed_value strconv_ParseUint ''rng-seed'', typed_value strconv_ParseInt ''concurrency'',
      any_value ''fixtures'']"

datatype seed_end = SeedReturned "go_error option" | SeedPanicked string

text \<open>\<open>runSeed\<close> from its arguments. Ranging over a negative count is an empty loop, making a channel or
  a slice of negative size panics; without workers no job is taken.\<close>

definition seed_command :: "(string \<Rightarrow> go_error option) \<Rightarrow> go_error option \<Rightarrow> fixture_io \<Rightarrow> (UUID \<Rightarrow> string) \<Rightarrow> (go_error \<Rightarrow> bool)
    \<Rightarrow> (seedFlags \<Rightarrow> (accountSpec \<times> go_error option \<times> instant) list) \<Rightarrow> environ \<Rightarrow> string list \<Rightarrow> db \<Rightarrow> db \<times> seed_end" where
  "seed_command new ping IO ustr is_dup jobs e args d =
     (case flag_Parse seed_flag_decls args [] of
        Inl ErrHelp \<Rightarrow> (d, SeedReturned (Some (Foreign ''flag: help requested'')))
      | Inl (FlagError m) \<Rightarrow> (d, SeedReturned (Some (Foreign m)))
      | Inr (as, rest) \<Rightarrow>
     (let tenants = flag_value as ''tenants'' strconv_ParseInt 1000;
          accountsPerTenant = flag_value as ''accounts-per-tenant'' strconv_ParseInt 100;
          concurrency = flag_value as ''concurrency'' strconv_ParseInt 16;
          f = \<lparr>sf_dsn = flag_value as ''dsn'' Some (Getenv e ''DATABASE_URL''), sf_tenants = nat tenants,
               sf_accountsPerTenant = nat accountsPerTenant, sf_currency = flag_value as ''currency'' Some ''USD'',
               sf_rngSeed = flag_value as ''rng-seed'' strconv_ParseUint 42, sf_concurrency = nat concurrency,
               sf_fixturesPath = flag_value as ''fixtures'' Some ''apps/ledger-svc/load/fixtures.json''\<rparr>
      in case seed_connect new ping f of
           Some err \<Rightarrow> (d, SeedReturned (Some err))
         | None \<Rightarrow>
             if concurrency < 0 then (d, SeedPanicked ''makechan: size out of range'')
             else if tenants < 0 \<or> 0 < tenants \<and> accountsPerTenant < 0 then (d, SeedPanicked ''makeslice: len out of range'')
             else (case runSeed new ping IO ustr is_dup (if concurrency = 0 then [] else jobs f) f d of
                     (d1, err) \<Rightarrow> (d1, SeedReturned err))))"

definition loadtest_command :: "(string list \<Rightarrow> db \<Rightarrow> db \<times> seed_end) \<Rightarrow> string list \<Rightarrow> db \<Rightarrow> prog_end \<times> db" where
  "loadtest_command seed args d =
     (case args of
        [] \<Rightarrow> (ExitCode 2, d)
      | sub # rest \<Rightarrow>
          if sub = ''seed'' then
            (case seed rest d of
               (d1, SeedReturned None) \<Rightarrow> (ExitCode 0, d1)
             | (d1, SeedReturned (Some err)) \<Rightarrow> (ExitCode 1, d1)
             | (d1, SeedPanicked m) \<Rightarrow> (Panicked m, d1))
          else if sub \<in> {''-h'', ''--help'', ''help''} then (ExitCode 0, d)
          else (ExitCode 2, d))"

section \<open>What the commands promise\<close>

text \<open>A reconciler that does not get to its cycles touches nothing; otherwise it has closed what it
  opened, in reverse order, and has run at least one cycle.\<close>

theorem reconciler_ends:
  assumes "reconciler_command B F env_Parse pd ustr args e re evs w = (x, tr, w', xs)"
  shows "(w' = w \<and> xs = []) \<or>
    (xs \<noteq> [] \<and> tr = [Opened RWorkerPool, Opened RProducer, Closed RProducer, Closed RWorkerPool] \<and> (x = ExitCode 0 \<or> length xs = 1))"
  using assms
  by (auto simp: reconciler_command_def reconciler_main_def Let_def split: sum.splits prod.splits if_splits)

text \<open>An interval of zero or less ends the daemon right after its first cycle.\<close>

theorem interval_must_be_positive:
  assumes "reconciler_command B F env_Parse pd ustr args e re evs w = (x, tr, w', xs)" "xs \<noteq> []"
    and "flag_Parse (reconciler_flags pd) args [] = Inr (as, rest)"
    and "flag_value as ''interval'' pd Hour \<le> 0" "\<not> flag_value as ''once'' strconv_ParseBool False"
  shows "length xs = 1 \<and> (\<exists>m. x = Panicked m)"
  using assms
  by (auto simp: reconciler_command_def reconciler_main_def Let_def split: sum.splits prod.splits if_splits)

text \<open>Without workers nothing is seeded, and yet the fixtures are written and the run succeeds.\<close>

theorem no_workers_no_accounts:
  assumes "flag_Parse seed_flag_decls args [] = Inr (as, rest)" "flag_value as ''concurrency'' strconv_ParseInt 16 = 0"
    and "seed_command new ping IO ustr is_dup jobs e args d = (d', x)"
  shows "d' = d"
  using assms by (auto simp: seed_command_def runSeed_def Let_def split: option.splits prod.splits if_splits)

theorem no_workers_still_succeeds:
  assumes "\<And>u. new u = None" "\<And>x. io_marshal IO x = Inr data" "io_stdout IO data = None"
  shows "loadtest_command (seed_command new None IO ustr is_dup jobs e) [''seed'', ''-dsn=db'', ''-fixtures=-'', ''-concurrency=0''] d = (ExitCode 0, d)"
proof -
  have zero: "strconv_ParseInt ''0'' = Some 0"
    by (simp add: strconv_ParseInt_def strconv_ParseUint_def base_prefix_def in_int64_def)
  have "flag_Parse seed_flag_decls [''-dsn=db'', ''-fixtures=-'', ''-concurrency=0''] []
      = Inr ([(''dsn'', ''db''), (''fixtures'', ''-''), (''concurrency'', ''0'')], [])"
    by (simp add: flag_word_of_def seed_flag_decls_def any_value_def typed_value_def zero)
  with zero show ?thesis
    using assms by (simp add: loadtest_command_def seed_command_def seed_connect_def runSeed_def writeFixtures_def Let_def
        flag_value_def build_fixtures_def)
qed

lemma addr_flag: "CHR ''='' \<notin> set a \<Longrightarrow> parseFlags [''-addr='' @ a] = Inr a"
  using flags_roundtrip [of "[any_value ''addr'']" "[(''addr'', a)]" "[]" "[]"]
  by (simp add: parseFlags_def flag_written_def assignable_def any_value_def flag_value_def)

end
