(* ===== verification/Spec2Isabelle.thy ===== *)
theory Spec2Isabelle
  imports System Admission_Steps Rate_Isolation Gateway Boot_Props Commands
begin

text \<open>
  \<^bold>\<open>The program.\<close> A double-entry ledger in Go. \<open>apps/ledger-svc\<close> is a gRPC service: an RPC passes a
  chain of interceptors, reaches a handler, which calls the transfer usecase; the usecase takes an
  idempotency slot in Redis and has the repository post the transfer in one PostgreSQL transaction,
  together with an outbox event and an audit record. Workers of the same process relay the outbox
  to Kafka and move audit records into a hash-chained log; a reconciler in a process of its own
  drains what the relay left behind and checks that the ledger sums to zero; tools seed accounts
  and run migrations. \<open>apps/gateway-svc\<close> has so far only the domain types of payment workflows.

  \<^bold>\<open>How it is modelled.\<close> Structs are records with prefixed fields, in the order of the source; a string
  enumeration of Go stays a string; a \<open>uuid.UUID\<close> is a 128-bit word; instants and durations are
  nanosecond counts; \<open>float64\<close> is rational where the code only compares or multiplies. A function that
  returns an error returns \<open>go_error + 'a\<close> or an optional error; \<open>fmt.Errorf\<close> with \<open>%w\<close> builds a value
  that \<open>errors.Is\<close> looks through. Code that changes state takes the state and returns it. What a
  call gets from outside (clock, new ids, driver answers, what other sessions committed before its
  snapshot, delivery reports) is an argument, so every theorem holds for each of its values.
  Libraries are records of functions: \<open>apd\<close> (decimals), \<open>redis_client\<close>, \<open>attempt_env\<close> (pgx and
  PostgreSQL), \<open>kafka_env\<close>, \<open>rate_lib\<close>, \<open>transport_libs\<close>, \<open>prom\<close>; the documented behaviour the code relies
  on is a locale (\<open>apd_lib\<close>, \<open>redis_lib\<close>, \<open>prom_lib\<close>) or a named predicate (\<open>wire_libs\<close>, \<open>truthful_reports\<close>,
  \<open>jsonb_stable\<close>), each with a concrete instance. The Go standard library is modelled outright:
  SHA-256, time formatting, hex, \<open>strings\<close>, \<open>filepath.Clean\<close>, \<open>flag\<close>, \<open>strconv\<close>, \<open>sync.WaitGroup\<close>.

  \<^bold>\<open>The theories\<close> (paths under \<open>apps/ledger-svc/internal\<close> unless they start with \<open>apps\<close> or \<open>cmd\<close>).

  \<^item> \<open>Prelude\<close>, \<open>Sha256\<close>, \<open>Go_Time\<close>, \<open>Go_Flag\<close>: Go values, errors, bytes, the standard library; a written
    command line parses back.
  \<^item> \<open>Money\<close>, \<open>Domain\<close>: \<open>domain/*.go\<close>, amounts at scale 4 within 22 digits, aggregates with their
    validation, \<open>AssertBalanced\<close>.
  \<^item> \<open>Request_Context\<close>, \<open>Audit_Hash\<close>: \<open>audit/*.go\<close>, the envelope and the canonical bytes of the hash
    chain; an altered chain with the same hashes gives a SHA-256 collision.
  \<^item> \<open>Idempotency\<close>: \<open>infrastructure/redis_idempotency.go\<close>, one owner per key, expiry of started slots.
  \<^item> \<open>Pool_Tx\<close>: \<open>repository/{pool,retry,tx}.go\<close>, the retry loop (bounded by its maximum number of
    attempts, so it is a total function) and the transaction, which leaves no connection behind.
  \<^item> \<open>Breaker\<close>: \<open>repository/breaker.go\<close>, sequentially, and \<open>Allow\<close> as atomic steps that interleave.
  \<^item> \<open>Database\<close>: the tables of the migrations with their constraints, the SQL as functions on them.
  \<^item> \<open>Ledger_Repo\<close>, \<open>Ledger_Invariant\<close>, \<open>Ledger_Props\<close>: \<open>repository/{ledger_repo,audit_repo}.go\<close>;
    \<open>posted\<close> is the whole effect of one transfer and \<open>db_ok\<close> the invariant of the tables.
  \<^item> \<open>Outbox\<close>, \<open>Outbox_Props\<close>: \<open>repository/outbox_repo.go\<close>, \<open>infrastructure/{outbox_worker,
    kafka_producer,reconciler}.go\<close>; the contract of a producer is the locale \<open>drain_publisher\<close>.
  \<^item> \<open>Audit_Drain\<close>, \<open>Audit_Props\<close>: \<open>repository/audit_drain.go\<close>, \<open>infrastructure/audit_worker.go\<close>.
  \<^item> \<open>Workers\<close>: \<open>Run\<close> and \<open>Wait\<close> of both workers, their loops as groups whose turns interleave; a loop is
    an instance of \<open>worker_loop\<close>, and what each turn keeps every schedule keeps.
  \<^item> \<open>Table_Types\<close>: the types of the columns; every statement keeps them.
  \<^item> \<open>Transfer_Usecase\<close>, \<open>Transfer_Props\<close>: \<open>usecase/*.go\<close>; what the usecase needs of its ports is the
    locale \<open>transfer_ports\<close>, which the repository and the Redis store satisfy under all faults.
  \<^item> \<open>Rpc\<close>, \<open>Transport\<close>, \<open>Transport_Props\<close>: \<open>transport/grpc/{errors,converters,ledger_handler}.go\<close>.
  \<^item> \<open>Interceptors\<close>, \<open>Server\<close>, \<open>Interceptor_Props\<close>: \<open>transport/grpc/interceptors/*.go\<close> and
    \<open>server.go\<close>; every interceptor is a \<open>chain_layer\<close>, layers compose, so the chain is one.
    \<open>Admission_Steps\<close> and \<open>Rate_Isolation\<close> treat the admission counter and the limiter concurrently.
  \<^item> \<open>Gateway\<close>: \<open>apps/gateway-svc/internal/domain/*.go\<close>; both payment machines are instances of
    \<open>workflow_machine\<close>.
  \<^item> \<open>Config\<close>, \<open>Observability\<close>, \<open>Metrics\<close>, \<open>Boot\<close>, \<open>Boot_Props\<close>: \<open>config/config.go\<close>,
    \<open>observability/*.go\<close>, \<open>cmd/server/main.go\<close>; what is opened is closed, registering the metrics never
    panics and every recorder writes a series its metric has.
  \<^item> \<open>Tools\<close>, \<open>Commands\<close>: \<open>cmd/{server,reconciler,loadtest,migrate}/main.go\<close> from the arguments to the exit
    code.
  \<^item> \<open>Ledger_Machine\<close>, \<open>System\<close>: an abstract ledger (open an account, post a transfer, extend the topic,
    publish, forward audit records) and the program as a step relation that refines it. The state of the program is the server process
    (chain, request pool, usecase), the workers' pool and the topic; \<open>at_rest\<close> says that nothing is held.

  \<^bold>\<open>What is shown.\<close> From bottom to top: amounts survive text and database exactly; a transaction that
  passes \<open>AssertBalanced\<close> sums to zero; \<open>ExecuteTransfer\<close> posts its request at most once, whatever
  commit acknowledgements are lost, and keeps \<open>db_ok\<close>; on a healthy database its answer is given for
  every branch; retries under one key move money at most once, a key with another body is refused,
  a finished transfer is replayed; an event is marked PUBLISHED only when it is in the topic,
  however many drainers interleave, and from every reachable state good turns bring every event there; the audit drain loses, repeats and reorders nothing, and keeps
  each tenant's log one chain as long as ids and times agree; a call through the chain survives
  panics, gives its slot back and acts only for the tenant of the caller's header; and from an
  empty database every state the program reaches has closed books, rows within the types of their
  columns, and between its steps no connection or slot held. Some theorems state what the
  code does against its comments: the audit chain forks when ids and times disagree, a key whose first
  attempt failed is final, mistakes in a body are Internal errors, health checks are refused under
  a rate limit, a signal cancels the workers before the server is drained.

  \<^bold>\<open>Concurrency.\<close> A transaction is one atomic step at its commit, as serializable isolation gives it;
  other sessions act before each attempt (\<open>at_before\<close>), and in \<open>System\<close> they may take any steps of the
  abstract ledger. Row locks of other sessions are a parameter of the drains; the audit drain has a
  single writer, so there its set of locked rows is empty. In-memory state shared by goroutines is
  modelled by atomic steps where the code relies on atomics: \<open>Allow\<close> of the breaker, the admission
  counter, the limiter map.

  \<^bold>\<open>Bounds and fuel.\<close> No definition uses fuel. Loops of the code that are bounded recurse on their bound
  (retry attempts, batches, reports); endless worker loops run over a list of turns of any length,
  and the theorems hold for every list. Reports that never come are a timeout of the producer.

  \<^bold>\<open>Not modelled.\<close> Generated wire code and mocks, the stub programs of the gateway and compliance
  services (they print one line), \<open>libs/go\<close> (stubs and a logging facade), \<open>doc.go\<close> files, and the
  declarations of ports without behaviour, which appear as records or locales of the theories that
  use them. Of modelled files: log lines outside the interceptors, printed texts, what \<open>net/http\<close> does
  for the metrics listener, and \<open>time.ParseDuration\<close>, which is an argument.
\<close>

end
